theory Spec2Isabelle
  imports Complex_Main "HOL-Library.Word"
begin

section \<open>The VideoCall component as a transition system\<close>

text \<open>
  The component of \<^verbatim>\<open>src/components/VideoCall.js\<close> is modelled as a state record and
  one function per piece of code that runs without yielding: the four effects, the
  synchronous part of \<^verbatim>\<open>getLocalCamera\<close>, each continuation after an \<^verbatim>\<open>await\<close>, the
  \<^verbatim>\<open>enableAudio\<close> listener, \<^verbatim>\<open>detectVolume\<close> and the silence-timer callback. What the
  platform decides (whether \<^verbatim>\<open>play()\<close> and \<^verbatim>\<open>getUserMedia\<close> settle with success, what
  the analyser reads, when time passes, what the parent passes as props) arrives as an
  event.

  React is modelled as follows: state setters called in one handler are batched and the
  component re-renders when the handler yields; refs are attached before effects run; an
  effect runs when one of its dependencies changed, all clean-ups before all effects;
  setters of an unmounted component do nothing.
\<close>

subsection \<open>Data\<close>

text \<open>
  A media stream is known by its identity only: \<open>Ext k\<close> is a stream object handed in by
  the parent through the \<^verbatim>\<open>stream\<close> prop, \<open>Own k\<close> is the object returned by the
  \<open>k\<close>-th successful \<^verbatim>\<open>getUserMedia\<close> call of this component.
\<close>

datatype stream_ref = Ext nat | Own nat

text \<open>The \<^verbatim>\<open><video>\<close> element behind \<^verbatim>\<open>videoRef.current\<close>; \<open>playCalls\<close> counts its \<^verbatim>\<open>play()\<close> calls.\<close>

record video =
  srcObject :: "stream_ref option"
  muted :: bool
  volume :: rat
  playCalls :: nat

text \<open>
  One call of \<^verbatim>\<open>setupAudioAnalyser\<close> that did not throw: the analyser with its source
  stream, and the closure variable \<^verbatim>\<open>silenceTimeout\<close>. \<open>lastLoud\<close> is a history variable
  (not in the source): the time of the last reading above the threshold.
\<close>

record session =
  source :: stream_ref
  silenceTimeout :: "nat option"
  lastLoud :: "nat option"

record state =
  \<comment> \<open>props\<close>
  stream :: "stream_ref option"
  isRemote :: bool
  \<comment> \<open>\<^verbatim>\<open>useState\<close>\<close>
  isLoading :: bool
  isSpeaking :: bool
  localStream :: "stream_ref option"
  error :: "string option"
  \<comment> \<open>the component instance and what React keeps for it\<close>
  mounted :: bool
  videoRef :: "video option"
  deps :: "(stream_ref option \<times> bool \<times> stream_ref option) option"
  \<comment> \<open>\<^verbatim>\<open>addtrack\<close>/\<^verbatim>\<open>removetrack\<close> handlers registered on streams, and what they logged\<close>
  observers :: "stream_ref list"
  trackLogs :: nat
  \<comment> \<open>promises in flight\<close>
  pendingGum :: nat
  gumCount :: nat
  pendingPlay :: "bool list"
  pendingLocalPlay :: "stream_ref list"
  \<comment> \<open>\<^verbatim>\<open>enableAudio\<close> closures registered on \<^verbatim>\<open>document\<close>\<close>
  clickListeners :: "nat list"
  touchListeners :: "nat list"
  nextListener :: nat
  \<comment> \<open>analysers with their sampling loops, and the timer table of the page\<close>
  sessions :: "session list"
  timers :: "nat \<rightharpoonup> nat"
  nextTimer :: nat
  now :: nat
  \<comment> \<open>the platform\<close>
  audioTracks :: "stream_ref \<Rightarrow> nat"
  analyserOk :: bool
  stopped :: "stream_ref set"

text \<open>What the JSX of lines 244 to 316 shows.\<close>

datatype presentation = Loading | Error string | Playing | Idle

subsection \<open>State setters and derived values\<close>

definition setIsLoading :: "bool \<Rightarrow> state \<Rightarrow> state" where
  "setIsLoading b st = (if mounted st then st\<lparr>isLoading := b\<rparr> else st)"

definition setIsSpeaking :: "bool \<Rightarrow> state \<Rightarrow> state" where
  "setIsSpeaking b st = (if mounted st then st\<lparr>isSpeaking := b\<rparr> else st)"

definition setLocalStream :: "stream_ref option \<Rightarrow> state \<Rightarrow> state" where
  "setLocalStream s st = (if mounted st then st\<lparr>localStream := s\<rparr> else st)"

definition setError :: "string option \<Rightarrow> state \<Rightarrow> state" where
  "setError m st = (if mounted st then st\<lparr>error := m\<rparr> else st)"

text \<open>Line 232 (and lines 124, 146): \<^verbatim>\<open>stream || localStream\<close>.\<close>

definition currentStream :: "state \<Rightarrow> stream_ref option" where
  "currentStream st = (case stream st of Some s \<Rightarrow> Some s | None \<Rightarrow> localStream st)"

text \<open>\<^verbatim>\<open>error ? ... : ...\<close>: the empty message is falsy.\<close>

definition hasError :: "state \<Rightarrow> bool" where
  "hasError st = (case error st of None \<Rightarrow> False | Some m \<Rightarrow> m \<noteq> [])"

definition presentationState :: "state \<Rightarrow> presentation" where
  "presentationState st =
     (if isLoading st then Loading
      else if hasError st then Error (the (error st))
      else if currentStream st \<noteq> None then Playing
      else Idle)"

text \<open>
  A new \<^verbatim>\<open><video>\<close> element: nothing attached, \<^verbatim>\<open>muted\<close> is \<^verbatim>\<open>isRemote ? false : isMuted\<close>
  where \<^verbatim>\<open>isMuted\<close> is never set, volume at its default.
\<close>

definition newVideo :: video where
  "newVideo = \<lparr>srcObject = None, muted = False, volume = 1, playCalls = 0\<rparr>"

text \<open>
  The element exists exactly in the third branch of the JSX; React attaches and detaches
  \<^verbatim>\<open>videoRef.current\<close> accordingly when it commits a render.
\<close>

definition syncVideo :: "state \<Rightarrow> state" where
  "syncVideo st =
     (if mounted st \<and> \<not> isLoading st \<and> \<not> hasError st \<and> currentStream st \<noteq> None
      then (case videoRef st of None \<Rightarrow> st\<lparr>videoRef := Some newVideo\<rparr> | Some v \<Rightarrow> st)
      else st\<lparr>videoRef := None\<rparr>)"

definition onVideo :: "(video \<Rightarrow> video) \<Rightarrow> state \<Rightarrow> state" where
  "onVideo f st = st\<lparr>videoRef := map_option f (videoRef st)\<rparr>"

definition attachAndPlay :: "stream_ref \<Rightarrow> video \<Rightarrow> video" where
  "attachAndPlay s v = v\<lparr>srcObject := Some s, playCalls := Suc (playCalls v)\<rparr>"

subsection \<open>The sampling loop (lines 154 to 190)\<close>

definition fftSize :: nat where
  "fftSize = 512"

definition frequencyBinCount :: nat where
  "frequencyBinCount = fftSize div 2"

text \<open>The \<^verbatim>\<open>for\<close> loop of lines 168 to 171.\<close>

fun sumValues :: "nat \<Rightarrow> 8 word list \<Rightarrow> nat" where
  "sumValues values [] = values"
| "sumValues values (b # bs) = sumValues (values + unat b) bs"

text \<open>
  Line 172. The sum of 256 bytes is below \<open>2 ^ 16\<close> and the divisor is a power of two,
  so the division of the source is exact and a rational number models it.
\<close>

definition average :: "8 word list \<Rightarrow> rat" where
  "average dataArray = of_nat (sumValues 0 dataArray) / of_nat (length dataArray)"

definition clearTimeout :: "nat \<Rightarrow> state \<Rightarrow> state" where
  "clearTimeout t st = st\<lparr>timers := (timers st)(t := None)\<rparr>"

text \<open>\<^verbatim>\<open>setTimeout\<close> returns the new timer's id; ids count up from 1.\<close>

definition setTimeout :: "nat \<Rightarrow> state \<Rightarrow> state" where
  "setTimeout delay st =
     st\<lparr>timers := (timers st)(nextTimer st \<mapsto> now st + delay), nextTimer := Suc (nextTimer st)\<rparr>"

definition setSession :: "nat \<Rightarrow> session \<Rightarrow> state \<Rightarrow> state" where
  "setSession i s st = st\<lparr>sessions := (sessions st)[i := s]\<rparr>"

text \<open>
  \<^verbatim>\<open>detectVolume\<close> of session \<open>i\<close> on the magnitudes the analyser wrote; the closure
  belongs to a session that exists, so \<open>i\<close> is below the number of sessions wherever the
  function is used. The closing \<^verbatim>\<open>requestAnimationFrame(detectVolume)\<close> keeps the loop
  scheduled in both branches; nothing in the source cancels it, so a session always has
  its next tick pending.
\<close>

definition detectVolume :: "nat \<Rightarrow> 8 word list \<Rightarrow> state \<Rightarrow> state" where
  "detectVolume i dataArray st =
     (if average dataArray > 20 then
        (let st1 = setIsSpeaking True st;
             s = sessions st1 ! i;
             st2 = (case silenceTimeout s of
                      Some t \<Rightarrow> if t \<noteq> 0 then clearTimeout t st1 else st1
                    | None \<Rightarrow> st1);
             t' = nextTimer st2;
             st3 = setTimeout 800 st2
         in setSession i (s\<lparr>silenceTimeout := Some t', lastLoud := Some (now st3)\<rparr>) st3)
      else st)"

text \<open>
  \<^verbatim>\<open>setupAudioAnalyser\<close>. The \<^verbatim>\<open>try\<close> block throws, and the \<^verbatim>\<open>catch\<close> only logs, when the
  platform cannot construct the nodes or when the stream has no audio track
  (\<^verbatim>\<open>createMediaStreamSource\<close> rejects such a stream). Otherwise a new analyser with its
  own \<^verbatim>\<open>silenceTimeout\<close> exists and line 186 runs \<^verbatim>\<open>detectVolume\<close> at once, on an analyser
  that has not processed any audio yet.
\<close>

definition setupAudioAnalyser :: "stream_ref \<Rightarrow> state \<Rightarrow> state" where
  "setupAudioAnalyser s st =
     (if analyserOk st \<and> 0 < audioTracks st s then
        detectVolume (length (sessions st)) (replicate frequencyBinCount 0)
          (st\<lparr>sessions := sessions st @ [\<lparr>source = s, silenceTimeout = None, lastLoud = None\<rparr>]\<rparr>)
      else st)"

subsection \<open>Acquisition and playback (lines 31 to 120)\<close>

text \<open>\<^verbatim>\<open>getLocalCamera\<close> up to \<^verbatim>\<open>await navigator.mediaDevices.getUserMedia\<close>.\<close>

definition getLocalCamera :: "state \<Rightarrow> state" where
  "getLocalCamera st =
     (let st1 = setError None (setIsLoading True st)
      in st1\<lparr>pendingGum := Suc (pendingGum st1)\<rparr>)"

text \<open>
  \<^verbatim>\<open>getLocalCamera\<close> after \<^verbatim>\<open>getUserMedia\<close> resolved, up to \<^verbatim>\<open>await videoRef.current.play()\<close>
  or, when there is no video element, to the end. The constraints ask for audio, so the
  new stream has an audio track.
\<close>

definition gumResolved :: "state \<Rightarrow> state" where
  "gumResolved st =
     (let s = Own (gumCount st);
          st1 = st\<lparr>pendingGum := pendingGum st - 1, gumCount := Suc (gumCount st),
                   audioTracks := (audioTracks st)(s := 1)\<rparr>;
          st2 = setLocalStream (Some s) st1
      in if videoRef st2 \<noteq> None
         then (onVideo (attachAndPlay s) st2)\<lparr>pendingLocalPlay := pendingLocalPlay st2 @ [s]\<rparr>
         else setIsLoading False (setupAudioAnalyser s st2))"

text \<open>Lines 110 to 113, after the inner \<^verbatim>\<open>try\<close>/\<^verbatim>\<open>catch\<close> around \<^verbatim>\<open>play()\<close> (either outcome).\<close>

definition localPlaySettled :: "stream_ref \<Rightarrow> state \<Rightarrow> state" where
  "localPlaySettled s st = setIsLoading False (setupAudioAnalyser s st)"

text \<open>The outer \<^verbatim>\<open>catch\<close> of lines 115 to 119.\<close>

definition gumRejected :: "string \<Rightarrow> state \<Rightarrow> state" where
  "gumRejected message st =
     setIsLoading False (setError (Some message) (st\<lparr>pendingGum := pendingGum st - 1\<rparr>))"

text \<open>Lines 49 to 60: a new \<^verbatim>\<open>enableAudio\<close> closure is registered for both events.\<close>

definition armEnableAudio :: "state \<Rightarrow> state" where
  "armEnableAudio st =
     st\<lparr>clickListeners := clickListeners st @ [nextListener st],
        touchListeners := touchListeners st @ [nextListener st],
        nextListener := Suc (nextListener st)\<rparr>"

text \<open>The closure \<^verbatim>\<open>enableAudio\<close> with identity \<open>l\<close> (lines 49 to 57).\<close>

definition enableAudio :: "nat \<Rightarrow> state \<Rightarrow> state" where
  "enableAudio l st =
     (let st1 = (if videoRef st \<noteq> None
                 then onVideo (\<lambda>v. v\<lparr>muted := False, volume := 1, playCalls := Suc (playCalls v)\<rparr>) st
                 else st)
      in st1\<lparr>clickListeners := removeAll l (clickListeners st1),
             touchListeners := removeAll l (touchListeners st1)\<rparr>)"

text \<open>
  \<^verbatim>\<open>playVideo\<close> after \<^verbatim>\<open>await videoRef.current.play()\<close> settled; \<open>r\<close> is the \<^verbatim>\<open>isRemote\<close> the
  closure captured, \<open>ok\<close> tells whether the promise resolved.
\<close>

definition playSettled :: "bool \<Rightarrow> bool \<Rightarrow> state \<Rightarrow> state" where
  "playSettled r ok st =
     (if ok then setIsLoading False st
      else (let st1 = setIsLoading False st
            in if r then armEnableAudio st1 else st1))"

text \<open>\<^verbatim>\<open>playVideo\<close> up to its \<^verbatim>\<open>await\<close>.\<close>

definition playVideo :: "state \<Rightarrow> state" where
  "playVideo st =
     (onVideo (\<lambda>v. v\<lparr>playCalls := Suc (playCalls v)\<rparr>) st)\<lparr>pendingPlay := pendingPlay st @ [isRemote st]\<rparr>"

text \<open>The effect of lines 31 to 72.\<close>

definition streamEffect :: "state \<Rightarrow> state" where
  "streamEffect st =
     (if stream st \<noteq> None \<and> videoRef st \<noteq> None
      then playVideo (onVideo (\<lambda>v. v\<lparr>srcObject := stream st\<rparr>) st)
      else if stream st = None \<and> \<not> isRemote st then getLocalCamera st
      else if stream st = None then setIsLoading False st
      else st)"

subsection \<open>The other effects (lines 123 to 152 and 224 to 230)\<close>

definition trackEffect :: "state \<Rightarrow> state" where
  "trackEffect st =
     (case currentStream st of
        Some c \<Rightarrow> st\<lparr>observers := observers st @ [c]\<rparr>
      | None \<Rightarrow> st)"

text \<open>
  The clean-up returned by the track effect removes the handlers from the
  \<^verbatim>\<open>currentStream\<close> of the render that registered them.
\<close>

definition cleanupTrack :: "state \<Rightarrow> state" where
  "cleanupTrack st =
     (case deps st of
        Some (s, r, l) \<Rightarrow>
          (case (case s of Some x \<Rightarrow> Some x | None \<Rightarrow> l) of
             Some c \<Rightarrow> st\<lparr>observers := remove1 c (observers st)\<rparr>
           | None \<Rightarrow> st)
      | None \<Rightarrow> st)"

definition audioEffect :: "state \<Rightarrow> state" where
  "audioEffect st =
     (if \<not> isRemote st \<and> (stream st \<noteq> None \<or> localStream st \<noteq> None) then
        (case currentStream st of
           Some c \<Rightarrow> if 0 < audioTracks st c then setupAudioAnalyser c st else st
         | None \<Rightarrow> st)
      else st)"

text \<open>
  The clean-up of lines 225 to 229 stops the tracks of the \<^verbatim>\<open>localStream\<close> of the render
  that created it.
\<close>

definition cleanupLocal :: "state \<Rightarrow> state" where
  "cleanupLocal st =
     (case deps st of
        Some (s, r, Some l) \<Rightarrow> st\<lparr>stopped := insert l (stopped st)\<rparr>
      | _ \<Rightarrow> st)"

subsection \<open>Render, commit, effects\<close>

text \<open>Dependency arrays: \<^verbatim>\<open>[stream, isRemote]\<close> of the stream effect, \<^verbatim>\<open>[localStream]\<close> of the
  clean-up effect; the track and audio effects depend on all three.\<close>

definition streamChanged :: "state \<Rightarrow> bool" where
  "streamChanged st =
     (case deps st of None \<Rightarrow> True | Some (s, r, l) \<Rightarrow> s \<noteq> stream st \<or> r \<noteq> isRemote st)"

definition localChanged :: "state \<Rightarrow> bool" where
  "localChanged st =
     (case deps st of None \<Rightarrow> True | Some (s, r, l) \<Rightarrow> l \<noteq> localStream st)"

definition runCleanups :: "bool \<Rightarrow> bool \<Rightarrow> state \<Rightarrow> state" where
  "runCleanups c1 c4 st =
     (let st1 = (if c1 \<or> c4 then cleanupTrack st else st)
      in if c4 then cleanupLocal st1 else st1)"

definition runEffects :: "bool \<Rightarrow> bool \<Rightarrow> state \<Rightarrow> state" where
  "runEffects c1 c4 st =
     (let st1 = (if c1 then streamEffect st else st)
      in if c1 \<or> c4 then audioEffect (trackEffect st1) else st1)"

definition recordDeps :: "state \<Rightarrow> state" where
  "recordDeps st = st\<lparr>deps := Some (stream st, isRemote st, localStream st)\<rparr>"

text \<open>
  One render that React commits: the ref follows the JSX, the clean-ups of the effects
  whose dependencies changed run, then those effects in source order; the state they set
  is rendered again, which changes no dependency.
\<close>

definition commit :: "state \<Rightarrow> state" where
  "commit st =
     (if \<not> mounted st then st
      else
        (let st1 = syncVideo st;
             c1 = streamChanged st1;
             c4 = localChanged st1
         in syncVideo (recordDeps (runEffects c1 c4 (runCleanups c1 c4 st1)))))"

text \<open>The first render of a new instance, in a platform with the given tracks.\<close>

definition fresh :: "(stream_ref \<Rightarrow> nat) \<Rightarrow> bool \<Rightarrow> stream_ref option \<Rightarrow> bool \<Rightarrow> state" where
  "fresh tracks ok s r =
     \<lparr>stream = s, isRemote = r, isLoading = True, isSpeaking = False, localStream = None,
      error = None, mounted = True, videoRef = None, deps = None, observers = [],
      trackLogs = 0, pendingGum = 0, gumCount = 0, pendingPlay = [], pendingLocalPlay = [],
      clickListeners = [], touchListeners = [], nextListener = 0, sessions = [],
      timers = Map.empty, nextTimer = 1, now = 0, audioTracks = tracks, analyserOk = ok,
      stopped = {}\<rparr>"

text \<open>A platform in which no stream has an audio track yet.\<close>

definition noTracks :: "stream_ref \<Rightarrow> nat" where
  "noTracks s = 0"

definition mount :: "(stream_ref \<Rightarrow> nat) \<Rightarrow> bool \<Rightarrow> stream_ref option \<Rightarrow> bool \<Rightarrow> state" where
  "mount tracks ok s r = commit (fresh tracks ok s r)"

text \<open>Unmounting runs every clean-up and detaches the ref; nothing else.\<close>

definition unmount :: "state \<Rightarrow> state" where
  "unmount st =
     (if mounted st then (cleanupLocal (cleanupTrack st))\<lparr>mounted := False, videoRef := None\<rparr>
      else st)"

subsection \<open>Events\<close>

datatype event =
    SetProps "stream_ref option" bool
  | PlaySettled nat bool
  | GumResolved
  | GumRejected string
  | LocalPlaySettled nat bool
  | Retry
  | Click
  | Touch
  | Tick nat "8 word list"
  | Elapse nat
  | TimerFire nat
  | TrackChange stream_ref nat
  | AnalyserAvail bool
  | Unmount

definition dropAt :: "nat \<Rightarrow> 'a list \<Rightarrow> 'a list" where
  "dropAt i xs = take i xs @ drop (Suc i) xs"

text \<open>A \<^verbatim>\<open>click\<close> reaching \<^verbatim>\<open>document\<close>: every listener registered at that moment runs.\<close>

definition dispatchClick :: "state \<Rightarrow> state" where
  "dispatchClick st = fold enableAudio (clickListeners st) st"

definition dispatchTouch :: "state \<Rightarrow> state" where
  "dispatchTouch st = fold enableAudio (touchListeners st) st"

text \<open>The callback of line 178, run by the page when the timer is due.\<close>

definition timerFire :: "nat \<Rightarrow> state \<Rightarrow> state" where
  "timerFire t st =
     (case timers st t of
        Some d \<Rightarrow> if d \<le> now st then setIsSpeaking False (st\<lparr>timers := (timers st)(t := None)\<rparr>)
                  else st
      | None \<Rightarrow> st)"

definition trackChange :: "stream_ref \<Rightarrow> nat \<Rightarrow> state \<Rightarrow> state" where
  "trackChange s n st =
     (let st1 = st\<lparr>audioTracks := (audioTracks st)(s := n)\<rparr>
      in st1\<lparr>trackLogs := trackLogs st1 + count_list (observers st1) s\<rparr>)"

text \<open>
  An event that cannot happen in the given state (a promise that is not pending, a
  button that is not shown, a timer that is not due, new props for an unmounted
  instance) leaves the state as it is. The Retry button is part of the document, so its
  click also reaches the \<^verbatim>\<open>document\<close> listeners.
\<close>

fun step :: "event \<Rightarrow> state \<Rightarrow> state" where
  "step (SetProps s r) st =
     (if mounted st then commit (st\<lparr>stream := s, isRemote := r\<rparr>) else st)"
| "step (PlaySettled i ok) st =
     (if i < length (pendingPlay st)
      then commit (playSettled (pendingPlay st ! i) ok (st\<lparr>pendingPlay := dropAt i (pendingPlay st)\<rparr>))
      else st)"
| "step GumResolved st =
     (if 0 < pendingGum st then commit (gumResolved st) else st)"
| "step (GumRejected message) st =
     (if 0 < pendingGum st then commit (gumRejected message st) else st)"
| "step (LocalPlaySettled i ok) st =
     (if i < length (pendingLocalPlay st)
      then commit (localPlaySettled (pendingLocalPlay st ! i)
                     (st\<lparr>pendingLocalPlay := dropAt i (pendingLocalPlay st)\<rparr>))
      else st)"
| "step Retry st =
     (if mounted st \<and> presentationState st = Error (the (error st))
      then dispatchClick (commit (getLocalCamera st)) else st)"
| "step Click st = dispatchClick st"
| "step Touch st = dispatchTouch st"
| "step (Tick i dataArray) st =
     (if i < length (sessions st) \<and> length dataArray = frequencyBinCount
      then detectVolume i dataArray st else st)"
| "step (Elapse n) st = st\<lparr>now := now st + n\<rparr>"
| "step (TimerFire t) st = timerFire t st"
| "step (TrackChange s n) st = trackChange s n st"
| "step (AnalyserAvail b) st = st\<lparr>analyserOk := b\<rparr>"
| "step Unmount st = unmount st"

definition run :: "event list \<Rightarrow> state \<Rightarrow> state" where
  "run evs st = fold step evs st"

section \<open>Auxiliary notions for the proofs\<close>

text \<open>What the closures of the last committed render captured.\<close>

abbreviation depLocal :: "state \<Rightarrow> stream_ref option" where
  "depLocal st \<equiv> (case deps st of Some (s, r, l) \<Rightarrow> l | None \<Rightarrow> None)"

abbreviation depCurrent :: "state \<Rightarrow> stream_ref option" where
  "depCurrent st \<equiv>
     (case deps st of Some (s, r, l) \<Rightarrow> (case s of Some x \<Rightarrow> Some x | None \<Rightarrow> l) | None \<Rightarrow> None)"

text \<open>Every stream the component holds or has stopped is one it acquired itself.\<close>

definition ownOnly :: "state \<Rightarrow> bool" where
  "ownOnly st \<longleftrightarrow>
     stopped st \<subseteq> range Own \<and> set_option (localStream st) \<subseteq> range Own
     \<and> set_option (depLocal st) \<subseteq> range Own"

text \<open>The second state has the sessions of the first, and then new ones that never heard
  anything.\<close>

definition appended :: "state \<Rightarrow> state \<Rightarrow> bool" where
  "appended st st' \<longleftrightarrow>
     (\<exists>new. sessions st' = sessions st @ new
        \<and> (\<forall>x \<in> set new. silenceTimeout x = None \<and> lastLoud x = None))"

text \<open>The streams that carry the track handlers when the track effect ran for \<open>c\<close>.\<close>

definition handlersOn :: "stream_ref option \<Rightarrow> stream_ref list" where
  "handlersOn c = (case c of Some x \<Rightarrow> [x] | None \<Rightarrow> [])"

text \<open>
  Between two events the last render is committed: the dependencies recorded are the
  current values, the track handlers sit on the current stream, the video element exists
  only in the third branch of the JSX, and every \<^verbatim>\<open>enableAudio\<close> closure is registered for
  both events.
\<close>

definition settled :: "state \<Rightarrow> bool" where
  "settled st \<longleftrightarrow>
     (mounted st \<longrightarrow> deps st = Some (stream st, isRemote st, localStream st))
     \<and> observers st = (if mounted st then handlersOn (depCurrent st) else [])
     \<and> (videoRef st \<noteq> None \<longrightarrow>
          mounted st \<and> \<not> isLoading st \<and> \<not> hasError st \<and> currentStream st \<noteq> None)
     \<and> clickListeners st = touchListeners st"

text \<open>An instance that has been local all along: no remote playback start is pending and no
  \<^verbatim>\<open>enableAudio\<close> closure is registered.\<close>

definition localOnly :: "state \<Rightarrow> bool" where
  "localOnly st \<longleftrightarrow>
     \<not> isRemote st \<and> True \<notin> set (pendingPlay st)
     \<and> clickListeners st = [] \<and> touchListeners st = []"

text \<open>The parent never passes \<^verbatim>\<open>isRemote = true\<close>.\<close>

fun keepsLocal :: "event \<Rightarrow> bool" where
  "keepsLocal (SetProps s r) = (\<not> r)"
| "keepsLocal e = True"

text \<open>A rejected acquisition, or a click on the Retry button.\<close>

fun failureOrRetry :: "event \<Rightarrow> bool" where
  "failureOrRetry (GumRejected m) = True"
| "failureOrRetry Retry = True"
| "failureOrRetry e = False"



text \<open>
  The timer table and the sampling loops: every pending timer is the one stored in the
  \<^verbatim>\<open>silenceTimeout\<close> of some loop and is due 800 ms after that loop's last reading
  above the threshold; timer ids are positive and below the next id.
\<close>

definition timersOk :: "state \<Rightarrow> bool" where
  "timersOk st \<longleftrightarrow>
     0 < nextTimer st
     \<and> (\<forall>t d. timers st t = Some d \<longrightarrow>
           0 < t \<and> t < nextTimer st
           \<and> (\<exists>i u. i < length (sessions st) \<and> silenceTimeout (sessions st ! i) = Some t
                 \<and> lastLoud (sessions st ! i) = Some u \<and> d = u + 800 \<and> u \<le> now st))
     \<and> (\<forall>i t. i < length (sessions st) \<and> silenceTimeout (sessions st ! i) = Some t \<longrightarrow>
           0 < t \<and> t < nextTimer st)"

text \<open>No acquired stream is lost: each one is the stored \<^verbatim>\<open>localStream\<close> or has been stopped.\<close>

definition noLeak :: "state \<Rightarrow> bool" where
  "noLeak st \<longleftrightarrow> (\<forall>k < gumCount st. Own k \<in> stopped st \<or> localStream st = Some (Own k))"

text \<open>The stored \<^verbatim>\<open>localStream\<close> is one of the streams acquired so far.\<close>

definition storedAcquired :: "state \<Rightarrow> bool" where
  "storedAcquired st \<longleftrightarrow> (\<forall>k. localStream st = Some (Own k) \<longrightarrow> k < gumCount st)"

text \<open>The session that the audio effect starts in a state, if it starts one.\<close>

definition audioStart :: "state \<Rightarrow> session list" where
  "audioStart st =
     (case currentStream st of
        Some c \<Rightarrow>
          if \<not> isRemote st \<and> 0 < audioTracks st c \<and> analyserOk st
          then [\<lparr>source = c, silenceTimeout = None, lastLoud = None\<rparr>] else []
      | None \<Rightarrow> [])"

text \<open>The parent does not change the props.\<close>

fun keepsProps :: "event \<Rightarrow> bool" where
  "keepsProps (SetProps s r) = False"
| "keepsProps e = True"

text \<open>A stream is supplied, the component shows the progress indicator, and nothing is in
  flight that could end it.\<close>

definition waiting :: "state \<Rightarrow> bool" where
  "waiting st \<longleftrightarrow>
     isLoading st \<and> stream st \<noteq> None \<and> pendingGum st = 0 \<and> pendingPlay st = []
     \<and> pendingLocalPlay st = []"


section \<open>Basic facts\<close>

lemma sumValues_sum: "sumValues v bs = v + sum_list (map unat bs)"
  by (induction bs arbitrary: v) simp_all

lemma average_replicate: "0 < n \<Longrightarrow> average (replicate n b) = of_nat (unat b)"
  by (simp add: average_def sumValues_sum map_replicate_const sum_list_replicate)

lemma average_silence: "\<not> 20 < average (replicate frequencyBinCount 0)"
  by (simp add: average_replicate frequencyBinCount_def fftSize_def)

lemma detectVolume_quiet: "\<not> 20 < average d \<Longrightarrow> detectVolume i d st = st"
  by (simp add: detectVolume_def)

text \<open>The first, synchronous \<^verbatim>\<open>detectVolume()\<close> of line 186 reads silence and changes nothing.\<close>

lemma setupAudioAnalyser_eq:
  "setupAudioAnalyser s st =
     (if analyserOk st \<and> 0 < audioTracks st s
      then st\<lparr>sessions := sessions st @ [\<lparr>source = s, silenceTimeout = None, lastLoud = None\<rparr>]\<rparr>
      else st)"
  by (simp add: setupAudioAnalyser_def detectVolume_quiet average_silence)

subsection \<open>What each function leaves alone\<close>


lemma setIsLoading_frame [simp]:
  "stream (setIsLoading b st) = stream st"
  "isRemote (setIsLoading b st) = isRemote st"
  "isSpeaking (setIsLoading b st) = isSpeaking st"
  "localStream (setIsLoading b st) = localStream st"
  "error (setIsLoading b st) = error st"
  "mounted (setIsLoading b st) = mounted st"
  "videoRef (setIsLoading b st) = videoRef st"
  "deps (setIsLoading b st) = deps st"
  "observers (setIsLoading b st) = observers st"
  "trackLogs (setIsLoading b st) = trackLogs st"
  "pendingGum (setIsLoading b st) = pendingGum st"
  "gumCount (setIsLoading b st) = gumCount st"
  "pendingPlay (setIsLoading b st) = pendingPlay st"
  "pendingLocalPlay (setIsLoading b st) = pendingLocalPlay st"
  "clickListeners (setIsLoading b st) = clickListeners st"
  "touchListeners (setIsLoading b st) = touchListeners st"
  "nextListener (setIsLoading b st) = nextListener st"
  "sessions (setIsLoading b st) = sessions st"
  "timers (setIsLoading b st) = timers st"
  "nextTimer (setIsLoading b st) = nextTimer st"
  "now (setIsLoading b st) = now st"
  "audioTracks (setIsLoading b st) = audioTracks st"
  "analyserOk (setIsLoading b st) = analyserOk st"
  "stopped (setIsLoading b st) = stopped st"
  by (simp_all add: setIsLoading_def)

lemma setIsLoading_derived [simp]:
  "currentStream (setIsLoading b st) = currentStream st"
  "hasError (setIsLoading b st) = hasError st"
  by (simp_all add: currentStream_def hasError_def split: option.splits)

lemma setIsSpeaking_frame [simp]:
  "stream (setIsSpeaking b st) = stream st"
  "isRemote (setIsSpeaking b st) = isRemote st"
  "isLoading (setIsSpeaking b st) = isLoading st"
  "localStream (setIsSpeaking b st) = localStream st"
  "error (setIsSpeaking b st) = error st"
  "mounted (setIsSpeaking b st) = mounted st"
  "videoRef (setIsSpeaking b st) = videoRef st"
  "deps (setIsSpeaking b st) = deps st"
  "observers (setIsSpeaking b st) = observers st"
  "trackLogs (setIsSpeaking b st) = trackLogs st"
  "pendingGum (setIsSpeaking b st) = pendingGum st"
  "gumCount (setIsSpeaking b st) = gumCount st"
  "pendingPlay (setIsSpeaking b st) = pendingPlay st"
  "pendingLocalPlay (setIsSpeaking b st) = pendingLocalPlay st"
  "clickListeners (setIsSpeaking b st) = clickListeners st"
  "touchListeners (setIsSpeaking b st) = touchListeners st"
  "nextListener (setIsSpeaking b st) = nextListener st"
  "sessions (setIsSpeaking b st) = sessions st"
  "timers (setIsSpeaking b st) = timers st"
  "nextTimer (setIsSpeaking b st) = nextTimer st"
  "now (setIsSpeaking b st) = now st"
  "audioTracks (setIsSpeaking b st) = audioTracks st"
  "analyserOk (setIsSpeaking b st) = analyserOk st"
  "stopped (setIsSpeaking b st) = stopped st"
  by (simp_all add: setIsSpeaking_def)

lemma setIsSpeaking_derived [simp]:
  "currentStream (setIsSpeaking b st) = currentStream st"
  "hasError (setIsSpeaking b st) = hasError st"
  by (simp_all add: currentStream_def hasError_def split: option.splits)

lemma setLocalStream_frame [simp]:
  "stream (setLocalStream s st) = stream st"
  "isRemote (setLocalStream s st) = isRemote st"
  "isLoading (setLocalStream s st) = isLoading st"
  "isSpeaking (setLocalStream s st) = isSpeaking st"
  "error (setLocalStream s st) = error st"
  "mounted (setLocalStream s st) = mounted st"
  "videoRef (setLocalStream s st) = videoRef st"
  "deps (setLocalStream s st) = deps st"
  "observers (setLocalStream s st) = observers st"
  "trackLogs (setLocalStream s st) = trackLogs st"
  "pendingGum (setLocalStream s st) = pendingGum st"
  "gumCount (setLocalStream s st) = gumCount st"
  "pendingPlay (setLocalStream s st) = pendingPlay st"
  "pendingLocalPlay (setLocalStream s st) = pendingLocalPlay st"
  "clickListeners (setLocalStream s st) = clickListeners st"
  "touchListeners (setLocalStream s st) = touchListeners st"
  "nextListener (setLocalStream s st) = nextListener st"
  "sessions (setLocalStream s st) = sessions st"
  "timers (setLocalStream s st) = timers st"
  "nextTimer (setLocalStream s st) = nextTimer st"
  "now (setLocalStream s st) = now st"
  "audioTracks (setLocalStream s st) = audioTracks st"
  "analyserOk (setLocalStream s st) = analyserOk st"
  "stopped (setLocalStream s st) = stopped st"
  by (simp_all add: setLocalStream_def)

lemma setLocalStream_derived [simp]:
  "hasError (setLocalStream s st) = hasError st"
  by (simp_all add: currentStream_def hasError_def split: option.splits)

lemma setError_frame [simp]:
  "stream (setError m st) = stream st"
  "isRemote (setError m st) = isRemote st"
  "isLoading (setError m st) = isLoading st"
  "isSpeaking (setError m st) = isSpeaking st"
  "localStream (setError m st) = localStream st"
  "mounted (setError m st) = mounted st"
  "videoRef (setError m st) = videoRef st"
  "deps (setError m st) = deps st"
  "observers (setError m st) = observers st"
  "trackLogs (setError m st) = trackLogs st"
  "pendingGum (setError m st) = pendingGum st"
  "gumCount (setError m st) = gumCount st"
  "pendingPlay (setError m st) = pendingPlay st"
  "pendingLocalPlay (setError m st) = pendingLocalPlay st"
  "clickListeners (setError m st) = clickListeners st"
  "touchListeners (setError m st) = touchListeners st"
  "nextListener (setError m st) = nextListener st"
  "sessions (setError m st) = sessions st"
  "timers (setError m st) = timers st"
  "nextTimer (setError m st) = nextTimer st"
  "now (setError m st) = now st"
  "audioTracks (setError m st) = audioTracks st"
  "analyserOk (setError m st) = analyserOk st"
  "stopped (setError m st) = stopped st"
  by (simp_all add: setError_def)

lemma setError_derived [simp]:
  "currentStream (setError m st) = currentStream st"
  by (simp_all add: currentStream_def hasError_def split: option.splits)

lemma syncVideo_frame [simp]:
  "stream (syncVideo st) = stream st"
  "isRemote (syncVideo st) = isRemote st"
  "isLoading (syncVideo st) = isLoading st"
  "isSpeaking (syncVideo st) = isSpeaking st"
  "localStream (syncVideo st) = localStream st"
  "error (syncVideo st) = error st"
  "mounted (syncVideo st) = mounted st"
  "deps (syncVideo st) = deps st"
  "observers (syncVideo st) = observers st"
  "trackLogs (syncVideo st) = trackLogs st"
  "pendingGum (syncVideo st) = pendingGum st"
  "gumCount (syncVideo st) = gumCount st"
  "pendingPlay (syncVideo st) = pendingPlay st"
  "pendingLocalPlay (syncVideo st) = pendingLocalPlay st"
  "clickListeners (syncVideo st) = clickListeners st"
  "touchListeners (syncVideo st) = touchListeners st"
  "nextListener (syncVideo st) = nextListener st"
  "sessions (syncVideo st) = sessions st"
  "timers (syncVideo st) = timers st"
  "nextTimer (syncVideo st) = nextTimer st"
  "now (syncVideo st) = now st"
  "audioTracks (syncVideo st) = audioTracks st"
  "analyserOk (syncVideo st) = analyserOk st"
  "stopped (syncVideo st) = stopped st"
  by (simp_all add: syncVideo_def split: option.splits)

lemma syncVideo_derived [simp]:
  "currentStream (syncVideo st) = currentStream st"
  "hasError (syncVideo st) = hasError st"
  by (simp_all add: currentStream_def hasError_def split: option.splits)

lemma onVideo_frame [simp]:
  "stream (onVideo f st) = stream st"
  "isRemote (onVideo f st) = isRemote st"
  "isLoading (onVideo f st) = isLoading st"
  "isSpeaking (onVideo f st) = isSpeaking st"
  "localStream (onVideo f st) = localStream st"
  "error (onVideo f st) = error st"
  "mounted (onVideo f st) = mounted st"
  "deps (onVideo f st) = deps st"
  "observers (onVideo f st) = observers st"
  "trackLogs (onVideo f st) = trackLogs st"
  "pendingGum (onVideo f st) = pendingGum st"
  "gumCount (onVideo f st) = gumCount st"
  "pendingPlay (onVideo f st) = pendingPlay st"
  "pendingLocalPlay (onVideo f st) = pendingLocalPlay st"
  "clickListeners (onVideo f st) = clickListeners st"
  "touchListeners (onVideo f st) = touchListeners st"
  "nextListener (onVideo f st) = nextListener st"
  "sessions (onVideo f st) = sessions st"
  "timers (onVideo f st) = timers st"
  "nextTimer (onVideo f st) = nextTimer st"
  "now (onVideo f st) = now st"
  "audioTracks (onVideo f st) = audioTracks st"
  "analyserOk (onVideo f st) = analyserOk st"
  "stopped (onVideo f st) = stopped st"
  by (simp_all add: onVideo_def)

lemma onVideo_derived [simp]:
  "currentStream (onVideo f st) = currentStream st"
  "hasError (onVideo f st) = hasError st"
  by (simp_all add: currentStream_def hasError_def split: option.splits)

lemma clearTimeout_frame [simp]:
  "stream (clearTimeout t st) = stream st"
  "isRemote (clearTimeout t st) = isRemote st"
  "isLoading (clearTimeout t st) = isLoading st"
  "isSpeaking (clearTimeout t st) = isSpeaking st"
  "localStream (clearTimeout t st) = localStream st"
  "error (clearTimeout t st) = error st"
  "mounted (clearTimeout t st) = mounted st"
  "videoRef (clearTimeout t st) = videoRef st"
  "deps (clearTimeout t st) = deps st"
  "observers (clearTimeout t st) = observers st"
  "trackLogs (clearTimeout t st) = trackLogs st"
  "pendingGum (clearTimeout t st) = pendingGum st"
  "gumCount (clearTimeout t st) = gumCount st"
  "pendingPlay (clearTimeout t st) = pendingPlay st"
  "pendingLocalPlay (clearTimeout t st) = pendingLocalPlay st"
  "clickListeners (clearTimeout t st) = clickListeners st"
  "touchListeners (clearTimeout t st) = touchListeners st"
  "nextListener (clearTimeout t st) = nextListener st"
  "sessions (clearTimeout t st) = sessions st"
  "nextTimer (clearTimeout t st) = nextTimer st"
  "now (clearTimeout t st) = now st"
  "audioTracks (clearTimeout t st) = audioTracks st"
  "analyserOk (clearTimeout t st) = analyserOk st"
  "stopped (clearTimeout t st) = stopped st"
  by (simp_all add: clearTimeout_def)

lemma clearTimeout_derived [simp]:
  "currentStream (clearTimeout t st) = currentStream st"
  "hasError (clearTimeout t st) = hasError st"
  by (simp_all add: currentStream_def hasError_def split: option.splits)

lemma setTimeout_frame [simp]:
  "stream (setTimeout d st) = stream st"
  "isRemote (setTimeout d st) = isRemote st"
  "isLoading (setTimeout d st) = isLoading st"
  "isSpeaking (setTimeout d st) = isSpeaking st"
  "localStream (setTimeout d st) = localStream st"
  "error (setTimeout d st) = error st"
  "mounted (setTimeout d st) = mounted st"
  "videoRef (setTimeout d st) = videoRef st"
  "deps (setTimeout d st) = deps st"
  "observers (setTimeout d st) = observers st"
  "trackLogs (setTimeout d st) = trackLogs st"
  "pendingGum (setTimeout d st) = pendingGum st"
  "gumCount (setTimeout d st) = gumCount st"
  "pendingPlay (setTimeout d st) = pendingPlay st"
  "pendingLocalPlay (setTimeout d st) = pendingLocalPlay st"
  "clickListeners (setTimeout d st) = clickListeners st"
  "touchListeners (setTimeout d st) = touchListeners st"
  "nextListener (setTimeout d st) = nextListener st"
  "sessions (setTimeout d st) = sessions st"
  "now (setTimeout d st) = now st"
  "audioTracks (setTimeout d st) = audioTracks st"
  "analyserOk (setTimeout d st) = analyserOk st"
  "stopped (setTimeout d st) = stopped st"
  by (simp_all add: setTimeout_def)

lemma setTimeout_derived [simp]:
  "currentStream (setTimeout d st) = currentStream st"
  "hasError (setTimeout d st) = hasError st"
  by (simp_all add: currentStream_def hasError_def split: option.splits)

lemma setSession_frame [simp]:
  "stream (setSession i s st) = stream st"
  "isRemote (setSession i s st) = isRemote st"
  "isLoading (setSession i s st) = isLoading st"
  "isSpeaking (setSession i s st) = isSpeaking st"
  "localStream (setSession i s st) = localStream st"
  "error (setSession i s st) = error st"
  "mounted (setSession i s st) = mounted st"
  "videoRef (setSession i s st) = videoRef st"
  "deps (setSession i s st) = deps st"
  "observers (setSession i s st) = observers st"
  "trackLogs (setSession i s st) = trackLogs st"
  "pendingGum (setSession i s st) = pendingGum st"
  "gumCount (setSession i s st) = gumCount st"
  "pendingPlay (setSession i s st) = pendingPlay st"
  "pendingLocalPlay (setSession i s st) = pendingLocalPlay st"
  "clickListeners (setSession i s st) = clickListeners st"
  "touchListeners (setSession i s st) = touchListeners st"
  "nextListener (setSession i s st) = nextListener st"
  "timers (setSession i s st) = timers st"
  "nextTimer (setSession i s st) = nextTimer st"
  "now (setSession i s st) = now st"
  "audioTracks (setSession i s st) = audioTracks st"
  "analyserOk (setSession i s st) = analyserOk st"
  "stopped (setSession i s st) = stopped st"
  by (simp_all add: setSession_def)

lemma setSession_derived [simp]:
  "currentStream (setSession i s st) = currentStream st"
  "hasError (setSession i s st) = hasError st"
  by (simp_all add: currentStream_def hasError_def split: option.splits)

lemma detectVolume_frame [simp]:
  "stream (detectVolume i d st) = stream st"
  "isRemote (detectVolume i d st) = isRemote st"
  "isLoading (detectVolume i d st) = isLoading st"
  "localStream (detectVolume i d st) = localStream st"
  "error (detectVolume i d st) = error st"
  "mounted (detectVolume i d st) = mounted st"
  "videoRef (detectVolume i d st) = videoRef st"
  "deps (detectVolume i d st) = deps st"
  "observers (detectVolume i d st) = observers st"
  "trackLogs (detectVolume i d st) = trackLogs st"
  "pendingGum (detectVolume i d st) = pendingGum st"
  "gumCount (detectVolume i d st) = gumCount st"
  "pendingPlay (detectVolume i d st) = pendingPlay st"
  "pendingLocalPlay (detectVolume i d st) = pendingLocalPlay st"
  "clickListeners (detectVolume i d st) = clickListeners st"
  "touchListeners (detectVolume i d st) = touchListeners st"
  "nextListener (detectVolume i d st) = nextListener st"
  "now (detectVolume i d st) = now st"
  "audioTracks (detectVolume i d st) = audioTracks st"
  "analyserOk (detectVolume i d st) = analyserOk st"
  "stopped (detectVolume i d st) = stopped st"
  by (simp_all add: detectVolume_def Let_def split: option.splits)

lemma detectVolume_derived [simp]:
  "currentStream (detectVolume i d st) = currentStream st"
  "hasError (detectVolume i d st) = hasError st"
  by (simp_all add: currentStream_def hasError_def split: option.splits)

lemma setupAudioAnalyser_frame [simp]:
  "stream (setupAudioAnalyser s st) = stream st"
  "isRemote (setupAudioAnalyser s st) = isRemote st"
  "isLoading (setupAudioAnalyser s st) = isLoading st"
  "isSpeaking (setupAudioAnalyser s st) = isSpeaking st"
  "localStream (setupAudioAnalyser s st) = localStream st"
  "error (setupAudioAnalyser s st) = error st"
  "mounted (setupAudioAnalyser s st) = mounted st"
  "videoRef (setupAudioAnalyser s st) = videoRef st"
  "deps (setupAudioAnalyser s st) = deps st"
  "observers (setupAudioAnalyser s st) = observers st"
  "trackLogs (setupAudioAnalyser s st) = trackLogs st"
  "pendingGum (setupAudioAnalyser s st) = pendingGum st"
  "gumCount (setupAudioAnalyser s st) = gumCount st"
  "pendingPlay (setupAudioAnalyser s st) = pendingPlay st"
  "pendingLocalPlay (setupAudioAnalyser s st) = pendingLocalPlay st"
  "clickListeners (setupAudioAnalyser s st) = clickListeners st"
  "touchListeners (setupAudioAnalyser s st) = touchListeners st"
  "nextListener (setupAudioAnalyser s st) = nextListener st"
  "timers (setupAudioAnalyser s st) = timers st"
  "nextTimer (setupAudioAnalyser s st) = nextTimer st"
  "now (setupAudioAnalyser s st) = now st"
  "audioTracks (setupAudioAnalyser s st) = audioTracks st"
  "analyserOk (setupAudioAnalyser s st) = analyserOk st"
  "stopped (setupAudioAnalyser s st) = stopped st"
  by (simp_all add: setupAudioAnalyser_eq)

lemma setupAudioAnalyser_derived [simp]:
  "currentStream (setupAudioAnalyser s st) = currentStream st"
  "hasError (setupAudioAnalyser s st) = hasError st"
  by (simp_all add: currentStream_def hasError_def split: option.splits)

lemma getLocalCamera_frame [simp]:
  "stream (getLocalCamera st) = stream st"
  "isRemote (getLocalCamera st) = isRemote st"
  "isSpeaking (getLocalCamera st) = isSpeaking st"
  "localStream (getLocalCamera st) = localStream st"
  "mounted (getLocalCamera st) = mounted st"
  "videoRef (getLocalCamera st) = videoRef st"
  "deps (getLocalCamera st) = deps st"
  "observers (getLocalCamera st) = observers st"
  "trackLogs (getLocalCamera st) = trackLogs st"
  "gumCount (getLocalCamera st) = gumCount st"
  "pendingPlay (getLocalCamera st) = pendingPlay st"
  "pendingLocalPlay (getLocalCamera st) = pendingLocalPlay st"
  "clickListeners (getLocalCamera st) = clickListeners st"
  "touchListeners (getLocalCamera st) = touchListeners st"
  "nextListener (getLocalCamera st) = nextListener st"
  "sessions (getLocalCamera st) = sessions st"
  "timers (getLocalCamera st) = timers st"
  "nextTimer (getLocalCamera st) = nextTimer st"
  "now (getLocalCamera st) = now st"
  "audioTracks (getLocalCamera st) = audioTracks st"
  "analyserOk (getLocalCamera st) = analyserOk st"
  "stopped (getLocalCamera st) = stopped st"
  by (simp_all add: getLocalCamera_def Let_def)

lemma getLocalCamera_derived [simp]:
  "currentStream (getLocalCamera st) = currentStream st"
  by (simp_all add: currentStream_def hasError_def split: option.splits)

lemma gumResolved_frame [simp]:
  "stream (gumResolved st) = stream st"
  "isRemote (gumResolved st) = isRemote st"
  "isSpeaking (gumResolved st) = isSpeaking st"
  "error (gumResolved st) = error st"
  "mounted (gumResolved st) = mounted st"
  "deps (gumResolved st) = deps st"
  "observers (gumResolved st) = observers st"
  "trackLogs (gumResolved st) = trackLogs st"
  "pendingPlay (gumResolved st) = pendingPlay st"
  "clickListeners (gumResolved st) = clickListeners st"
  "touchListeners (gumResolved st) = touchListeners st"
  "nextListener (gumResolved st) = nextListener st"
  "timers (gumResolved st) = timers st"
  "nextTimer (gumResolved st) = nextTimer st"
  "now (gumResolved st) = now st"
  "analyserOk (gumResolved st) = analyserOk st"
  "stopped (gumResolved st) = stopped st"
  by (simp_all add: gumResolved_def Let_def)

lemma gumResolved_derived [simp]:
  "hasError (gumResolved st) = hasError st"
  by (simp_all add: currentStream_def hasError_def split: option.splits)

lemma localPlaySettled_frame [simp]:
  "stream (localPlaySettled s st) = stream st"
  "isRemote (localPlaySettled s st) = isRemote st"
  "isSpeaking (localPlaySettled s st) = isSpeaking st"
  "localStream (localPlaySettled s st) = localStream st"
  "error (localPlaySettled s st) = error st"
  "mounted (localPlaySettled s st) = mounted st"
  "videoRef (localPlaySettled s st) = videoRef st"
  "deps (localPlaySettled s st) = deps st"
  "observers (localPlaySettled s st) = observers st"
  "trackLogs (localPlaySettled s st) = trackLogs st"
  "pendingGum (localPlaySettled s st) = pendingGum st"
  "gumCount (localPlaySettled s st) = gumCount st"
  "pendingPlay (localPlaySettled s st) = pendingPlay st"
  "pendingLocalPlay (localPlaySettled s st) = pendingLocalPlay st"
  "clickListeners (localPlaySettled s st) = clickListeners st"
  "touchListeners (localPlaySettled s st) = touchListeners st"
  "nextListener (localPlaySettled s st) = nextListener st"
  "timers (localPlaySettled s st) = timers st"
  "nextTimer (localPlaySettled s st) = nextTimer st"
  "now (localPlaySettled s st) = now st"
  "audioTracks (localPlaySettled s st) = audioTracks st"
  "analyserOk (localPlaySettled s st) = analyserOk st"
  "stopped (localPlaySettled s st) = stopped st"
  by (simp_all add: localPlaySettled_def)

lemma localPlaySettled_derived [simp]:
  "currentStream (localPlaySettled s st) = currentStream st"
  "hasError (localPlaySettled s st) = hasError st"
  by (simp_all add: currentStream_def hasError_def split: option.splits)

lemma gumRejected_frame [simp]:
  "stream (gumRejected m st) = stream st"
  "isRemote (gumRejected m st) = isRemote st"
  "isSpeaking (gumRejected m st) = isSpeaking st"
  "localStream (gumRejected m st) = localStream st"
  "mounted (gumRejected m st) = mounted st"
  "videoRef (gumRejected m st) = videoRef st"
  "deps (gumRejected m st) = deps st"
  "observers (gumRejected m st) = observers st"
  "trackLogs (gumRejected m st) = trackLogs st"
  "gumCount (gumRejected m st) = gumCount st"
  "pendingPlay (gumRejected m st) = pendingPlay st"
  "pendingLocalPlay (gumRejected m st) = pendingLocalPlay st"
  "clickListeners (gumRejected m st) = clickListeners st"
  "touchListeners (gumRejected m st) = touchListeners st"
  "nextListener (gumRejected m st) = nextListener st"
  "sessions (gumRejected m st) = sessions st"
  "timers (gumRejected m st) = timers st"
  "nextTimer (gumRejected m st) = nextTimer st"
  "now (gumRejected m st) = now st"
  "audioTracks (gumRejected m st) = audioTracks st"
  "analyserOk (gumRejected m st) = analyserOk st"
  "stopped (gumRejected m st) = stopped st"
  by (simp_all add: gumRejected_def)

lemma gumRejected_derived [simp]:
  "currentStream (gumRejected m st) = currentStream st"
  by (simp_all add: currentStream_def hasError_def split: option.splits)

lemma armEnableAudio_frame [simp]:
  "stream (armEnableAudio st) = stream st"
  "isRemote (armEnableAudio st) = isRemote st"
  "isLoading (armEnableAudio st) = isLoading st"
  "isSpeaking (armEnableAudio st) = isSpeaking st"
  "localStream (armEnableAudio st) = localStream st"
  "error (armEnableAudio st) = error st"
  "mounted (armEnableAudio st) = mounted st"
  "videoRef (armEnableAudio st) = videoRef st"
  "deps (armEnableAudio st) = deps st"
  "observers (armEnableAudio st) = observers st"
  "trackLogs (armEnableAudio st) = trackLogs st"
  "pendingGum (armEnableAudio st) = pendingGum st"
  "gumCount (armEnableAudio st) = gumCount st"
  "pendingPlay (armEnableAudio st) = pendingPlay st"
  "pendingLocalPlay (armEnableAudio st) = pendingLocalPlay st"
  "sessions (armEnableAudio st) = sessions st"
  "timers (armEnableAudio st) = timers st"
  "nextTimer (armEnableAudio st) = nextTimer st"
  "now (armEnableAudio st) = now st"
  "audioTracks (armEnableAudio st) = audioTracks st"
  "analyserOk (armEnableAudio st) = analyserOk st"
  "stopped (armEnableAudio st) = stopped st"
  by (simp_all add: armEnableAudio_def)

lemma armEnableAudio_derived [simp]:
  "currentStream (armEnableAudio st) = currentStream st"
  "hasError (armEnableAudio st) = hasError st"
  by (simp_all add: currentStream_def hasError_def split: option.splits)

lemma enableAudio_frame [simp]:
  "stream (enableAudio l st) = stream st"
  "isRemote (enableAudio l st) = isRemote st"
  "isLoading (enableAudio l st) = isLoading st"
  "isSpeaking (enableAudio l st) = isSpeaking st"
  "localStream (enableAudio l st) = localStream st"
  "error (enableAudio l st) = error st"
  "mounted (enableAudio l st) = mounted st"
  "deps (enableAudio l st) = deps st"
  "observers (enableAudio l st) = observers st"
  "trackLogs (enableAudio l st) = trackLogs st"
  "pendingGum (enableAudio l st) = pendingGum st"
  "gumCount (enableAudio l st) = gumCount st"
  "pendingPlay (enableAudio l st) = pendingPlay st"
  "pendingLocalPlay (enableAudio l st) = pendingLocalPlay st"
  "nextListener (enableAudio l st) = nextListener st"
  "sessions (enableAudio l st) = sessions st"
  "timers (enableAudio l st) = timers st"
  "nextTimer (enableAudio l st) = nextTimer st"
  "now (enableAudio l st) = now st"
  "audioTracks (enableAudio l st) = audioTracks st"
  "analyserOk (enableAudio l st) = analyserOk st"
  "stopped (enableAudio l st) = stopped st"
  by (simp_all add: enableAudio_def Let_def)

lemma enableAudio_derived [simp]:
  "currentStream (enableAudio l st) = currentStream st"
  "hasError (enableAudio l st) = hasError st"
  by (simp_all add: currentStream_def hasError_def split: option.splits)

lemma playSettled_frame [simp]:
  "stream (playSettled r ok st) = stream st"
  "isRemote (playSettled r ok st) = isRemote st"
  "isSpeaking (playSettled r ok st) = isSpeaking st"
  "localStream (playSettled r ok st) = localStream st"
  "error (playSettled r ok st) = error st"
  "mounted (playSettled r ok st) = mounted st"
  "videoRef (playSettled r ok st) = videoRef st"
  "deps (playSettled r ok st) = deps st"
  "observers (playSettled r ok st) = observers st"
  "trackLogs (playSettled r ok st) = trackLogs st"
  "pendingGum (playSettled r ok st) = pendingGum st"
  "gumCount (playSettled r ok st) = gumCount st"
  "pendingPlay (playSettled r ok st) = pendingPlay st"
  "pendingLocalPlay (playSettled r ok st) = pendingLocalPlay st"
  "sessions (playSettled r ok st) = sessions st"
  "timers (playSettled r ok st) = timers st"
  "nextTimer (playSettled r ok st) = nextTimer st"
  "now (playSettled r ok st) = now st"
  "audioTracks (playSettled r ok st) = audioTracks st"
  "analyserOk (playSettled r ok st) = analyserOk st"
  "stopped (playSettled r ok st) = stopped st"
  by (simp_all add: playSettled_def Let_def)

lemma playSettled_derived [simp]:
  "currentStream (playSettled r ok st) = currentStream st"
  "hasError (playSettled r ok st) = hasError st"
  by (simp_all add: currentStream_def hasError_def split: option.splits)

lemma playVideo_frame [simp]:
  "stream (playVideo st) = stream st"
  "isRemote (playVideo st) = isRemote st"
  "isLoading (playVideo st) = isLoading st"
  "isSpeaking (playVideo st) = isSpeaking st"
  "localStream (playVideo st) = localStream st"
  "error (playVideo st) = error st"
  "mounted (playVideo st) = mounted st"
  "deps (playVideo st) = deps st"
  "observers (playVideo st) = observers st"
  "trackLogs (playVideo st) = trackLogs st"
  "pendingGum (playVideo st) = pendingGum st"
  "gumCount (playVideo st) = gumCount st"
  "pendingLocalPlay (playVideo st) = pendingLocalPlay st"
  "clickListeners (playVideo st) = clickListeners st"
  "touchListeners (playVideo st) = touchListeners st"
  "nextListener (playVideo st) = nextListener st"
  "sessions (playVideo st) = sessions st"
  "timers (playVideo st) = timers st"
  "nextTimer (playVideo st) = nextTimer st"
  "now (playVideo st) = now st"
  "audioTracks (playVideo st) = audioTracks st"
  "analyserOk (playVideo st) = analyserOk st"
  "stopped (playVideo st) = stopped st"
  by (simp_all add: playVideo_def)

lemma playVideo_derived [simp]:
  "currentStream (playVideo st) = currentStream st"
  "hasError (playVideo st) = hasError st"
  by (simp_all add: currentStream_def hasError_def split: option.splits)

lemma streamEffect_frame [simp]:
  "stream (streamEffect st) = stream st"
  "isRemote (streamEffect st) = isRemote st"
  "isSpeaking (streamEffect st) = isSpeaking st"
  "localStream (streamEffect st) = localStream st"
  "mounted (streamEffect st) = mounted st"
  "deps (streamEffect st) = deps st"
  "observers (streamEffect st) = observers st"
  "trackLogs (streamEffect st) = trackLogs st"
  "gumCount (streamEffect st) = gumCount st"
  "pendingLocalPlay (streamEffect st) = pendingLocalPlay st"
  "clickListeners (streamEffect st) = clickListeners st"
  "touchListeners (streamEffect st) = touchListeners st"
  "nextListener (streamEffect st) = nextListener st"
  "sessions (streamEffect st) = sessions st"
  "timers (streamEffect st) = timers st"
  "nextTimer (streamEffect st) = nextTimer st"
  "now (streamEffect st) = now st"
  "audioTracks (streamEffect st) = audioTracks st"
  "analyserOk (streamEffect st) = analyserOk st"
  "stopped (streamEffect st) = stopped st"
  by (simp_all add: streamEffect_def)

lemma streamEffect_derived [simp]:
  "currentStream (streamEffect st) = currentStream st"
  by (simp_all add: currentStream_def hasError_def split: option.splits)

lemma trackEffect_frame [simp]:
  "stream (trackEffect st) = stream st"
  "isRemote (trackEffect st) = isRemote st"
  "isLoading (trackEffect st) = isLoading st"
  "isSpeaking (trackEffect st) = isSpeaking st"
  "localStream (trackEffect st) = localStream st"
  "error (trackEffect st) = error st"
  "mounted (trackEffect st) = mounted st"
  "videoRef (trackEffect st) = videoRef st"
  "deps (trackEffect st) = deps st"
  "trackLogs (trackEffect st) = trackLogs st"
  "pendingGum (trackEffect st) = pendingGum st"
  "gumCount (trackEffect st) = gumCount st"
  "pendingPlay (trackEffect st) = pendingPlay st"
  "pendingLocalPlay (trackEffect st) = pendingLocalPlay st"
  "clickListeners (trackEffect st) = clickListeners st"
  "touchListeners (trackEffect st) = touchListeners st"
  "nextListener (trackEffect st) = nextListener st"
  "sessions (trackEffect st) = sessions st"
  "timers (trackEffect st) = timers st"
  "nextTimer (trackEffect st) = nextTimer st"
  "now (trackEffect st) = now st"
  "audioTracks (trackEffect st) = audioTracks st"
  "analyserOk (trackEffect st) = analyserOk st"
  "stopped (trackEffect st) = stopped st"
  by (simp_all add: trackEffect_def split: option.splits)

lemma trackEffect_derived [simp]:
  "currentStream (trackEffect st) = currentStream st"
  "hasError (trackEffect st) = hasError st"
  by (simp_all add: currentStream_def hasError_def split: option.splits)

lemma cleanupTrack_frame [simp]:
  "stream (cleanupTrack st) = stream st"
  "isRemote (cleanupTrack st) = isRemote st"
  "isLoading (cleanupTrack st) = isLoading st"
  "isSpeaking (cleanupTrack st) = isSpeaking st"
  "localStream (cleanupTrack st) = localStream st"
  "error (cleanupTrack st) = error st"
  "mounted (cleanupTrack st) = mounted st"
  "videoRef (cleanupTrack st) = videoRef st"
  "deps (cleanupTrack st) = deps st"
  "trackLogs (cleanupTrack st) = trackLogs st"
  "pendingGum (cleanupTrack st) = pendingGum st"
  "gumCount (cleanupTrack st) = gumCount st"
  "pendingPlay (cleanupTrack st) = pendingPlay st"
  "pendingLocalPlay (cleanupTrack st) = pendingLocalPlay st"
  "clickListeners (cleanupTrack st) = clickListeners st"
  "touchListeners (cleanupTrack st) = touchListeners st"
  "nextListener (cleanupTrack st) = nextListener st"
  "sessions (cleanupTrack st) = sessions st"
  "timers (cleanupTrack st) = timers st"
  "nextTimer (cleanupTrack st) = nextTimer st"
  "now (cleanupTrack st) = now st"
  "audioTracks (cleanupTrack st) = audioTracks st"
  "analyserOk (cleanupTrack st) = analyserOk st"
  "stopped (cleanupTrack st) = stopped st"
  by (simp_all add: cleanupTrack_def split: option.splits prod.splits)

lemma cleanupTrack_derived [simp]:
  "currentStream (cleanupTrack st) = currentStream st"
  "hasError (cleanupTrack st) = hasError st"
  by (simp_all add: currentStream_def hasError_def split: option.splits)

lemma audioEffect_frame [simp]:
  "stream (audioEffect st) = stream st"
  "isRemote (audioEffect st) = isRemote st"
  "isLoading (audioEffect st) = isLoading st"
  "isSpeaking (audioEffect st) = isSpeaking st"
  "localStream (audioEffect st) = localStream st"
  "error (audioEffect st) = error st"
  "mounted (audioEffect st) = mounted st"
  "videoRef (audioEffect st) = videoRef st"
  "deps (audioEffect st) = deps st"
  "observers (audioEffect st) = observers st"
  "trackLogs (audioEffect st) = trackLogs st"
  "pendingGum (audioEffect st) = pendingGum st"
  "gumCount (audioEffect st) = gumCount st"
  "pendingPlay (audioEffect st) = pendingPlay st"
  "pendingLocalPlay (audioEffect st) = pendingLocalPlay st"
  "clickListeners (audioEffect st) = clickListeners st"
  "touchListeners (audioEffect st) = touchListeners st"
  "nextListener (audioEffect st) = nextListener st"
  "timers (audioEffect st) = timers st"
  "nextTimer (audioEffect st) = nextTimer st"
  "now (audioEffect st) = now st"
  "audioTracks (audioEffect st) = audioTracks st"
  "analyserOk (audioEffect st) = analyserOk st"
  "stopped (audioEffect st) = stopped st"
  by (simp_all add: audioEffect_def split: option.splits)

lemma audioEffect_derived [simp]:
  "currentStream (audioEffect st) = currentStream st"
  "hasError (audioEffect st) = hasError st"
  by (simp_all add: currentStream_def hasError_def split: option.splits)

lemma cleanupLocal_frame [simp]:
  "stream (cleanupLocal st) = stream st"
  "isRemote (cleanupLocal st) = isRemote st"
  "isLoading (cleanupLocal st) = isLoading st"
  "isSpeaking (cleanupLocal st) = isSpeaking st"
  "localStream (cleanupLocal st) = localStream st"
  "error (cleanupLocal st) = error st"
  "mounted (cleanupLocal st) = mounted st"
  "videoRef (cleanupLocal st) = videoRef st"
  "deps (cleanupLocal st) = deps st"
  "observers (cleanupLocal st) = observers st"
  "trackLogs (cleanupLocal st) = trackLogs st"
  "pendingGum (cleanupLocal st) = pendingGum st"
  "gumCount (cleanupLocal st) = gumCount st"
  "pendingPlay (cleanupLocal st) = pendingPlay st"
  "pendingLocalPlay (cleanupLocal st) = pendingLocalPlay st"
  "clickListeners (cleanupLocal st) = clickListeners st"
  "touchListeners (cleanupLocal st) = touchListeners st"
  "nextListener (cleanupLocal st) = nextListener st"
  "sessions (cleanupLocal st) = sessions st"
  "timers (cleanupLocal st) = timers st"
  "nextTimer (cleanupLocal st) = nextTimer st"
  "now (cleanupLocal st) = now st"
  "audioTracks (cleanupLocal st) = audioTracks st"
  "analyserOk (cleanupLocal st) = analyserOk st"
  by (simp_all add: cleanupLocal_def split: option.splits prod.splits)

lemma cleanupLocal_derived [simp]:
  "currentStream (cleanupLocal st) = currentStream st"
  "hasError (cleanupLocal st) = hasError st"
  by (simp_all add: currentStream_def hasError_def split: option.splits)

lemma recordDeps_frame [simp]:
  "stream (recordDeps st) = stream st"
  "isRemote (recordDeps st) = isRemote st"
  "isLoading (recordDeps st) = isLoading st"
  "isSpeaking (recordDeps st) = isSpeaking st"
  "localStream (recordDeps st) = localStream st"
  "error (recordDeps st) = error st"
  "mounted (recordDeps st) = mounted st"
  "videoRef (recordDeps st) = videoRef st"
  "observers (recordDeps st) = observers st"
  "trackLogs (recordDeps st) = trackLogs st"
  "pendingGum (recordDeps st) = pendingGum st"
  "gumCount (recordDeps st) = gumCount st"
  "pendingPlay (recordDeps st) = pendingPlay st"
  "pendingLocalPlay (recordDeps st) = pendingLocalPlay st"
  "clickListeners (recordDeps st) = clickListeners st"
  "touchListeners (recordDeps st) = touchListeners st"
  "nextListener (recordDeps st) = nextListener st"
  "sessions (recordDeps st) = sessions st"
  "timers (recordDeps st) = timers st"
  "nextTimer (recordDeps st) = nextTimer st"
  "now (recordDeps st) = now st"
  "audioTracks (recordDeps st) = audioTracks st"
  "analyserOk (recordDeps st) = analyserOk st"
  "stopped (recordDeps st) = stopped st"
  by (simp_all add: recordDeps_def)

lemma recordDeps_derived [simp]:
  "currentStream (recordDeps st) = currentStream st"
  "hasError (recordDeps st) = hasError st"
  by (simp_all add: currentStream_def hasError_def split: option.splits)

lemma runCleanups_frame [simp]:
  "stream (runCleanups c1 c4 st) = stream st"
  "isRemote (runCleanups c1 c4 st) = isRemote st"
  "isLoading (runCleanups c1 c4 st) = isLoading st"
  "isSpeaking (runCleanups c1 c4 st) = isSpeaking st"
  "localStream (runCleanups c1 c4 st) = localStream st"
  "error (runCleanups c1 c4 st) = error st"
  "mounted (runCleanups c1 c4 st) = mounted st"
  "videoRef (runCleanups c1 c4 st) = videoRef st"
  "deps (runCleanups c1 c4 st) = deps st"
  "trackLogs (runCleanups c1 c4 st) = trackLogs st"
  "pendingGum (runCleanups c1 c4 st) = pendingGum st"
  "gumCount (runCleanups c1 c4 st) = gumCount st"
  "pendingPlay (runCleanups c1 c4 st) = pendingPlay st"
  "pendingLocalPlay (runCleanups c1 c4 st) = pendingLocalPlay st"
  "clickListeners (runCleanups c1 c4 st) = clickListeners st"
  "touchListeners (runCleanups c1 c4 st) = touchListeners st"
  "nextListener (runCleanups c1 c4 st) = nextListener st"
  "sessions (runCleanups c1 c4 st) = sessions st"
  "timers (runCleanups c1 c4 st) = timers st"
  "nextTimer (runCleanups c1 c4 st) = nextTimer st"
  "now (runCleanups c1 c4 st) = now st"
  "audioTracks (runCleanups c1 c4 st) = audioTracks st"
  "analyserOk (runCleanups c1 c4 st) = analyserOk st"
  by (simp_all add: runCleanups_def Let_def)

lemma runCleanups_derived [simp]:
  "currentStream (runCleanups c1 c4 st) = currentStream st"
  "hasError (runCleanups c1 c4 st) = hasError st"
  by (simp_all add: currentStream_def hasError_def split: option.splits)

lemma runEffects_frame [simp]:
  "stream (runEffects c1 c4 st) = stream st"
  "isRemote (runEffects c1 c4 st) = isRemote st"
  "isSpeaking (runEffects c1 c4 st) = isSpeaking st"
  "localStream (runEffects c1 c4 st) = localStream st"
  "mounted (runEffects c1 c4 st) = mounted st"
  "deps (runEffects c1 c4 st) = deps st"
  "trackLogs (runEffects c1 c4 st) = trackLogs st"
  "gumCount (runEffects c1 c4 st) = gumCount st"
  "pendingLocalPlay (runEffects c1 c4 st) = pendingLocalPlay st"
  "clickListeners (runEffects c1 c4 st) = clickListeners st"
  "touchListeners (runEffects c1 c4 st) = touchListeners st"
  "nextListener (runEffects c1 c4 st) = nextListener st"
  "timers (runEffects c1 c4 st) = timers st"
  "nextTimer (runEffects c1 c4 st) = nextTimer st"
  "now (runEffects c1 c4 st) = now st"
  "audioTracks (runEffects c1 c4 st) = audioTracks st"
  "analyserOk (runEffects c1 c4 st) = analyserOk st"
  "stopped (runEffects c1 c4 st) = stopped st"
  by (simp_all add: runEffects_def Let_def)

lemma runEffects_derived [simp]:
  "currentStream (runEffects c1 c4 st) = currentStream st"
  by (simp_all add: currentStream_def hasError_def split: option.splits)

lemma commit_frame [simp]:
  "stream (commit st) = stream st"
  "isRemote (commit st) = isRemote st"
  "isSpeaking (commit st) = isSpeaking st"
  "localStream (commit st) = localStream st"
  "mounted (commit st) = mounted st"
  "trackLogs (commit st) = trackLogs st"
  "gumCount (commit st) = gumCount st"
  "pendingLocalPlay (commit st) = pendingLocalPlay st"
  "clickListeners (commit st) = clickListeners st"
  "touchListeners (commit st) = touchListeners st"
  "nextListener (commit st) = nextListener st"
  "timers (commit st) = timers st"
  "nextTimer (commit st) = nextTimer st"
  "now (commit st) = now st"
  "audioTracks (commit st) = audioTracks st"
  "analyserOk (commit st) = analyserOk st"
  by (simp_all add: commit_def Let_def)

lemma commit_derived [simp]:
  "currentStream (commit st) = currentStream st"
  by (simp_all add: currentStream_def hasError_def split: option.splits)

lemma unmount_frame [simp]:
  "stream (unmount st) = stream st"
  "isRemote (unmount st) = isRemote st"
  "isLoading (unmount st) = isLoading st"
  "isSpeaking (unmount st) = isSpeaking st"
  "localStream (unmount st) = localStream st"
  "error (unmount st) = error st"
  "deps (unmount st) = deps st"
  "trackLogs (unmount st) = trackLogs st"
  "pendingGum (unmount st) = pendingGum st"
  "gumCount (unmount st) = gumCount st"
  "pendingPlay (unmount st) = pendingPlay st"
  "pendingLocalPlay (unmount st) = pendingLocalPlay st"
  "clickListeners (unmount st) = clickListeners st"
  "touchListeners (unmount st) = touchListeners st"
  "nextListener (unmount st) = nextListener st"
  "sessions (unmount st) = sessions st"
  "timers (unmount st) = timers st"
  "nextTimer (unmount st) = nextTimer st"
  "now (unmount st) = now st"
  "audioTracks (unmount st) = audioTracks st"
  "analyserOk (unmount st) = analyserOk st"
  by (simp_all add: unmount_def)

lemma unmount_derived [simp]:
  "currentStream (unmount st) = currentStream st"
  "hasError (unmount st) = hasError st"
  by (simp_all add: currentStream_def hasError_def split: option.splits)

lemma timerFire_frame [simp]:
  "stream (timerFire t st) = stream st"
  "isRemote (timerFire t st) = isRemote st"
  "isLoading (timerFire t st) = isLoading st"
  "localStream (timerFire t st) = localStream st"
  "error (timerFire t st) = error st"
  "mounted (timerFire t st) = mounted st"
  "videoRef (timerFire t st) = videoRef st"
  "deps (timerFire t st) = deps st"
  "observers (timerFire t st) = observers st"
  "trackLogs (timerFire t st) = trackLogs st"
  "pendingGum (timerFire t st) = pendingGum st"
  "gumCount (timerFire t st) = gumCount st"
  "pendingPlay (timerFire t st) = pendingPlay st"
  "pendingLocalPlay (timerFire t st) = pendingLocalPlay st"
  "clickListeners (timerFire t st) = clickListeners st"
  "touchListeners (timerFire t st) = touchListeners st"
  "nextListener (timerFire t st) = nextListener st"
  "sessions (timerFire t st) = sessions st"
  "nextTimer (timerFire t st) = nextTimer st"
  "now (timerFire t st) = now st"
  "audioTracks (timerFire t st) = audioTracks st"
  "analyserOk (timerFire t st) = analyserOk st"
  "stopped (timerFire t st) = stopped st"
  by (simp_all add: timerFire_def split: option.splits)

lemma timerFire_derived [simp]:
  "currentStream (timerFire t st) = currentStream st"
  "hasError (timerFire t st) = hasError st"
  by (simp_all add: currentStream_def hasError_def split: option.splits)

lemma trackChange_frame [simp]:
  "stream (trackChange s n st) = stream st"
  "isRemote (trackChange s n st) = isRemote st"
  "isLoading (trackChange s n st) = isLoading st"
  "isSpeaking (trackChange s n st) = isSpeaking st"
  "localStream (trackChange s n st) = localStream st"
  "error (trackChange s n st) = error st"
  "mounted (trackChange s n st) = mounted st"
  "videoRef (trackChange s n st) = videoRef st"
  "deps (trackChange s n st) = deps st"
  "observers (trackChange s n st) = observers st"
  "pendingGum (trackChange s n st) = pendingGum st"
  "gumCount (trackChange s n st) = gumCount st"
  "pendingPlay (trackChange s n st) = pendingPlay st"
  "pendingLocalPlay (trackChange s n st) = pendingLocalPlay st"
  "clickListeners (trackChange s n st) = clickListeners st"
  "touchListeners (trackChange s n st) = touchListeners st"
  "nextListener (trackChange s n st) = nextListener st"
  "sessions (trackChange s n st) = sessions st"
  "timers (trackChange s n st) = timers st"
  "nextTimer (trackChange s n st) = nextTimer st"
  "now (trackChange s n st) = now st"
  "analyserOk (trackChange s n st) = analyserOk st"
  "stopped (trackChange s n st) = stopped st"
  by (simp_all add: trackChange_def Let_def)

lemma trackChange_derived [simp]:
  "currentStream (trackChange s n st) = currentStream st"
  "hasError (trackChange s n st) = hasError st"
  by (simp_all add: currentStream_def hasError_def split: option.splits)

subsection \<open>Runs\<close>

lemma run_Nil [simp]: "run [] st = st"
  by (simp add: run_def)

lemma run_Cons [simp]: "run (e # evs) st = run evs (step e st)"
  by (simp add: run_def)

lemma run_append [simp]: "run (evs @ evs') st = run evs' (run evs st)"
  by (simp add: run_def)

text \<open>An invariant of single steps that holds after mounting holds after every run.\<close>

lemma run_invariant:
  assumes "P st" and "\<And>e st. P st \<Longrightarrow> P (step e st)"
  shows "P (run evs st)"
  using assms(1)
proof (induction evs arbitrary: st)
  case Nil
  then show ?case by simp
next
  case (Cons e evs)
  from Cons.prems have "P (step e st)" by (rule assms(2))
  then show ?case by (simp add: Cons.IH)
qed

subsection \<open>Dependencies and clean-ups\<close>

lemma stopped_cleanupLocal: "stopped (cleanupLocal st) = stopped st \<union> set_option (depLocal st)"
  by (simp add: cleanupLocal_def split: option.splits prod.splits)

lemma observers_cleanupTrack:
  "observers (cleanupTrack st) =
     (case depCurrent st of Some c \<Rightarrow> remove1 c (observers st) | None \<Rightarrow> observers st)"
  by (simp add: cleanupTrack_def split: option.splits prod.splits)

lemma localChanged_syncVideo [simp]: "localChanged (syncVideo st) = localChanged st"
  by (simp add: localChanged_def split: option.splits)

lemma streamChanged_syncVideo [simp]: "streamChanged (syncVideo st) = streamChanged st"
  by (simp add: streamChanged_def split: option.splits)

lemma stopped_commit:
  "stopped (commit st) =
     (if mounted st \<and> localChanged st then stopped st \<union> set_option (depLocal st) else stopped st)"
  by (simp add: commit_def Let_def runCleanups_def stopped_cleanupLocal)

lemma deps_commit:
  "deps (commit st) = (if mounted st then Some (stream st, isRemote st, localStream st) else deps st)"
  by (simp add: commit_def Let_def recordDeps_def)

lemma depLocal_commit: "depLocal (commit st) = (if mounted st then localStream st else depLocal st)"
  by (simp add: deps_commit)

lemma stopped_unmount:
  "stopped (unmount st) = (if mounted st then stopped st \<union> set_option (depLocal st) else stopped st)"
  by (simp add: unmount_def stopped_cleanupLocal)

lemma fold_enableAudio_frame [simp]:
  "stream (fold enableAudio ls st) = stream st"
  "isRemote (fold enableAudio ls st) = isRemote st"
  "isLoading (fold enableAudio ls st) = isLoading st"
  "isSpeaking (fold enableAudio ls st) = isSpeaking st"
  "localStream (fold enableAudio ls st) = localStream st"
  "error (fold enableAudio ls st) = error st"
  "mounted (fold enableAudio ls st) = mounted st"
  "deps (fold enableAudio ls st) = deps st"
  "observers (fold enableAudio ls st) = observers st"
  "pendingGum (fold enableAudio ls st) = pendingGum st"
  "gumCount (fold enableAudio ls st) = gumCount st"
  "pendingPlay (fold enableAudio ls st) = pendingPlay st"
  "pendingLocalPlay (fold enableAudio ls st) = pendingLocalPlay st"
  "nextListener (fold enableAudio ls st) = nextListener st"
  "sessions (fold enableAudio ls st) = sessions st"
  "timers (fold enableAudio ls st) = timers st"
  "nextTimer (fold enableAudio ls st) = nextTimer st"
  "now (fold enableAudio ls st) = now st"
  "audioTracks (fold enableAudio ls st) = audioTracks st"
  "analyserOk (fold enableAudio ls st) = analyserOk st"
  "stopped (fold enableAudio ls st) = stopped st"
  by (induction ls arbitrary: st; simp)+

lemmas dispatch_defs = dispatchClick_def dispatchTouch_def

subsection \<open>Only streams acquired by the component are stopped\<close>

lemma ownOnly_commit: "ownOnly st \<Longrightarrow> ownOnly (commit st)"
  by (auto simp: ownOnly_def stopped_commit depLocal_commit)

lemma localStream_gumResolved:
  "localStream (gumResolved st) = (if mounted st then Some (Own (gumCount st)) else localStream st)"
  by (simp add: gumResolved_def Let_def setLocalStream_def)

lemma ownOnly_step: "ownOnly st \<Longrightarrow> ownOnly (step e st)"
proof (cases e)
  case GumResolved
  assume "ownOnly st"
  then have "ownOnly (gumResolved st)"
    by (auto simp: ownOnly_def localStream_gumResolved)
  then show ?thesis using \<open>ownOnly st\<close> GumResolved by (simp add: ownOnly_commit)
next
  case Unmount
  assume "ownOnly st"
  then show ?thesis using Unmount
    by (auto simp: ownOnly_def stopped_unmount)
qed (auto simp: ownOnly_def stopped_commit depLocal_commit dispatch_defs)

lemma ownOnly_mount: "ownOnly (mount tracks ok s r)"
  by (simp add: mount_def ownOnly_def stopped_commit depLocal_commit)
     (simp add: fresh_def)

text \<open>
  C5. On every execution path, whatever the parent supplies as \<^verbatim>\<open>stream\<close>: no track of
  an externally supplied stream is ever stopped. The streams whose tracks the component
  stops are streams it acquired itself with \<^verbatim>\<open>getUserMedia\<close>.
\<close>

theorem external_stream_never_stopped:
  "Ext k \<notin> stopped (run evs (mount tracks ok s r))
   \<and> stopped (run evs (mount tracks ok s r)) \<subseteq> range Own"
proof -
  have "ownOnly (run evs (mount tracks ok s r))"
    by (rule run_invariant) (simp_all add: ownOnly_mount ownOnly_step)
  then show ?thesis by (auto simp: ownOnly_def)
qed


subsection \<open>Unfolding the model on concrete runs\<close>

lemmas model_defs = mount_def fresh_def noTracks_def commit_def syncVideo_def streamChanged_def localChanged_def
  runCleanups_def runEffects_def recordDeps_def cleanupTrack_def cleanupLocal_def streamEffect_def
  trackEffect_def audioEffect_def setupAudioAnalyser_eq getLocalCamera_def gumResolved_def
  gumRejected_def localPlaySettled_def playSettled_def playVideo_def armEnableAudio_def
  enableAudio_def onVideo_def attachAndPlay_def setIsLoading_def setIsSpeaking_def
  setLocalStream_def setError_def currentStream_def hasError_def presentationState_def
  newVideo_def unmount_def dispatchClick_def dispatchTouch_def timerFire_def trackChange_def
  dropAt_def detectVolume_def clearTimeout_def setTimeout_def setSession_def Let_def


subsection \<open>Analysis sessions only accumulate\<close>

lemma appended_refl: "appended st st"
  by (simp add: appended_def)

lemma appended_trans: "appended st st' \<Longrightarrow> appended st' st'' \<Longrightarrow> appended st st''"
  by (fastforce simp: appended_def)

lemma appended_same: "sessions st' = sessions st \<Longrightarrow> appended st st'"
  by (simp add: appended_def)

lemma appended_setup: "appended st (setupAudioAnalyser s st)"
  by (simp add: appended_def setupAudioAnalyser_eq)

lemma appended_audioEffect: "appended st (audioEffect st)"
  by (simp add: audioEffect_def appended_setup appended_refl split: option.splits)

lemma appended_audioEffect_on: "sessions x = sessions st \<Longrightarrow> appended st (audioEffect x)"
  using appended_audioEffect [of x] by (simp add: appended_def)

lemma appended_runEffects: "appended st (runEffects c1 c4 st)"
  by (simp add: runEffects_def Let_def appended_audioEffect_on appended_same)

lemma appended_commit: "appended st (commit st)"
proof (cases "mounted st")
  case True
  have "appended (runCleanups (streamChanged st) (localChanged st) (syncVideo st))
          (runEffects (streamChanged st) (localChanged st)
             (runCleanups (streamChanged st) (localChanged st) (syncVideo st)))"
    by (rule appended_runEffects)
  with True show ?thesis
    by (simp add: commit_def Let_def appended_def)
next
  case False
  then show ?thesis by (simp add: commit_def appended_refl)
qed

lemma appended_via: "appended st' (commit st') \<Longrightarrow> appended st st' \<Longrightarrow> appended st (commit st')"
  by (rule appended_trans)

lemma appended_gumResolved: "appended st (gumResolved st)"
proof -
  have "appended (setLocalStream (Some (Own (gumCount st)))
          (st\<lparr>pendingGum := pendingGum st - 1, gumCount := Suc (gumCount st),
              audioTracks := (audioTracks st)(Own (gumCount st) := 1)\<rparr>))
          (setupAudioAnalyser (Own (gumCount st)) (setLocalStream (Some (Own (gumCount st)))
          (st\<lparr>pendingGum := pendingGum st - 1, gumCount := Suc (gumCount st),
              audioTracks := (audioTracks st)(Own (gumCount st) := 1)\<rparr>)))"
    by (rule appended_setup)
  then show ?thesis
    by (simp add: gumResolved_def Let_def appended_def)
qed

lemma appended_localPlaySettled: "sessions st' = sessions st \<Longrightarrow> appended st (localPlaySettled s st')"
  using appended_setup [of st' s] by (simp add: localPlaySettled_def appended_def)

lemma sources_detectVolume: "map source (sessions (detectVolume i d st)) = map source (sessions st)"
proof (cases "i < length (sessions st)")
  case True
  then show ?thesis
    by (simp add: detectVolume_def Let_def setSession_def map_update list_update_same_conv
        split: option.splits)
next
  case False
  then have "length (sessions st) \<le> i" by simp
  then show ?thesis
    by (simp add: detectVolume_def Let_def setSession_def list_update_beyond split: option.splits)
qed

lemma sources_step: "\<exists>new. map source (sessions (step e st)) = map source (sessions st) @ new"
proof -
  have comm: "\<And>st'. sessions st' = sessions st \<Longrightarrow> appended st (commit st')"
    using appended_commit appended_same appended_trans by blast
  have "appended st (step e st) \<or> map source (sessions (step e st)) = map source (sessions st)"
  proof (cases e)
    case GumResolved
    then show ?thesis
      using appended_trans [OF appended_gumResolved appended_commit] by (simp add: appended_refl)
  next
    case (LocalPlaySettled i ok)
    then show ?thesis
      using appended_trans [OF appended_localPlaySettled appended_commit] by (simp add: appended_refl)
  next
    case (Tick i d)
    then show ?thesis by (simp add: sources_detectVolume)
  next
    case Retry
    have "appended st (commit (getLocalCamera st))"
      by (rule comm) simp
    then have "appended st (dispatchClick (commit (getLocalCamera st)))"
      by (simp add: appended_def dispatchClick_def)
    with Retry show ?thesis by (simp add: appended_refl)
  qed (simp_all add: comm appended_refl dispatch_defs)
  then show ?thesis by (auto simp: appended_def)
qed

text \<open>
  C2 (as amended). Nothing retires an analysis session: over every sequence of events,
  from every state, the analysers that exist stay, in order, and each call of
  \<^verbatim>\<open>setupAudioAnalyser\<close> that does not throw adds one more with its own sampling loop.
\<close>

theorem analysis_sessions_never_retired:
  "(\<exists>new. map source (sessions (run evs st)) = map source (sessions st) @ new)
   \<and> (analyserOk st \<and> 0 < audioTracks st s \<longrightarrow>
        map source (sessions (setupAudioAnalyser s st)) = map source (sessions st) @ [s])"
proof
  show "\<exists>new. map source (sessions (run evs st)) = map source (sessions st) @ new"
  proof (induction evs arbitrary: st)
    case Nil
    show ?case by simp
  next
    case (Cons e evs)
    obtain n1 where "map source (sessions (step e st)) = map source (sessions st) @ n1"
      using sources_step by blast
    moreover obtain n2 where
      "map source (sessions (run evs (step e st))) = map source (sessions (step e st)) @ n2"
      using Cons.IH by blast
    ultimately show ?case by simp
  qed
  show "analyserOk st \<and> 0 < audioTracks st s \<longrightarrow>
        map source (sessions (setupAudioAnalyser s st)) = map source (sessions st) @ [s]"
    by (simp add: setupAudioAnalyser_eq)
qed

theorem analysis_sessions_never_retired_witness:
  "(\<exists>new. map source (sessions (run [SetProps (Some (Ext 0)) False]
             (run [GumResolved, TrackChange (Ext 0) 1] (mount noTracks True None False))))
          = [Own 0, Own 0] @ new)
   \<and> map source (sessions (setupAudioAnalyser (Ext 0)
        (run [GumResolved, TrackChange (Ext 0) 1] (mount noTracks True None False))))
       = [Own 0, Own 0, Ext 0]"
proof -
  let ?st = "run [GumResolved, TrackChange (Ext 0) 1] (mount noTracks True None False)"
  have src: "map source (sessions ?st) = [Own 0, Own 0]"
    by (simp add: model_defs)
  have ok: "analyserOk ?st \<and> 0 < audioTracks ?st (Ext 0)"
    by (simp add: model_defs)
  show ?thesis
    using analysis_sessions_never_retired [of "[SetProps (Some (Ext 0)) False]" ?st "Ext 0"] src ok
    by simp
qed

text \<open>
  C2 as stated fails: on a local endpoint one successful acquisition already starts two
  analysers on the acquired stream (line 111, then the audio effect when \<^verbatim>\<open>localStream\<close>
  changes), and both sampling loops run: each arms its own silence timer.
\<close>

theorem two_sampling_loops_counterexample:
  "\<not> length (sessions (run [GumResolved] (mount noTracks True None False))) \<le> 1
   \<and> map source (sessions (run [GumResolved] (mount noTracks True None False))) = [Own 0, Own 0]
   \<and> timers (run [GumResolved, Tick 0 (replicate 256 25), Tick 1 (replicate 256 25)]
        (mount noTracks True None False)) 1 = Some 800
   \<and> timers (run [GumResolved, Tick 0 (replicate 256 25), Tick 1 (replicate 256 25)]
        (mount noTracks True None False)) 2 = Some 800"
  by (simp add: model_defs average_replicate frequencyBinCount_def fftSize_def)


subsection \<open>The state between two events\<close>

lemma handlersOn_simps [simp]:
  "handlersOn None = []"
  "handlersOn (Some c) = [c]"
  by (simp_all add: handlersOn_def)

lemma remove1_handlersOn: "(case c of Some x \<Rightarrow> remove1 x (handlersOn c) | None \<Rightarrow> handlersOn c) = []"
  by (cases c) simp_all

lemma observers_trackEffect: "observers (trackEffect st) = observers st @ handlersOn (currentStream st)"
  by (simp add: trackEffect_def split: option.splits)

lemma observers_runCleanups:
  "observers (runCleanups c1 c4 st) =
     (if c1 \<or> c4
      then (case depCurrent st of Some c \<Rightarrow> remove1 c (observers st) | None \<Rightarrow> observers st)
      else observers st)"
  by (simp add: runCleanups_def Let_def observers_cleanupTrack)

lemma observers_runEffects:
  "observers (runEffects c1 c4 st) =
     (if c1 \<or> c4 then observers st @ handlersOn (currentStream st) else observers st)"
  by (simp add: runEffects_def Let_def observers_trackEffect)

lemma unchanged_deps:
  "\<not> streamChanged st \<Longrightarrow> \<not> localChanged st \<Longrightarrow> deps st = Some (stream st, isRemote st, localStream st)"
  by (auto simp: streamChanged_def localChanged_def split: option.splits)

lemma observers_commit:
  assumes "mounted st" and "observers st = handlersOn (depCurrent st)"
  shows "observers (commit st) = handlersOn (currentStream st)"
proof (cases "streamChanged st \<or> localChanged st")
  case True
  have "(case depCurrent st of Some c \<Rightarrow> remove1 c (observers st) | None \<Rightarrow> observers st) = []"
    unfolding assms(2) by (rule remove1_handlersOn)
  with True assms(1) show ?thesis
    by (simp add: commit_def Let_def observers_runEffects observers_runCleanups
        cong: option.case_cong)
next
  case False
  then have "deps st = Some (stream st, isRemote st, localStream st)"
    by (simp add: unchanged_deps)
  then have "depCurrent st = currentStream st"
    by (simp add: currentStream_def split: option.splits)
  with False assms show ?thesis
    by (simp add: commit_def Let_def observers_runEffects observers_runCleanups)
qed

lemma videoRef_syncVideo:
  "videoRef (syncVideo st) \<noteq> None \<longleftrightarrow>
     mounted st \<and> \<not> isLoading st \<and> \<not> hasError st \<and> currentStream st \<noteq> None"
  by (simp add: syncVideo_def split: option.splits)

lemma commit_is_syncVideo:
  "mounted st \<Longrightarrow> \<exists>x. commit st = syncVideo x"
  by (auto simp: commit_def Let_def)

lemma settled_syncVideo_fields:
  "videoRef (syncVideo x) \<noteq> None \<longrightarrow>
     mounted (syncVideo x) \<and> \<not> isLoading (syncVideo x) \<and> \<not> hasError (syncVideo x)
     \<and> currentStream (syncVideo x) \<noteq> None"
  using videoRef_syncVideo [of x] by simp

lemma settled_commit:
  assumes "mounted st" and "observers st = handlersOn (depCurrent st)"
    and "clickListeners st = touchListeners st"
  shows "settled (commit st)"
proof -
  obtain x where x: "commit st = syncVideo x"
    using commit_is_syncVideo [OF assms(1)] by blast
  have video: "videoRef (commit st) \<noteq> None \<longrightarrow>
     mounted (commit st) \<and> \<not> isLoading (commit st) \<and> \<not> hasError (commit st)
     \<and> currentStream (commit st) \<noteq> None"
    unfolding x by (rule settled_syncVideo_fields)
  have obs: "observers (commit st) = handlersOn (currentStream st)"
    using assms(1,2) by (rule observers_commit)
  have dp: "deps (commit st) = Some (stream st, isRemote st, localStream st)"
    using assms(1) by (simp add: deps_commit)
  have "depCurrent (commit st) = currentStream st"
    by (simp add: dp currentStream_def split: option.splits)
  with video obs dp assms show ?thesis
    by (simp add: settled_def)
qed

lemma settled_unmounted:
  "\<not> mounted st \<Longrightarrow> observers st = [] \<Longrightarrow> videoRef st = None
   \<Longrightarrow> clickListeners st = touchListeners st \<Longrightarrow> settled st"
  by (simp add: settled_def)

lemma settled_same:
  assumes "settled st" and "mounted st' = mounted st" and "deps st' = deps st"
    and "stream st' = stream st" and "isRemote st' = isRemote st"
    and "localStream st' = localStream st" and "observers st' = observers st"
    and "videoRef st' = videoRef st" and "isLoading st' = isLoading st"
    and "error st' = error st" and "clickListeners st' = clickListeners st"
    and "touchListeners st' = touchListeners st"
  shows "settled st'"
  using assms by (simp add: settled_def hasError_def currentStream_def cong: option.case_cong)

lemma settled_obs: "settled st \<Longrightarrow> mounted st \<Longrightarrow> observers st = handlersOn (depCurrent st)"
  by (simp add: settled_def)

lemma settled_deps: "settled st \<Longrightarrow> mounted st \<Longrightarrow> deps st = Some (stream st, isRemote st, localStream st)"
  by (simp add: settled_def)

lemma settled_paired: "settled st \<Longrightarrow> clickListeners st = touchListeners st"
  by (simp add: settled_def)


lemma settled_videoD:
  "settled st \<Longrightarrow> videoRef st \<noteq> None \<Longrightarrow>
     mounted st \<and> \<not> isLoading st \<and> \<not> hasError st \<and> currentStream st \<noteq> None"
  by (simp add: settled_def)

lemma settled_unmounted_fields: "settled st \<Longrightarrow> \<not> mounted st \<Longrightarrow> observers st = [] \<and> videoRef st = None"
  by (auto simp: settled_def)

subsection \<open>The \<^verbatim>\<open>enableAudio\<close> listeners\<close>

lemma listeners_enableAudio:
  "clickListeners (enableAudio l st) = removeAll l (clickListeners st)"
  "touchListeners (enableAudio l st) = removeAll l (touchListeners st)"
  by (simp_all add: enableAudio_def Let_def)

lemma listeners_fold_enableAudio:
  "clickListeners (fold enableAudio ls st) = filter (\<lambda>l. l \<notin> set ls) (clickListeners st)"
  "touchListeners (fold enableAudio ls st) = filter (\<lambda>l. l \<notin> set ls) (touchListeners st)"
proof (induction ls arbitrary: st)
  case Nil
  {
    case 1 show ?case by simp
  next
    case 2 show ?case by simp
  }
next
  case (Cons a ls)
  {
    case 1
    show ?case
      by (simp add: Cons.IH listeners_enableAudio removeAll_filter_not_eq) (metis)
  next
    case 2
    show ?case
      by (simp add: Cons.IH listeners_enableAudio removeAll_filter_not_eq) (metis)
  }
qed

lemma videoRef_enableAudio_None: "videoRef st = None \<Longrightarrow> videoRef (enableAudio l st) = None"
  by (simp add: enableAudio_def Let_def)

lemma videoRef_fold_enableAudio_None: "videoRef st = None \<Longrightarrow> videoRef (fold enableAudio ls st) = None"
  by (induction ls arbitrary: st) (simp_all add: videoRef_enableAudio_None)

lemma fold_enableAudio_derived [simp]:
  "currentStream (fold enableAudio ls st) = currentStream st"
  "hasError (fold enableAudio ls st) = hasError st"
  by (simp_all add: currentStream_def hasError_def split: option.splits)

lemma settled_fold_enableAudio:
  assumes "settled st"
  shows "settled (fold enableAudio ls st)"
proof -
  let ?st' = "fold enableAudio ls st"
  have 1: "mounted ?st' \<longrightarrow> deps ?st' = Some (stream ?st', isRemote ?st', localStream ?st')"
    using settled_deps [OF assms] by simp
  have 2: "observers ?st' = (if mounted ?st' then handlersOn (depCurrent ?st') else [])"
  proof (cases "mounted st")
    case True
    from settled_obs [OF assms True] True show ?thesis by simp
  next
    case False
    from settled_unmounted_fields [OF assms False] False show ?thesis by simp
  qed
  have 3: "videoRef ?st' \<noteq> None \<longrightarrow>
       mounted ?st' \<and> \<not> isLoading ?st' \<and> \<not> hasError ?st' \<and> currentStream ?st' \<noteq> None"
  proof
    assume a: "videoRef ?st' \<noteq> None"
    have "videoRef st \<noteq> None"
      using videoRef_fold_enableAudio_None [of st ls] a by auto
    from settled_videoD [OF assms this]
    show "mounted ?st' \<and> \<not> isLoading ?st' \<and> \<not> hasError ?st' \<and> currentStream ?st' \<noteq> None"
      by simp
  qed
  have "clickListeners st = touchListeners st"
    using assms by (rule settled_paired)
  then have 4: "clickListeners ?st' = touchListeners ?st'"
    by (simp add: listeners_fold_enableAudio)
  show ?thesis
    unfolding settled_def using 1 2 3 4 by (intro conjI)
qed

lemma dispatch_clears:
  assumes "clickListeners st = touchListeners st"
  shows "clickListeners (dispatchClick st) = []" and "touchListeners (dispatchClick st) = []"
    and "clickListeners (dispatchTouch st) = []" and "touchListeners (dispatchTouch st) = []"
  using assms by (simp_all add: dispatch_defs listeners_fold_enableAudio)

subsection \<open>Every step keeps the state settled\<close>

lemma settled_step:
  assumes "settled st"
  shows "settled (step e st)"
proof (cases "mounted st")
  case True
  note obs = settled_obs [OF assms True] and pr = settled_paired [OF assms]
  show ?thesis
  proof (cases e)
    case (SetProps s r)
    with True obs pr show ?thesis by (simp add: settled_commit)
  next
    case (PlaySettled i ok)
    with True obs pr assms show ?thesis
      by (simp add: settled_commit playSettled_def armEnableAudio_def setIsLoading_def Let_def)
  next
    case GumResolved
    with True obs pr assms show ?thesis by (simp add: settled_commit)
  next
    case (GumRejected m)
    with True obs pr assms show ?thesis by (simp add: settled_commit)
  next
    case (LocalPlaySettled i ok)
    with True obs pr assms show ?thesis by (simp add: settled_commit)
  next
    case Retry
    have "settled (commit (getLocalCamera st))"
      using True obs pr by (simp add: settled_commit)
    then have "settled (dispatchClick (commit (getLocalCamera st)))"
      by (simp add: dispatchClick_def settled_fold_enableAudio)
    with Retry assms show ?thesis by simp
  next
    case Click
    with assms show ?thesis by (simp add: dispatchClick_def settled_fold_enableAudio)
  next
    case Touch
    with assms show ?thesis by (simp add: dispatchTouch_def settled_fold_enableAudio)
  next
    case (Tick i d)
    with assms show ?thesis by (auto intro: settled_same)
  next
    case (Elapse n)
    with assms show ?thesis by (auto intro: settled_same)
  next
    case (TimerFire t)
    with assms show ?thesis by (auto intro: settled_same)
  next
    case (TrackChange s n)
    with assms show ?thesis by (auto intro: settled_same)
  next
    case (AnalyserAvail b)
    with assms show ?thesis by (auto intro: settled_same)
  next
    case Unmount
    have "(case depCurrent st of Some c \<Rightarrow> remove1 c (observers st) | None \<Rightarrow> observers st) = []"
      unfolding obs by (rule remove1_handlersOn)
    then have "observers (unmount st) = []"
      using True by (simp add: unmount_def observers_cleanupTrack)
    with Unmount True pr show ?thesis
      by (simp add: settled_unmounted unmount_def)
  qed
next
  case False
  note un = settled_unmounted_fields [OF assms False] and pr = settled_paired [OF assms]
  show ?thesis
  proof (cases e)
    case (PlaySettled i ok)
    with False un pr assms show ?thesis
      by (simp add: settled_unmounted commit_def playSettled_def armEnableAudio_def setIsLoading_def Let_def)
  next
    case GumResolved
    with False un pr assms show ?thesis
      by (simp add: settled_unmounted commit_def gumResolved_def setLocalStream_def Let_def)
  next
    case (GumRejected m)
    with False un pr assms show ?thesis
      by (simp add: settled_unmounted commit_def)
  next
    case (LocalPlaySettled i ok)
    with False un pr assms show ?thesis
      by (simp add: settled_unmounted commit_def)
  next
    case Click
    with assms show ?thesis by (simp add: dispatchClick_def settled_fold_enableAudio)
  next
    case Touch
    with assms show ?thesis by (simp add: dispatchTouch_def settled_fold_enableAudio)
  next
    case (Tick i d)
    with assms show ?thesis by (auto intro: settled_same)
  next
    case (Elapse n)
    with assms show ?thesis by (auto intro: settled_same)
  next
    case (TimerFire t)
    with assms show ?thesis by (auto intro: settled_same)
  next
    case (TrackChange s n)
    with assms show ?thesis by (auto intro: settled_same)
  next
    case (AnalyserAvail b)
    with assms show ?thesis by (auto intro: settled_same)
  qed (use False assms in \<open>simp_all add: unmount_def\<close>)
qed

lemma settled_mount: "settled (mount tracks ok s r)"
  unfolding mount_def by (rule settled_commit) (simp_all add: fresh_def)

lemma settled_run: "settled (run evs (mount tracks ok s r))"
  by (rule run_invariant) (simp_all add: settled_mount settled_step)


subsection \<open>Unlock bindings\<close>

lemma listeners_playSettled:
  "clickListeners (playSettled r ok st) =
     (if \<not> ok \<and> r then clickListeners st @ [nextListener st] else clickListeners st)"
  "touchListeners (playSettled r ok st) =
     (if \<not> ok \<and> r then touchListeners st @ [nextListener st] else touchListeners st)"
  by (simp_all add: playSettled_def armEnableAudio_def Let_def)


subsection \<open>The one-shot unlock listener\<close>

lemma pendingPlay_streamEffect:
  "pendingPlay (streamEffect st) =
     (if stream st \<noteq> None \<and> videoRef st \<noteq> None then pendingPlay st @ [isRemote st]
      else pendingPlay st)"
  by (simp add: streamEffect_def playVideo_def)

lemma pendingPlay_commit:
  "pendingPlay (commit st) = pendingPlay st \<or> pendingPlay (commit st) = pendingPlay st @ [isRemote st]"
  by (simp add: commit_def Let_def runEffects_def pendingPlay_streamEffect)

lemma set_dropAt: "set (dropAt i xs) \<subseteq> set xs"
  by (auto simp: dropAt_def dest: in_set_takeD in_set_dropD)

lemma localOnly_commit:
  assumes "localOnly st"
  shows "localOnly (commit st)"
proof -
  from pendingPlay_commit [of st] assms have "True \<notin> set (pendingPlay (commit st))"
    by (auto simp: localOnly_def)
  with assms show ?thesis by (simp add: localOnly_def)
qed

lemma localOnly_fold: "localOnly st \<Longrightarrow> localOnly (fold enableAudio ls st)"
  by (simp add: localOnly_def listeners_fold_enableAudio)

lemma localOnly_step:
  assumes "localOnly st" and "keepsLocal e"
  shows "localOnly (step e st)"
proof (cases e)
  case (SetProps s r)
  with assms have "localOnly (st\<lparr>stream := s, isRemote := r\<rparr>)"
    by (simp add: localOnly_def)
  with SetProps assms(1) show ?thesis by (simp add: localOnly_commit)
next
  case (PlaySettled i ok)
  show ?thesis
  proof (cases "i < length (pendingPlay st)")
    case True
    with assms(1) have no: "\<not> pendingPlay st ! i"
      by (auto simp: localOnly_def dest: nth_mem)
    have "True \<notin> set (dropAt i (pendingPlay st))"
      using assms(1) set_dropAt [of i "pendingPlay st"] by (auto simp: localOnly_def)
    with assms(1) no
    have "localOnly (playSettled (pendingPlay st ! i) ok (st\<lparr>pendingPlay := dropAt i (pendingPlay st)\<rparr>))"
      by (simp add: localOnly_def listeners_playSettled)
    with PlaySettled True show ?thesis by (simp add: localOnly_commit)
  next
    case False
    with PlaySettled assms(1) show ?thesis by simp
  qed
next
  case GumResolved
  have "localOnly (gumResolved st)"
    using assms(1) by (simp add: localOnly_def)
  with GumResolved assms(1) show ?thesis by (simp add: localOnly_commit)
next
  case (GumRejected m)
  have "localOnly (gumRejected m st)"
    using assms(1) by (simp add: localOnly_def)
  with GumRejected assms(1) show ?thesis by (simp add: localOnly_commit)
next
  case (LocalPlaySettled i ok)
  have "localOnly (localPlaySettled (pendingLocalPlay st ! i)
          (st\<lparr>pendingLocalPlay := dropAt i (pendingLocalPlay st)\<rparr>))"
    using assms(1) by (simp add: localOnly_def)
  with LocalPlaySettled assms(1) show ?thesis by (simp add: localOnly_commit)
next
  case Retry
  have "localOnly (getLocalCamera st)"
    using assms(1) by (simp add: localOnly_def)
  then have "localOnly (dispatchClick (commit (getLocalCamera st)))"
    by (simp add: dispatchClick_def localOnly_fold localOnly_commit)
  with Retry assms(1) show ?thesis by simp
next
  case Click
  with assms(1) show ?thesis by (simp add: dispatchClick_def localOnly_fold)
next
  case Touch
  with assms(1) show ?thesis by (simp add: dispatchTouch_def localOnly_fold)
qed (use assms(1) in \<open>simp_all add: localOnly_def\<close>)

lemma localOnly_run:
  "localOnly st \<Longrightarrow> \<forall>e \<in> set evs. keepsLocal e \<Longrightarrow> localOnly (run evs st)"
  by (induction evs arbitrary: st) (simp_all add: localOnly_step)

lemma localOnly_mount: "localOnly (mount tracks ok s False)"
  unfolding mount_def by (rule localOnly_commit) (simp add: localOnly_def fresh_def)

lemma videoRef_enableAudio:
  "videoRef (enableAudio l st) =
     map_option (\<lambda>v. v\<lparr>muted := False, volume := 1, playCalls := Suc (playCalls v)\<rparr>) (videoRef st)"
  by (cases "videoRef st") (simp_all add: enableAudio_def Let_def onVideo_def)

text \<open>
  C7 (as amended). A playback start that was made for a remote instance and is rejected
  registers one \<^verbatim>\<open>enableAudio\<close> closure for \<^verbatim>\<open>click\<close> and \<^verbatim>\<open>touchstart\<close>; one made for a local
  instance registers nothing, and an instance that has always been local never has one.
  On the next click or touch the closure runs: if the video element is mounted at that
  moment it is unmuted, its volume is set to 1 and \<^verbatim>\<open>play()\<close> is called once, whose outcome
  is ignored; if no video element is mounted nothing is retried. In both cases the closure
  removes itself from both events.
\<close>

theorem unlock_listener_behaviour:
  assumes "st = run evs (mount tracks ok s r)"
  shows "(stream st \<noteq> None \<and> videoRef st \<noteq> None \<longrightarrow>
            pendingPlay (streamEffect st) = pendingPlay st @ [isRemote st])
         \<and> (i < length (pendingPlay st) \<and> pendingPlay st ! i \<longrightarrow>
              clickListeners (step (PlaySettled i False) st) = clickListeners st @ [nextListener st]
              \<and> touchListeners (step (PlaySettled i False) st) = touchListeners st @ [nextListener st])
         \<and> (i < length (pendingPlay st) \<and> \<not> pendingPlay st ! i \<longrightarrow>
              clickListeners (step (PlaySettled i False) st) = clickListeners st
              \<and> touchListeners (step (PlaySettled i False) st) = touchListeners st)
         \<and> (\<not> r \<and> (\<forall>e \<in> set evs. keepsLocal e) \<longrightarrow>
              clickListeners st = [] \<and> touchListeners st = [])
         \<and> (clickListeners st = [l] \<longrightarrow>
              step Click st = enableAudio l st \<and> step Touch st = enableAudio l st)
         \<and> (\<forall>v. videoRef st = Some v \<longrightarrow>
              videoRef (enableAudio l st)
                = Some (v\<lparr>muted := False, volume := 1, playCalls := Suc (playCalls v)\<rparr>))
         \<and> (videoRef st = None \<longrightarrow> videoRef (enableAudio l st) = None)
         \<and> l \<notin> set (clickListeners (enableAudio l st))
         \<and> l \<notin> set (touchListeners (enableAudio l st))"
proof -
  have st: "settled st"
    unfolding assms by (rule settled_run)
  note pr = settled_paired [OF st]
  have 1: "stream st \<noteq> None \<and> videoRef st \<noteq> None \<longrightarrow>
            pendingPlay (streamEffect st) = pendingPlay st @ [isRemote st]"
    by (simp add: pendingPlay_streamEffect)
  have 2: "i < length (pendingPlay st) \<and> pendingPlay st ! i \<longrightarrow>
              clickListeners (step (PlaySettled i False) st) = clickListeners st @ [nextListener st]
              \<and> touchListeners (step (PlaySettled i False) st) = touchListeners st @ [nextListener st]"
    by (simp add: listeners_playSettled)
  have 3: "i < length (pendingPlay st) \<and> \<not> pendingPlay st ! i \<longrightarrow>
              clickListeners (step (PlaySettled i False) st) = clickListeners st
              \<and> touchListeners (step (PlaySettled i False) st) = touchListeners st"
    by (simp add: listeners_playSettled)
  have 4: "\<not> r \<and> (\<forall>e \<in> set evs. keepsLocal e) \<longrightarrow>
              clickListeners st = [] \<and> touchListeners st = []"
  proof
    assume a: "\<not> r \<and> (\<forall>e \<in> set evs. keepsLocal e)"
    then have "localOnly (run evs (mount tracks ok s False))"
      by (simp add: localOnly_run localOnly_mount)
    with a assms show "clickListeners st = [] \<and> touchListeners st = []"
      by (simp add: localOnly_def)
  qed
  have 5: "clickListeners st = [l] \<longrightarrow>
              step Click st = enableAudio l st \<and> step Touch st = enableAudio l st"
    using pr by (auto simp: dispatch_defs)
  have 6: "\<forall>v. videoRef st = Some v \<longrightarrow>
              videoRef (enableAudio l st)
                = Some (v\<lparr>muted := False, volume := 1, playCalls := Suc (playCalls v)\<rparr>)"
    by (simp add: videoRef_enableAudio)
  have 7: "videoRef st = None \<longrightarrow> videoRef (enableAudio l st) = None"
    by (simp add: videoRef_enableAudio)
  have 8: "l \<notin> set (clickListeners (enableAudio l st))" "l \<notin> set (touchListeners (enableAudio l st))"
    by (simp_all add: listeners_enableAudio)
  from 1 2 3 4 5 6 7 8 show ?thesis by (intro conjI)
qed

theorem unlock_listener_behaviour_witness:
  "pendingPlay (streamEffect (run [SetProps (Some (Ext 0)) True] (mount noTracks True None True)))
     = [True, True]
   \<and> clickListeners (step (PlaySettled 0 False)
        (run [SetProps (Some (Ext 0)) True] (mount noTracks True None True))) = [0]
   \<and> touchListeners (step (PlaySettled 0 False)
        (run [SetProps (Some (Ext 0)) True] (mount noTracks True None True))) = [0]
   \<and> clickListeners (step (PlaySettled 0 False)
        (run [GumResolved, SetProps (Some (Ext 0)) False] (mount noTracks True None False))) = []
   \<and> clickListeners (run [GumResolved, SetProps (Some (Ext 0)) False, PlaySettled 0 False]
        (mount noTracks True None False)) = []
   \<and> step Click (run [SetProps (Some (Ext 0)) True, PlaySettled 0 False] (mount noTracks True None True))
       = enableAudio 0 (run [SetProps (Some (Ext 0)) True, PlaySettled 0 False] (mount noTracks True None True))
   \<and> videoRef (enableAudio 0
        (run [SetProps (Some (Ext 0)) True, PlaySettled 0 False] (mount noTracks True None True)))
       = Some \<lparr>srcObject = Some (Ext 0), muted = False, volume = 1, playCalls = 2\<rparr>
   \<and> videoRef (enableAudio 0
        (run [SetProps (Some (Ext 0)) True, PlaySettled 0 False, SetProps None True]
           (mount noTracks True None True))) = None
   \<and> 0 \<notin> set (clickListeners (enableAudio 0
        (run [SetProps (Some (Ext 0)) True, PlaySettled 0 False] (mount noTracks True None True))))"
proof -
  let ?a = "run [SetProps (Some (Ext 0)) True] (mount noTracks True None True)"
  let ?b = "run [GumResolved, SetProps (Some (Ext 0)) False] (mount noTracks True None False)"
  let ?b' = "run [GumResolved, SetProps (Some (Ext 0)) False, PlaySettled 0 False]
               (mount noTracks True None False)"
  let ?c = "run [SetProps (Some (Ext 0)) True, PlaySettled 0 False] (mount noTracks True None True)"
  let ?d = "run [SetProps (Some (Ext 0)) True, PlaySettled 0 False, SetProps None True]
              (mount noTracks True None True)"
  have a: "stream ?a \<noteq> None \<and> videoRef ?a \<noteq> None" "pendingPlay ?a = [True]" "isRemote ?a"
    "clickListeners ?a = []" "touchListeners ?a = []" "nextListener ?a = 0"
    by (simp_all add: model_defs)
  have b: "pendingPlay ?b = [False]" "clickListeners ?b = []"
    by (simp_all add: model_defs)
  have b': "\<forall>e \<in> set [GumResolved, SetProps (Some (Ext 0)) False, PlaySettled 0 False]. keepsLocal e"
    by simp
  have c: "clickListeners ?c = [0]"
    "videoRef ?c = Some \<lparr>srcObject = Some (Ext 0), muted = False, volume = 1, playCalls = 1\<rparr>"
    by (simp_all add: model_defs)
  have d: "videoRef ?d = None"
    by (simp add: model_defs)
  from unlock_listener_behaviour [of ?a _ noTracks True None True 0, OF refl] a
  have 1: "pendingPlay (streamEffect ?a) = [True, True]"
    "clickListeners (step (PlaySettled 0 False) ?a) = [0]"
    "touchListeners (step (PlaySettled 0 False) ?a) = [0]"
    by simp_all
  from unlock_listener_behaviour [of ?b _ noTracks True None False 0, OF refl] b
  have 2: "clickListeners (step (PlaySettled 0 False) ?b) = []"
    by simp
  from unlock_listener_behaviour [of ?b' _ noTracks True None False, OF refl] b'
  have 3: "clickListeners ?b' = []"
    by blast
  from unlock_listener_behaviour [of ?c _ noTracks True None True _ 0, OF refl] c
  have 4: "step Click ?c = enableAudio 0 ?c"
    "videoRef (enableAudio 0 ?c)
       = Some \<lparr>srcObject = Some (Ext 0), muted = False, volume = 1, playCalls = 2\<rparr>"
    "0 \<notin> set (clickListeners (enableAudio 0 ?c))"
    by simp_all
  from unlock_listener_behaviour [of ?d _ noTracks True None True _ 0, OF refl] d
  have 5: "videoRef (enableAudio 0 ?d) = None"
    by simp
  from 1 2 3 4 5 show ?thesis by (intro conjI)
qed

text \<open>
  C7 as stated fails when the video element is gone at the time of the interaction: the
  remote stream's playback was blocked, the parent then withdrew the stream, and the next
  click runs the listener, which disarms itself without unmuting or retrying anything.
\<close>

theorem unlock_without_sink_counterexample:
  "clickListeners (run [SetProps (Some (Ext 0)) True, PlaySettled 0 False, SetProps None True]
     (mount noTracks True None True)) = [0]
   \<and> videoRef (run [SetProps (Some (Ext 0)) True, PlaySettled 0 False, SetProps None True]
     (mount noTracks True None True)) = None
   \<and> videoRef (run [SetProps (Some (Ext 0)) True, PlaySettled 0 False, SetProps None True, Click]
     (mount noTracks True None True)) = None
   \<and> clickListeners (run [SetProps (Some (Ext 0)) True, PlaySettled 0 False, SetProps None True, Click]
     (mount noTracks True None True)) = []
   \<and> touchListeners (run [SetProps (Some (Ext 0)) True, PlaySettled 0 False, SetProps None True, Click]
     (mount noTracks True None True)) = []"
  by (simp add: model_defs)


subsection \<open>Playback rejections and the error state\<close>

lemma commit_without_stream_change:
  assumes "\<not> streamChanged st"
  shows "isLoading (commit st) = isLoading st" and "error (commit st) = error st"
    and "pendingGum (commit st) = pendingGum st" and "pendingPlay (commit st) = pendingPlay st"
  using assms by (simp_all add: commit_def Let_def runEffects_def)

lemma streamChanged_same:
  "deps st = Some (stream st, isRemote st, localStream st) \<Longrightarrow> \<not> streamChanged st"
  by (simp add: streamChanged_def)

lemma localChanged_same:
  "deps st = Some (stream st, isRemote st, localStream st) \<Longrightarrow> \<not> localChanged st"
  by (simp add: localChanged_def)

lemma error_streamEffect: "error (streamEffect st) = error st \<or> error (streamEffect st) = None"
  by (simp add: streamEffect_def getLocalCamera_def setError_def Let_def)

lemma error_streamEffect_on:
  "error x = error st \<Longrightarrow> error (streamEffect x) = error st \<or> error (streamEffect x) = None"
  using error_streamEffect [of x] by simp

lemma error_commit: "error (commit st) = error st \<or> error (commit st) = None"
  by (simp add: commit_def Let_def runEffects_def error_streamEffect_on)

lemma error_getLocalCamera: "error (getLocalCamera st) = error st \<or> error (getLocalCamera st) = None"
  by (simp add: getLocalCamera_def setError_def Let_def)

lemma error_step:
  "error (step e st) = error st \<or> error (step e st) = None
   \<or> (\<exists>m. e = GumRejected m \<and> 0 < pendingGum st \<and> error (step e st) = Some m)"
proof (cases e)
  case (SetProps s r)
  with error_commit [of "st\<lparr>stream := s, isRemote := r\<rparr>"] show ?thesis by auto
next
  case (PlaySettled i ok)
  with error_commit [of "playSettled (pendingPlay st ! i) ok (st\<lparr>pendingPlay := dropAt i (pendingPlay st)\<rparr>)"]
  show ?thesis by auto
next
  case GumResolved
  with error_commit [of "gumResolved st"] show ?thesis by auto
next
  case (GumRejected m)
  have "error (gumRejected m st) = error st \<or> error (gumRejected m st) = Some m"
    by (simp add: gumRejected_def setError_def)
  with GumRejected error_commit [of "gumRejected m st"] show ?thesis by auto
next
  case (LocalPlaySettled i ok)
  with error_commit [of "localPlaySettled (pendingLocalPlay st ! i)
      (st\<lparr>pendingLocalPlay := dropAt i (pendingLocalPlay st)\<rparr>)"]
  show ?thesis by auto
next
  case Retry
  with error_commit [of "getLocalCamera st"] error_getLocalCamera [of st]
  show ?thesis by (auto simp: dispatchClick_def)
qed (simp_all add: dispatch_defs)

lemma playSettled_leaves_loading:
  assumes "settled st" and "mounted st" and "i < length (pendingPlay st)"
  shows "error (step (PlaySettled i ok) st) = error st" and "\<not> isLoading (step (PlaySettled i ok) st)"
proof -
  let ?x = "playSettled (pendingPlay st ! i) ok (st\<lparr>pendingPlay := dropAt i (pendingPlay st)\<rparr>)"
  have "deps ?x = Some (stream ?x, isRemote ?x, localStream ?x)"
    using settled_deps [OF assms(1,2)] by simp
  then have same: "\<not> streamChanged ?x"
    by (rule streamChanged_same)
  have x: "error ?x = error st" "\<not> isLoading ?x"
    using assms(2) by (simp_all add: playSettled_def setIsLoading_def armEnableAudio_def Let_def)
  from assms(3) x commit_without_stream_change(1,2) [OF same]
  show "error (step (PlaySettled i ok) st) = error st" and "\<not> isLoading (step (PlaySettled i ok) st)"
    by simp_all
qed

lemma localPlaySettled_leaves_loading:
  assumes "settled st" and "mounted st" and "i < length (pendingLocalPlay st)"
  shows "error (step (LocalPlaySettled i ok) st) = error st"
    and "\<not> isLoading (step (LocalPlaySettled i ok) st)"
proof -
  let ?x = "localPlaySettled (pendingLocalPlay st ! i)
              (st\<lparr>pendingLocalPlay := dropAt i (pendingLocalPlay st)\<rparr>)"
  have "deps ?x = Some (stream ?x, isRemote ?x, localStream ?x)"
    using settled_deps [OF assms(1,2)] by simp
  then have same: "\<not> streamChanged ?x"
    by (rule streamChanged_same)
  have x: "error ?x = error st" "\<not> isLoading ?x"
    using assms(2) by (simp_all add: localPlaySettled_def setIsLoading_def)
  from assms(3) x commit_without_stream_change(1,2) [OF same]
  show "error (step (LocalPlaySettled i ok) st) = error st"
    and "\<not> isLoading (step (LocalPlaySettled i ok) st)"
    by simp_all
qed

text \<open>
  C6. Whenever \<^verbatim>\<open>play()\<close> is rejected, in \<^verbatim>\<open>playVideo\<close> or inside \<^verbatim>\<open>getLocalCamera\<close>, the
  error state of the mounted component is left as it was and \<^verbatim>\<open>isLoading\<close> is false
  afterwards. The error state becomes a message only when \<^verbatim>\<open>getUserMedia\<close> is rejected;
  every other change of it clears it.
\<close>

theorem playback_block_is_not_an_error:
  assumes "st = run evs (mount tracks ok s r)"
  shows "(mounted st \<and> i < length (pendingPlay st) \<longrightarrow>
            error (step (PlaySettled i False) st) = error st
            \<and> \<not> isLoading (step (PlaySettled i False) st)
            \<and> presentationState (step (PlaySettled i False) st) \<noteq> Loading)
         \<and> (mounted st \<and> j < length (pendingLocalPlay st) \<longrightarrow>
              error (step (LocalPlaySettled j False) st) = error st
              \<and> \<not> isLoading (step (LocalPlaySettled j False) st)
              \<and> presentationState (step (LocalPlaySettled j False) st) \<noteq> Loading)
         \<and> (error (step e st) = error st \<or> error (step e st) = None
              \<or> (\<exists>m. e = GumRejected m \<and> 0 < pendingGum st \<and> error (step e st) = Some m))"
proof -
  have st: "settled st"
    unfolding assms by (rule settled_run)
  have 1: "mounted st \<and> i < length (pendingPlay st) \<longrightarrow>
            error (step (PlaySettled i False) st) = error st
            \<and> \<not> isLoading (step (PlaySettled i False) st)
            \<and> presentationState (step (PlaySettled i False) st) \<noteq> Loading"
    using playSettled_leaves_loading [OF st, of i False]
    by (simp add: presentationState_def)
  have 2: "mounted st \<and> j < length (pendingLocalPlay st) \<longrightarrow>
              error (step (LocalPlaySettled j False) st) = error st
              \<and> \<not> isLoading (step (LocalPlaySettled j False) st)
              \<and> presentationState (step (LocalPlaySettled j False) st) \<noteq> Loading"
    using localPlaySettled_leaves_loading [OF st, of j False]
    by (simp add: presentationState_def)
  from 1 2 error_step [of e st] show ?thesis by (intro conjI)
qed

theorem playback_block_is_not_an_error_witness:
  "error (step (PlaySettled 0 False) (run [SetProps (Some (Ext 0)) True] (mount noTracks True None True)))
     = None
   \<and> \<not> isLoading (step (PlaySettled 0 False)
        (run [SetProps (Some (Ext 0)) True] (mount noTracks True None True)))
   \<and> error (step (LocalPlaySettled 0 False)
        (run [SetProps None True, SetProps (Some (Ext 0)) True, GumResolved]
           (mount noTracks True None False))) = None
   \<and> \<not> isLoading (step (LocalPlaySettled 0 False)
        (run [SetProps None True, SetProps (Some (Ext 0)) True, GumResolved]
           (mount noTracks True None False)))
   \<and> error (step (GumRejected ''Permission denied'') (run [] (mount noTracks True None False)))
       = Some ''Permission denied''"
proof -
  let ?a = "run [SetProps (Some (Ext 0)) True] (mount noTracks True None True)"
  let ?b = "run [SetProps None True, SetProps (Some (Ext 0)) True, GumResolved]
              (mount noTracks True None False)"
  let ?c = "run [] (mount noTracks True None False)"
  have a: "mounted ?a \<and> 0 < length (pendingPlay ?a)" "error ?a = None"
    by (simp_all add: model_defs)
  have b: "mounted ?b \<and> 0 < length (pendingLocalPlay ?b)" "error ?b = None"
    by (simp_all add: model_defs)
  have c: "error (step (GumRejected ''Permission denied'') ?c) \<noteq> error ?c"
    "error (step (GumRejected ''Permission denied'') ?c) \<noteq> None"
    by (simp_all add: model_defs)
  from playback_block_is_not_an_error [of ?a _ noTracks True None True 0, OF refl] a
  have 1: "error (step (PlaySettled 0 False) ?a) = None" "\<not> isLoading (step (PlaySettled 0 False) ?a)"
    by simp_all
  from playback_block_is_not_an_error [of ?b _ noTracks True None False _ 0, OF refl] b
  have 2: "error (step (LocalPlaySettled 0 False) ?b) = None"
    "\<not> isLoading (step (LocalPlaySettled 0 False) ?b)"
    by simp_all
  from playback_block_is_not_an_error
    [of ?c "[]" noTracks True None False _ _ "GumRejected ''Permission denied''", OF refl] c
  have 3: "error (step (GumRejected ''Permission denied'') ?c) = Some ''Permission denied''"
    by auto
  from 1 2 3 show ?thesis by (intro conjI)
qed


subsection \<open>How unlock bindings come and go\<close>

lemma listeners_kept_step:
  assumes "e \<noteq> Click" and "e \<noteq> Touch" and "e \<noteq> Retry"
  shows "\<exists>new. clickListeners (step e st) = clickListeners st @ new
               \<and> touchListeners (step e st) = touchListeners st @ new"
proof (cases e)
  case (PlaySettled i ok)
  then show ?thesis by (simp add: listeners_playSettled)
qed (use assms in simp_all)

lemma videoRef_fold_enableAudio:
  assumes "videoRef st = Some v" and "ls \<noteq> []"
  shows "videoRef (fold enableAudio ls st)
           = Some (v\<lparr>muted := False, volume := 1, playCalls := playCalls v + length ls\<rparr>)"
  using assms
proof (induction ls arbitrary: st v)
  case Nil
  then show ?case by simp
next
  case (Cons a ls)
  let ?v = "v\<lparr>muted := False, volume := 1, playCalls := Suc (playCalls v)\<rparr>"
  have a: "videoRef (enableAudio a st) = Some ?v"
    using Cons.prems(1) by (simp add: videoRef_enableAudio)
  show ?case
  proof (cases "ls = []")
    case True
    with a show ?thesis by simp
  next
    case False
    from Cons.IH [OF a False] show ?thesis by simp
  qed
qed

text \<open>
  C3 (as amended). A playback start that is rejected on a remote instance registers one
  more \<^verbatim>\<open>enableAudio\<close> closure for \<^verbatim>\<open>click\<close> and for \<^verbatim>\<open>touchstart\<close> and cancels none of
  the closures already registered. No event other than a click or a touch on the document
  (a click on the Retry button is one) removes a registered closure: every other event
  leaves both lists as they are, up to what it adds at the end. A click or a touch runs
  every closure registered for it, so that \<^verbatim>\<open>play()\<close> is called once for each of them on
  a mounted video element, and afterwards none is registered for either event.
\<close>

theorem unlock_bindings_accumulate:
  assumes "st = run evs (mount tracks ok s r)"
  shows "(i < length (pendingPlay st) \<and> pendingPlay st ! i \<longrightarrow>
            clickListeners (step (PlaySettled i False) st) = clickListeners st @ [nextListener st]
            \<and> touchListeners (step (PlaySettled i False) st) = touchListeners st @ [nextListener st])
         \<and> (e \<noteq> Click \<and> e \<noteq> Touch \<and> e \<noteq> Retry \<longrightarrow>
              (\<exists>new. clickListeners (step e st) = clickListeners st @ new
                     \<and> touchListeners (step e st) = touchListeners st @ new))
         \<and> (mounted st \<and> presentationState st = Error (the (error st)) \<longrightarrow>
              clickListeners (step Retry st) = [] \<and> touchListeners (step Retry st) = [])
         \<and> (\<not> (mounted st \<and> presentationState st = Error (the (error st))) \<longrightarrow>
              step Retry st = st)
         \<and> touchListeners st = clickListeners st
         \<and> step Click st = fold enableAudio (clickListeners st) st
         \<and> step Touch st = fold enableAudio (touchListeners st) st
         \<and> clickListeners (step Click st) = [] \<and> touchListeners (step Click st) = []
         \<and> clickListeners (step Touch st) = [] \<and> touchListeners (step Touch st) = []
         \<and> (\<forall>v. videoRef st = Some v \<and> clickListeners st \<noteq> [] \<longrightarrow>
              videoRef (step Click st)
                = Some (v\<lparr>muted := False, volume := 1,
                         playCalls := playCalls v + length (clickListeners st)\<rparr>)
              \<and> videoRef (step Touch st)
                = Some (v\<lparr>muted := False, volume := 1,
                         playCalls := playCalls v + length (clickListeners st)\<rparr>))"
proof -
  have st: "settled st"
    unfolding assms by (rule settled_run)
  note pr = settled_paired [OF st]
  have 1: "i < length (pendingPlay st) \<and> pendingPlay st ! i \<longrightarrow>
            clickListeners (step (PlaySettled i False) st) = clickListeners st @ [nextListener st]
            \<and> touchListeners (step (PlaySettled i False) st) = touchListeners st @ [nextListener st]"
    by (simp add: listeners_playSettled)
  have 2: "e \<noteq> Click \<and> e \<noteq> Touch \<and> e \<noteq> Retry \<longrightarrow>
              (\<exists>new. clickListeners (step e st) = clickListeners st @ new
                     \<and> touchListeners (step e st) = touchListeners st @ new)"
    using listeners_kept_step by blast
  have 3: "mounted st \<and> presentationState st = Error (the (error st)) \<longrightarrow>
              clickListeners (step Retry st) = [] \<and> touchListeners (step Retry st) = []"
  proof
    assume a: "mounted st \<and> presentationState st = Error (the (error st))"
    have "clickListeners (commit (getLocalCamera st)) = touchListeners (commit (getLocalCamera st))"
      using pr by simp
    from dispatch_clears(1,2) [OF this] a
    show "clickListeners (step Retry st) = [] \<and> touchListeners (step Retry st) = []"
      by simp
  qed
  have 4: "\<not> (mounted st \<and> presentationState st = Error (the (error st))) \<longrightarrow> step Retry st = st"
    by simp
  have 5: "touchListeners st = clickListeners st"
    using pr by simp
  have 6: "step Click st = fold enableAudio (clickListeners st) st"
    "step Touch st = fold enableAudio (touchListeners st) st"
    by (simp_all add: dispatch_defs)
  have 7: "clickListeners (step Click st) = []" "touchListeners (step Click st) = []"
    "clickListeners (step Touch st) = []" "touchListeners (step Touch st) = []"
    using dispatch_clears [OF pr] by simp_all
  have 8: "\<forall>v. videoRef st = Some v \<and> clickListeners st \<noteq> [] \<longrightarrow>
              videoRef (step Click st)
                = Some (v\<lparr>muted := False, volume := 1,
                         playCalls := playCalls v + length (clickListeners st)\<rparr>)
              \<and> videoRef (step Touch st)
                = Some (v\<lparr>muted := False, volume := 1,
                         playCalls := playCalls v + length (clickListeners st)\<rparr>)"
    using videoRef_fold_enableAudio [of st _ "clickListeners st"] 5
    by (simp add: dispatch_defs)
  from 1 2 3 4 5 6 7 8 show ?thesis by (intro conjI)
qed

theorem unlock_bindings_accumulate_witness:
  "clickListeners (step (PlaySettled 0 False)
     (run [SetProps (Some (Ext 0)) True, PlaySettled 0 False, SetProps (Some (Ext 1)) True]
        (mount noTracks True None True))) = [0, 1]
   \<and> touchListeners (step (PlaySettled 0 False)
     (run [SetProps (Some (Ext 0)) True, PlaySettled 0 False, SetProps (Some (Ext 1)) True]
        (mount noTracks True None True))) = [0, 1]
   \<and> (\<exists>new. clickListeners (step Unmount
          (run [SetProps (Some (Ext 0)) True, PlaySettled 0 False, SetProps (Some (Ext 1)) True,
                PlaySettled 0 False] (mount noTracks True None True))) = [0, 1] @ new)
   \<and> clickListeners (step Click
     (run [SetProps (Some (Ext 0)) True, PlaySettled 0 False, SetProps (Some (Ext 1)) True,
           PlaySettled 0 False] (mount noTracks True None True))) = []
   \<and> videoRef (step Click
     (run [SetProps (Some (Ext 0)) True, PlaySettled 0 False, SetProps (Some (Ext 1)) True,
           PlaySettled 0 False] (mount noTracks True None True)))
       = Some \<lparr>srcObject = Some (Ext 1), muted = False, volume = 1, playCalls = 4\<rparr>
   \<and> step Retry (run [SetProps (Some (Ext 0)) True, PlaySettled 0 False]
        (mount noTracks True None True))
       = run [SetProps (Some (Ext 0)) True, PlaySettled 0 False] (mount noTracks True None True)
   \<and> clickListeners (step Retry
        (run [SetProps (Some (Ext 0)) True, PlaySettled 0 False, SetProps None False,
              GumRejected ''Permission denied''] (mount noTracks True None True))) = []"
proof -
  let ?a = "run [SetProps (Some (Ext 0)) True, PlaySettled 0 False, SetProps (Some (Ext 1)) True]
        (mount noTracks True None True)"
  let ?b = "run [SetProps (Some (Ext 0)) True, PlaySettled 0 False, SetProps (Some (Ext 1)) True,
           PlaySettled 0 False] (mount noTracks True None True)"
  let ?c = "run [SetProps (Some (Ext 0)) True, PlaySettled 0 False] (mount noTracks True None True)"
  let ?d = "run [SetProps (Some (Ext 0)) True, PlaySettled 0 False, SetProps None False,
              GumRejected ''Permission denied''] (mount noTracks True None True)"
  have a: "0 < length (pendingPlay ?a) \<and> pendingPlay ?a ! 0"
    "clickListeners ?a = [0]" "touchListeners ?a = [0]" "nextListener ?a = 1"
    by (simp_all add: model_defs)
  have b: "clickListeners ?b = [0, 1]"
    "videoRef ?b = Some \<lparr>srcObject = Some (Ext 1), muted = False, volume = 1, playCalls = 2\<rparr>"
    by (simp_all add: model_defs)
  have c: "\<not> (mounted ?c \<and> presentationState ?c = Error (the (error ?c)))"
    by (simp add: model_defs)
  have d: "mounted ?d \<and> presentationState ?d = Error (the (error ?d))"
    by (simp add: model_defs)
  note A = unlock_bindings_accumulate [of ?a _ noTracks True None True 0, OF refl]
  from A [THEN conjunct1, THEN mp, OF a(1)] a(2,3,4)
  have 1: "clickListeners (step (PlaySettled 0 False) ?a) = [0, 1]"
    "touchListeners (step (PlaySettled 0 False) ?a) = [0, 1]"
    by simp_all
  note B = unlock_bindings_accumulate [of ?b _ noTracks True None True _ Unmount, OF refl]
  have ne: "Unmount \<noteq> Click \<and> Unmount \<noteq> Touch \<and> Unmount \<noteq> Retry"
    by simp
  from B [THEN conjunct2, THEN conjunct1, THEN mp, OF ne] b(1)
  have 2: "\<exists>new. clickListeners (step Unmount ?b) = [0, 1] @ new"
    by auto
  from B [THEN conjunct2, THEN conjunct2, THEN conjunct2, THEN conjunct2, THEN conjunct2,
      THEN conjunct2, THEN conjunct2, THEN conjunct1]
  have 3: "clickListeners (step Click ?b) = []" .
  have v: "videoRef ?b = Some \<lparr>srcObject = Some (Ext 1), muted = False, volume = 1, playCalls = 2\<rparr>
      \<and> clickListeners ?b \<noteq> []"
    using b by simp
  from B [THEN conjunct2, THEN conjunct2, THEN conjunct2, THEN conjunct2, THEN conjunct2,
      THEN conjunct2, THEN conjunct2, THEN conjunct2, THEN conjunct2, THEN conjunct2,
      THEN conjunct2, THEN spec, THEN mp, OF v, THEN conjunct1] b(1)
  have 4: "videoRef (step Click ?b)
       = Some \<lparr>srcObject = Some (Ext 1), muted = False, volume = 1, playCalls = 4\<rparr>"
    by simp
  from unlock_bindings_accumulate [of ?c _ noTracks True None True, OF refl,
      THEN conjunct2, THEN conjunct2, THEN conjunct2, THEN conjunct1, THEN mp, OF c]
  have 5: "step Retry ?c = ?c" .
  from unlock_bindings_accumulate [of ?d _ noTracks True None True, OF refl,
      THEN conjunct2, THEN conjunct2, THEN conjunct1, THEN mp, OF d]
  have 6: "clickListeners (step Retry ?d) = []"
    by (rule conjunct1)
  from 1 2 3 4 5 6 show ?thesis by (intro conjI)
qed

text \<open>
  C3 as stated fails: a remote instance whose stream is replaced while the first start was
  blocked, and whose second start is blocked too, has two pending bindings for each event.
\<close>

theorem stacked_unlock_bindings_counterexample:
  "\<not> length (clickListeners
        (run [SetProps (Some (Ext 0)) True, PlaySettled 0 False,
              SetProps (Some (Ext 1)) True, PlaySettled 0 False]
           (mount noTracks True None True))) \<le> 1
   \<and> clickListeners
        (run [SetProps (Some (Ext 0)) True, PlaySettled 0 False,
              SetProps (Some (Ext 1)) True, PlaySettled 0 False]
           (mount noTracks True None True)) = [0, 1]
   \<and> touchListeners
        (run [SetProps (Some (Ext 0)) True, PlaySettled 0 False,
              SetProps (Some (Ext 1)) True, PlaySettled 0 False]
           (mount noTracks True None True)) = [0, 1]"
  by (simp add: model_defs)


subsection \<open>Unmounting\<close>

lemma isSpeaking_unmounted_step: "\<not> mounted st \<Longrightarrow> isSpeaking (step e st) = isSpeaking st"
  by (cases e)
     (simp_all add: dispatch_defs detectVolume_def Let_def timerFire_def setIsSpeaking_def
        setSession_def setTimeout_def clearTimeout_def split: option.splits)

lemma timers_detectVolume_loud:
  "20 < average d \<Longrightarrow> timers (detectVolume i d st) (nextTimer st) = Some (now st + 800)"
  by (simp add: detectVolume_def Let_def setSession_def setTimeout_def clearTimeout_def
      setIsSpeaking_def split: option.splits)

lemma unmount_eq:
  assumes "settled st" and "mounted st"
  shows "unmount st = st\<lparr>mounted := False, videoRef := None, observers := [],
                         stopped := stopped st \<union> set_option (localStream st)\<rparr>"
proof -
  note d = settled_deps [OF assms]
  have o: "observers st = handlersOn (currentStream st)"
    using settled_obs [OF assms] d by (simp add: currentStream_def)
  show ?thesis
    using d o assms(2)
    by (cases "stream st"; cases "localStream st")
       (simp_all add: unmount_def cleanupTrack_def cleanupLocal_def currentStream_def)
qed

lemma timerFire_unmounted:
  assumes "\<not> mounted st" and "timers st t = Some dl" and "dl \<le> now st"
  shows "step (TimerFire t) st = st\<lparr>timers := (timers st)(t := None)\<rparr>"
  using assms by (simp add: timerFire_def setIsSpeaking_def)

text \<open>
  C4 (as amended). Disposing the controller stops the tracks of the self-acquired local
  stream, removes the track handlers and detaches the video element, and that is all it
  does: every analyser and its sampling loop, every armed silence timer and every
  registered \<^verbatim>\<open>enableAudio\<close> listener stay as they were. After disposal a silence timer
  that is due still fires, and a sampling tick still reads its analyser and, on a stream
  that was not stopped, arms a new silence timer when the reading is above the threshold;
  what no longer happens is a change of \<^verbatim>\<open>isSpeaking\<close>, since the setters of an unmounted
  component do nothing.
\<close>

theorem unmount_leaves_sampling_running:
  assumes "st = run evs (mount tracks ok s r)"
  shows "(mounted st \<longrightarrow>
            step Unmount st = st\<lparr>mounted := False, videoRef := None, observers := [],
                                 stopped := stopped st \<union> set_option (localStream st)\<rparr>)
         \<and> (\<not> mounted st \<longrightarrow> step Unmount st = st)
         \<and> sessions (step Unmount st) = sessions st
         \<and> timers (step Unmount st) = timers st
         \<and> clickListeners (step Unmount st) = clickListeners st
         \<and> touchListeners (step Unmount st) = touchListeners st
         \<and> (i < length (sessions st) \<and> length d = frequencyBinCount \<and> 20 < average d
              \<and> source (sessions st ! i) \<notin> stopped (step Unmount st) \<longrightarrow>
              timers (step (Tick i d) (step Unmount st)) (nextTimer st) = Some (now st + 800))
         \<and> (timers st t = Some dl \<and> dl \<le> now st + n \<longrightarrow>
              step (TimerFire t) (step (Elapse n) (step Unmount st))
                = (step (Elapse n) (step Unmount st))\<lparr>timers := (timers st)(t := None)\<rparr>)
         \<and> (\<not> mounted st \<longrightarrow> isSpeaking (step e st) = isSpeaking st)"
proof -
  have st: "settled st"
    unfolding assms by (rule settled_run)
  have 1: "mounted st \<longrightarrow>
            step Unmount st = st\<lparr>mounted := False, videoRef := None, observers := [],
                                 stopped := stopped st \<union> set_option (localStream st)\<rparr>"
    using unmount_eq [OF st] by simp
  have 2: "\<not> mounted st \<longrightarrow> step Unmount st = st"
    by (simp add: unmount_def)
  have 3: "sessions (step Unmount st) = sessions st" "timers (step Unmount st) = timers st"
    "clickListeners (step Unmount st) = clickListeners st"
    "touchListeners (step Unmount st) = touchListeners st"
    by simp_all
  have 4: "i < length (sessions st) \<and> length d = frequencyBinCount \<and> 20 < average d
              \<and> source (sessions st ! i) \<notin> stopped (step Unmount st) \<longrightarrow>
              timers (step (Tick i d) (step Unmount st)) (nextTimer st) = Some (now st + 800)"
    using timers_detectVolume_loud [of d i "unmount st"] by simp
  have 5: "timers st t = Some dl \<and> dl \<le> now st + n \<longrightarrow>
              step (TimerFire t) (step (Elapse n) (step Unmount st))
                = (step (Elapse n) (step Unmount st))\<lparr>timers := (timers st)(t := None)\<rparr>"
  proof
    assume a: "timers st t = Some dl \<and> dl \<le> now st + n"
    let ?u = "step (Elapse n) (step Unmount st)"
    have "\<not> mounted ?u" "timers ?u t = Some dl" "dl \<le> now ?u" "timers ?u = timers st"
      using a by (simp_all add: unmount_def)
    from timerFire_unmounted [OF this(1,2,3)] this(4)
    show "step (TimerFire t) ?u = ?u\<lparr>timers := (timers st)(t := None)\<rparr>"
      by simp
  qed
  have 6: "\<not> mounted st \<longrightarrow> isSpeaking (step e st) = isSpeaking st"
    by (simp add: isSpeaking_unmounted_step)
  from 1 2 3 4 5 6 show ?thesis by (intro conjI)
qed

theorem unmount_leaves_sampling_running_witness:
  "step Unmount (run [GumResolved, Tick 0 (replicate 256 25)] (mount noTracks True None False))
     = (run [GumResolved, Tick 0 (replicate 256 25)] (mount noTracks True None False))
         \<lparr>mounted := False, videoRef := None, observers := [], stopped := {Own 0}\<rparr>
   \<and> step Unmount (run [Unmount] (mount noTracks True None False))
     = run [Unmount] (mount noTracks True None False)
   \<and> timers (step (Tick 0 (replicate 256 25))
        (step Unmount (run [TrackChange (Ext 0) 1, SetProps (Some (Ext 0)) False]
           (mount noTracks True None False)))) 1 = Some 800
   \<and> timers (step (TimerFire 1) (step (Elapse 800) (step Unmount
        (run [GumResolved, Tick 0 (replicate 256 25)] (mount noTracks True None False))))) 1 = None
   \<and> isSpeaking (step (TimerFire 1)
        (run [GumResolved, Tick 0 (replicate 256 25), Unmount, Elapse 800] (mount noTracks True None False)))"
proof -
  let ?st = "run [GumResolved, Tick 0 (replicate 256 25)] (mount noTracks True None False)"
  let ?un = "run [GumResolved, Tick 0 (replicate 256 25), Unmount, Elapse 800]
               (mount noTracks True None False)"
  let ?u1 = "run [Unmount] (mount noTracks True None False)"
  let ?ex = "run [TrackChange (Ext 0) 1, SetProps (Some (Ext 0)) False]
               (mount noTracks True None False)"
  have loud: "20 < average (replicate 256 25)"
    by (simp add: average_replicate)
  have f: "mounted ?st" "localStream ?st = Some (Own 0)" "stopped ?st = {}"
    using loud by (simp_all add: model_defs frequencyBinCount_def fftSize_def)
  have t: "timers ?st 1 = Some 800 \<and> 800 \<le> now ?st + 800"
    using loud by (simp add: model_defs frequencyBinCount_def fftSize_def)
  have g: "\<not> mounted ?un" "isSpeaking ?un"
    using loud by (simp_all add: model_defs frequencyBinCount_def fftSize_def)
  have u: "\<not> mounted ?u1"
    by (simp add: model_defs unmount_def)
  have x: "nextTimer ?ex = 1" "now ?ex = 0"
    by (simp_all add: model_defs frequencyBinCount_def fftSize_def average_replicate)
  have "stopped (step Unmount ?ex) = {}" "sessions ?ex = [\<lparr>source = Ext 0, silenceTimeout = None, lastLoud = None\<rparr>]"
    by (simp_all add: model_defs frequencyBinCount_def fftSize_def average_replicate unmount_def
        cleanupTrack_def cleanupLocal_def)
  then have h: "0 < length (sessions ?ex) \<and> length (replicate 256 (25 :: 8 word)) = frequencyBinCount
      \<and> 20 < average (replicate 256 25) \<and> source (sessions ?ex ! 0) \<notin> stopped (step Unmount ?ex)"
    using loud by (simp add: frequencyBinCount_def fftSize_def)
  note A = unmount_leaves_sampling_running [of ?st _ noTracks True None False _ _ 1 800 800, OF refl]
  from A [THEN conjunct1, THEN mp, OF f(1)] f(2,3)
  have 1: "step Unmount ?st
     = ?st\<lparr>mounted := False, videoRef := None, observers := [], stopped := {Own 0}\<rparr>"
    by simp
  from unmount_leaves_sampling_running [of ?u1 _ noTracks True None False, OF refl,
      THEN conjunct2, THEN conjunct1, THEN mp, OF u]
  have 2: "step Unmount ?u1 = ?u1" .
  from unmount_leaves_sampling_running [of ?ex _ noTracks True None False 0 "replicate 256 25",
      OF refl, THEN conjunct2, THEN conjunct2, THEN conjunct2, THEN conjunct2, THEN conjunct2,
      THEN conjunct2, THEN conjunct1, THEN mp, OF h] x
  have 3: "timers (step (Tick 0 (replicate 256 25)) (step Unmount ?ex)) 1 = Some 800"
    by simp
  from A [THEN conjunct2, THEN conjunct2, THEN conjunct2, THEN conjunct2, THEN conjunct2,
      THEN conjunct2, THEN conjunct2, THEN conjunct1, THEN mp, OF t]
  have "timers (step (TimerFire 1) (step (Elapse 800) (step Unmount ?st))) 1
      = timers ((step (Elapse 800) (step Unmount ?st))\<lparr>timers := (timers ?st)(1 := None)\<rparr>) 1"
    by (rule arg_cong [where f = "\<lambda>x. timers x 1"])
  then have 4: "timers (step (TimerFire 1) (step (Elapse 800) (step Unmount ?st))) 1 = None"
    by simp
  from unmount_leaves_sampling_running [of ?un _ noTracks True None False _ _ _ _ _ "TimerFire 1",
      OF refl, THEN conjunct2, THEN conjunct2, THEN conjunct2, THEN conjunct2, THEN conjunct2,
      THEN conjunct2, THEN conjunct2, THEN conjunct2, THEN mp, OF g(1)] g(2)
  have 5: "isSpeaking (step (TimerFire 1) ?un)"
    by simp
  from 1 2 3 4 5 show ?thesis by (intro conjI)
qed

text \<open>
  C4 as stated fails. A local instance was given a stream with an audio track by its
  parent and is then unmounted; the stream is not the component's own, so its tracks keep
  running. An animation frame after the unmount still runs \<^verbatim>\<open>detectVolume\<close>, which arms
  a new silence timer; and a silence timer armed before the unmount is still pending
  afterwards and fires when it is due.
\<close>

theorem sampling_after_unmount_counterexample:
  "\<not> mounted (run [TrackChange (Ext 0) 1, SetProps (Some (Ext 0)) False, Unmount]
                (mount noTracks True None False))
   \<and> map source (sessions (run [TrackChange (Ext 0) 1, SetProps (Some (Ext 0)) False, Unmount]
                (mount noTracks True None False))) = [Ext 0]
   \<and> Ext 0 \<notin> stopped (run [TrackChange (Ext 0) 1, SetProps (Some (Ext 0)) False, Unmount]
                (mount noTracks True None False))
   \<and> timers (run [TrackChange (Ext 0) 1, SetProps (Some (Ext 0)) False, Unmount]
                (mount noTracks True None False)) 1 = None
   \<and> timers (run [TrackChange (Ext 0) 1, SetProps (Some (Ext 0)) False, Unmount,
                  Tick 0 (replicate 256 25)]
              (mount noTracks True None False)) 1 = Some 800
   \<and> timers (run [TrackChange (Ext 0) 1, SetProps (Some (Ext 0)) False,
                  Tick 0 (replicate 256 25), Unmount, Elapse 800]
              (mount noTracks True None False)) 1 = Some 800
   \<and> timers (run [TrackChange (Ext 0) 1, SetProps (Some (Ext 0)) False,
                  Tick 0 (replicate 256 25), Unmount, Elapse 800, TimerFire 1]
              (mount noTracks True None False)) 1 = None"
  by (simp add: model_defs average_replicate frequencyBinCount_def fftSize_def)


subsection \<open>Failed acquisitions and retries\<close>

lemma presentationState_Error:
  "presentationState st = Error (the (error st)) \<longleftrightarrow> \<not> isLoading st \<and> hasError st"
  by (simp add: presentationState_def)

lemma stopped_commit_same:
  "deps st = Some (stream st, isRemote st, localStream st) \<Longrightarrow> stopped (commit st) = stopped st"
  by (simp add: stopped_commit localChanged_same)

lemma failure_step:
  assumes "settled st" and "failureOrRetry e"
  shows "localStream (step e st) = localStream st" and "stopped (step e st) = stopped st"
    and "gumCount (step e st) = gumCount st"
proof -
  have rej: "stopped (commit (gumRejected m st)) = stopped st" for m
  proof (cases "mounted st")
    case True
    have "deps (gumRejected m st)
            = Some (stream (gumRejected m st), isRemote (gumRejected m st), localStream (gumRejected m st))"
      using settled_deps [OF assms(1) True] by simp
    then show ?thesis using stopped_commit_same by fastforce
  next
    case False
    then show ?thesis by (simp add: commit_def)
  qed
  have ret: "mounted st \<Longrightarrow> stopped (commit (getLocalCamera st)) = stopped st"
  proof -
    assume m: "mounted st"
    have "deps (getLocalCamera st)
            = Some (stream (getLocalCamera st), isRemote (getLocalCamera st), localStream (getLocalCamera st))"
      using settled_deps [OF assms(1) m] by simp
    then show ?thesis using stopped_commit_same by fastforce
  qed
  show "localStream (step e st) = localStream st" and "gumCount (step e st) = gumCount st"
    using assms(2) by (cases e; simp add: dispatchClick_def)+
  show "stopped (step e st) = stopped st"
    using assms(2) rej ret by (cases e) (simp_all add: dispatchClick_def)
qed

lemma failure_run:
  assumes "settled st" and "\<forall>e \<in> set fs. failureOrRetry e"
  shows "localStream (run fs st) = localStream st \<and> stopped (run fs st) = stopped st
         \<and> gumCount (run fs st) = gumCount st"
  using assms
proof (induction fs arbitrary: st)
  case Nil
  show ?case by simp
next
  case (Cons e fs)
  then have e: "failureOrRetry e" and fs: "\<forall>e \<in> set fs. failureOrRetry e"
    by simp_all
  have "settled (step e st)"
    using Cons.prems(1) by (rule settled_step)
  from Cons.IH [OF this fs] failure_step [OF Cons.prems(1) e] show ?case by simp
qed

lemma pendingGum_Retry:
  assumes "settled st" and "mounted st" and "presentationState st = Error (the (error st))"
  shows "pendingGum (step Retry st) = Suc (pendingGum st)"
proof -
  have "deps (getLocalCamera st)
          = Some (stream (getLocalCamera st), isRemote (getLocalCamera st), localStream (getLocalCamera st))"
    using settled_deps [OF assms(1,2)] by simp
  then have "\<not> streamChanged (getLocalCamera st)"
    by (rule streamChanged_same)
  from commit_without_stream_change(3) [OF this] assms(2,3) show ?thesis
    by (simp add: dispatchClick_def getLocalCamera_def Let_def)
qed

lemma step_keeps_acquired:
  assumes "e \<noteq> GumResolved"
  shows "localStream (step e st) = localStream st" and "gumCount (step e st) = gumCount st"
  using assms by (cases e; simp add: dispatch_defs unmount_def)+

lemma stopped_step_mono: "stopped st \<subseteq> stopped (step e st)"
  by (cases e) (auto simp: stopped_commit stopped_unmount dispatch_defs)

lemma mounted_step: "mounted (step e st) \<Longrightarrow> mounted st"
  by (cases e) (auto simp: dispatch_defs unmount_def split: if_splits)

lemma gumCount_gumResolved: "gumCount (gumResolved st) = Suc (gumCount st)"
  by (simp add: gumResolved_def Let_def)

lemma stopped_gumResolved: "stopped (gumResolved st) = stopped st"
  by (simp add: gumResolved_def Let_def)

lemma deps_gumResolved: "deps (gumResolved st) = deps st"
  by (simp add: gumResolved_def Let_def)

lemma storedAcquired_step:
  assumes "storedAcquired st"
  shows "storedAcquired (step e st)"
proof (cases "e = GumResolved")
  case True
  show ?thesis
    using assms unfolding True storedAcquired_def
    by (auto simp: localStream_gumResolved gumCount_gumResolved)
next
  case False
  show ?thesis
    using assms step_keeps_acquired [OF False, of st] by (simp add: storedAcquired_def)
qed

lemma noLeak_step:
  assumes "settled st" and "storedAcquired st" and "mounted st" and "noLeak st"
  shows "noLeak (step e st)"
proof (cases "e = GumResolved")
  case False
  show ?thesis
    using assms(4) step_keeps_acquired [OF False, of st] stopped_step_mono [of st e]
    unfolding noLeak_def by auto
next
  case True
  show ?thesis
  proof (cases "0 < pendingGum st")
    case False
    then show ?thesis using assms(4) True by simp
  next
    case p: True
    have d: "deps (gumResolved st) = Some (stream st, isRemote st, localStream st)"
      using settled_deps [OF assms(1,3)] by (simp add: deps_gumResolved)
    have "localStream st \<noteq> Some (Own (gumCount st))"
      using assms(2) by (auto simp: storedAcquired_def)
    then have c: "localChanged (gumResolved st)"
      using d assms(3) by (simp add: localChanged_def localStream_gumResolved)
    have s: "stopped (step e st) = stopped st \<union> set_option (localStream st)"
      using True p c d assms(3) by (simp add: stopped_commit stopped_gumResolved)
    have l: "localStream (step e st) = Some (Own (gumCount st))"
      and g: "gumCount (step e st) = Suc (gumCount st)"
      using True p assms(3) by (simp_all add: localStream_gumResolved gumCount_gumResolved)
    show ?thesis
      unfolding noLeak_def
    proof (intro allI impI)
      fix k
      assume "k < gumCount (step e st)"
      then consider "k = gumCount st" | "k < gumCount st"
        using g by linarith
      then show "Own k \<in> stopped (step e st) \<or> localStream (step e st) = Some (Own k)"
      proof cases
        case 1
        then show ?thesis using l by simp
      next
        case 2
        with assms(4) have "Own k \<in> stopped st \<or> localStream st = Some (Own k)"
          by (simp add: noLeak_def)
        then show ?thesis using s by auto
      qed
    qed
  qed
qed

lemma mount_acquired:
  "localStream (mount tracks ok s r) = None" "gumCount (mount tracks ok s r) = 0"
  "stopped (mount tracks ok s r) = {}"
  by (simp_all add: mount_def stopped_commit) (simp_all add: fresh_def)

lemma noLeak_run:
  "storedAcquired (run evs (mount tracks ok s r))
   \<and> (mounted (run evs (mount tracks ok s r)) \<longrightarrow> noLeak (run evs (mount tracks ok s r)))"
proof (induction evs rule: rev_induct)
  case Nil
  show ?case by (simp add: storedAcquired_def noLeak_def mount_acquired)
next
  case (snoc e evs)
  let ?st = "run evs (mount tracks ok s r)"
  have st: "settled ?st"
    by (rule settled_run)
  have a: "storedAcquired (step e ?st)"
    using snoc by (simp add: storedAcquired_step)
  have "noLeak (step e ?st)" if "mounted (step e ?st)"
  proof -
    have m: "mounted ?st"
      using that by (rule mounted_step)
    with snoc have "noLeak ?st" by simp
    with st snoc m show ?thesis by (simp add: noLeak_step)
  qed
  with a show ?case by simp
qed

text \<open>
  C8. A rejected acquisition allocates nothing: it leaves the stored \<^verbatim>\<open>localStream\<close> as it
  is, stops no track and creates no stream, so there is never a partial handle for a
  retry to release. A click on Retry issues one new \<^verbatim>\<open>getUserMedia\<close> request. Over any
  number of consecutive failures and retries the stored handle, the set of stopped
  streams and the number of acquired streams do not change; from a new instance they
  stay at nothing stored, nothing acquired. And no acquired stream is ever lost while the
  component is mounted: each stream that \<^verbatim>\<open>getUserMedia\<close> has returned is the stored
  \<^verbatim>\<open>localStream\<close> or has had its tracks stopped.
\<close>

theorem failed_acquisition_keeps_handle:
  assumes "st = run evs (mount tracks ok s r)"
  shows "localStream (step (GumRejected m) st) = localStream st
         \<and> stopped (step (GumRejected m) st) = stopped st
         \<and> gumCount (step (GumRejected m) st) = gumCount st
         \<and> localStream (step Retry st) = localStream st
         \<and> stopped (step Retry st) = stopped st
         \<and> gumCount (step Retry st) = gumCount st
         \<and> (mounted st \<and> presentationState st = Error (the (error st)) \<longrightarrow>
              pendingGum (step Retry st) = Suc (pendingGum st))
         \<and> ((\<forall>e \<in> set fs. failureOrRetry e) \<longrightarrow>
              localStream (run fs st) = localStream st \<and> stopped (run fs st) = stopped st
              \<and> gumCount (run fs st) = gumCount st)
         \<and> ((\<forall>e \<in> set evs. failureOrRetry e) \<longrightarrow>
              localStream st = None \<and> stopped st = {} \<and> gumCount st = 0)
         \<and> (mounted st \<longrightarrow>
              (\<forall>k < gumCount st. Own k \<in> stopped st \<or> localStream st = Some (Own k)))"
proof -
  have st: "settled st"
    unfolding assms by (rule settled_run)
  have 1: "localStream (step (GumRejected m) st) = localStream st"
    "stopped (step (GumRejected m) st) = stopped st"
    "gumCount (step (GumRejected m) st) = gumCount st"
    using failure_step [OF st, of "GumRejected m"] by simp_all
  have 2: "localStream (step Retry st) = localStream st" "stopped (step Retry st) = stopped st"
    "gumCount (step Retry st) = gumCount st"
    using failure_step [OF st, of Retry] by simp_all
  have 3: "mounted st \<and> presentationState st = Error (the (error st)) \<longrightarrow>
              pendingGum (step Retry st) = Suc (pendingGum st)"
    using pendingGum_Retry [OF st] by blast
  have 4: "(\<forall>e \<in> set fs. failureOrRetry e) \<longrightarrow>
              localStream (run fs st) = localStream st \<and> stopped (run fs st) = stopped st
              \<and> gumCount (run fs st) = gumCount st"
    using failure_run [OF st] by blast
  have 5: "(\<forall>e \<in> set evs. failureOrRetry e) \<longrightarrow>
              localStream st = None \<and> stopped st = {} \<and> gumCount st = 0"
  proof
    assume "\<forall>e \<in> set evs. failureOrRetry e"
    from failure_run [OF settled_mount this, of tracks ok s r] show
      "localStream st = None \<and> stopped st = {} \<and> gumCount st = 0"
      unfolding assms by (simp add: mount_acquired)
  qed
  have 6: "mounted st \<longrightarrow>
              (\<forall>k < gumCount st. Own k \<in> stopped st \<or> localStream st = Some (Own k))"
    using noLeak_run [of evs tracks ok s r] unfolding assms noLeak_def by blast
  from 1 2 3 4 5 6 show ?thesis by (intro conjI)
qed

theorem failed_acquisition_keeps_handle_witness:
  "pendingGum (step Retry
      (run [GumRejected ''Permission denied''] (mount noTracks True None False))) = 1
   \<and> localStream (run [Retry, GumRejected ''Permission denied'', Retry, GumRejected ''Permission denied'']
      (run [GumRejected ''Permission denied''] (mount noTracks True None False))) = None
   \<and> stopped (run [Retry, GumRejected ''Permission denied'', Retry, GumRejected ''Permission denied'']
      (run [GumRejected ''Permission denied''] (mount noTracks True None False))) = {}
   \<and> gumCount (run [Retry, GumRejected ''Permission denied'', Retry, GumRejected ''Permission denied'']
      (run [GumRejected ''Permission denied''] (mount noTracks True None False))) = 0
   \<and> (Own 0 \<in> stopped
         (run [GumResolved, SetProps (Some (Ext 0)) False, SetProps None False,
               GumRejected ''Permission denied'', Retry, GumResolved]
            (mount noTracks True None False))
       \<or> localStream
         (run [GumResolved, SetProps (Some (Ext 0)) False, SetProps None False,
               GumRejected ''Permission denied'', Retry, GumResolved]
            (mount noTracks True None False)) = Some (Own 0))"
proof -
  let ?st = "run [GumRejected ''Permission denied''] (mount noTracks True None False)"
  let ?fs = "[Retry, GumRejected ''Permission denied'', Retry, GumRejected ''Permission denied'']"
  let ?u = "run [GumResolved, SetProps (Some (Ext 0)) False, SetProps None False,
               GumRejected ''Permission denied'', Retry, GumResolved]
            (mount noTracks True None False)"
  have f: "mounted ?st \<and> presentationState ?st = Error (the (error ?st))"
    by (simp add: model_defs)
  have p: "pendingGum ?st = 0"
    by (simp add: model_defs)
  have fs: "\<forall>e \<in> set ?fs. failureOrRetry e"
    by simp
  have es: "\<forall>e \<in> set [GumRejected ''Permission denied'']. failureOrRetry e"
    by simp
  have u: "mounted ?u" "0 < gumCount ?u"
    by (simp_all add: model_defs)
  note A = failed_acquisition_keeps_handle
    [of ?st "[GumRejected ''Permission denied'']" noTracks True None False _ ?fs, OF refl]
  from A [THEN conjunct2, THEN conjunct2, THEN conjunct2, THEN conjunct2, THEN conjunct2,
      THEN conjunct2, THEN conjunct1, THEN mp, OF f] p
  have 1: "pendingGum (step Retry ?st) = 1"
    by simp
  from A [THEN conjunct2, THEN conjunct2, THEN conjunct2, THEN conjunct2, THEN conjunct2,
      THEN conjunct2, THEN conjunct2, THEN conjunct2, THEN conjunct1, THEN mp, OF es]
  have 2: "localStream ?st = None \<and> stopped ?st = {} \<and> gumCount ?st = 0" .
  from A [THEN conjunct2, THEN conjunct2, THEN conjunct2, THEN conjunct2, THEN conjunct2,
      THEN conjunct2, THEN conjunct2, THEN conjunct1, THEN mp, OF fs] 2
  have 3: "localStream (run ?fs ?st) = None" "stopped (run ?fs ?st) = {}"
    "gumCount (run ?fs ?st) = 0"
    by simp_all
  from failed_acquisition_keeps_handle [of ?u _ noTracks True None False, OF refl,
      THEN conjunct2, THEN conjunct2, THEN conjunct2, THEN conjunct2, THEN conjunct2,
      THEN conjunct2, THEN conjunct2, THEN conjunct2, THEN conjunct2, THEN mp, OF u(1),
      THEN spec, THEN mp, OF u(2)]
  have 4: "Own 0 \<in> stopped ?u \<or> localStream ?u = Some (Own 0)" .
  from 1 3 4 show ?thesis by (intro conjI)
qed


subsection \<open>What a commit does to the sessions and to the video element\<close>

lemma sessions_audioEffect: "sessions (audioEffect st) = sessions st @ audioStart st"
  by (simp add: audioEffect_def audioStart_def setupAudioAnalyser_eq currentStream_def
      split: option.splits)

lemma audioStart_same:
  assumes "stream x = stream st" and "localStream x = localStream st"
    and "isRemote x = isRemote st" and "audioTracks x = audioTracks st"
    and "analyserOk x = analyserOk st"
  shows "audioStart x = audioStart st"
proof -
  have "currentStream x = currentStream st"
    using assms(1,2) by (simp add: currentStream_def cong: option.case_cong)
  then show ?thesis
    using assms(3,4,5) by (simp add: audioStart_def cong: option.case_cong)
qed

lemma sessions_runEffects:
  "sessions (runEffects c1 c4 st) = sessions st @ (if c1 \<or> c4 then audioStart st else [])"
proof -
  have "audioStart (trackEffect (streamEffect st)) = audioStart st"
    "audioStart (trackEffect st) = audioStart st"
    by (rule audioStart_same; simp)+
  then show ?thesis
    by (simp add: runEffects_def Let_def sessions_audioEffect)
qed

lemma sessions_commit:
  "sessions (commit st)
     = sessions st @ (if mounted st \<and> (streamChanged st \<or> localChanged st) then audioStart st else [])"
proof (cases "mounted st")
  case True
  let ?x = "runCleanups (streamChanged st) (localChanged st) (syncVideo st)"
  have "audioStart ?x = audioStart st"
    by (rule audioStart_same) simp_all
  with True show ?thesis
    by (simp add: commit_def Let_def sessions_runEffects)
next
  case False
  then show ?thesis by (simp add: commit_def)
qed

lemma sessions_commit_same:
  "deps st = Some (stream st, isRemote st, localStream st) \<Longrightarrow> sessions (commit st) = sessions st"
  by (simp add: sessions_commit streamChanged_same localChanged_same)



lemma videoRef_streamEffect:
  "stream st = Some x \<Longrightarrow> videoRef st = Some v \<Longrightarrow>
     videoRef (streamEffect st) = Some (v\<lparr>srcObject := Some x, playCalls := Suc (playCalls v)\<rparr>)"
  by (simp add: streamEffect_def playVideo_def onVideo_def)

lemma videoRef_commit_kept:
  assumes "\<not> streamChanged st" and "videoRef st = Some v" and "mounted st" and "\<not> isLoading st"
    and "\<not> hasError st" and "currentStream st \<noteq> None"
  shows "videoRef (commit st) = Some v"
  using assms by (simp add: commit_def Let_def runEffects_def syncVideo_def)

lemma syncVideo_keeps:
  assumes "mounted z" and "\<not> isLoading z" and "\<not> hasError z" and "currentStream z = Some c"
    and "videoRef z = Some v"
  shows "syncVideo z = z"
  using assms by (simp add: syncVideo_def)

lemma videoRef_commit_supplied:
  assumes "mounted st" and "\<not> isLoading st" and "\<not> hasError st" and "stream st = Some x"
    and "streamChanged st"
  shows "\<exists>v. videoRef (commit st) = Some v \<and> srcObject v = Some x"
proof -
  have c: "currentStream st = Some x"
    using assms(4) by (simp add: currentStream_def)
  obtain v where v: "videoRef (syncVideo st) = Some v"
    using videoRef_syncVideo [of st] assms c by auto
  let ?y = "runCleanups True (localChanged st) (syncVideo st)"
  have "videoRef ?y = Some v" "stream ?y = Some x"
    using v assms(4) by simp_all
  from videoRef_streamEffect [OF this(2,1)]
  have "videoRef (streamEffect ?y) = Some (v\<lparr>srcObject := Some x, playCalls := Suc (playCalls v)\<rparr>)" .
  then have "videoRef (recordDeps (runEffects True (localChanged st) ?y))
      = Some (v\<lparr>srcObject := Some x, playCalls := Suc (playCalls v)\<rparr>)"
    by (simp add: runEffects_def Let_def)
  moreover have "isLoading (recordDeps (runEffects True (localChanged st) ?y)) = isLoading st"
    "hasError (recordDeps (runEffects True (localChanged st) ?y)) = hasError st"
    "currentStream (recordDeps (runEffects True (localChanged st) ?y)) = currentStream st"
    "mounted (recordDeps (runEffects True (localChanged st) ?y))"
    using assms(1,4) by (simp_all add: runEffects_def Let_def streamEffect_def)
  ultimately have "videoRef (syncVideo (recordDeps (runEffects True (localChanged st) ?y)))
      = Some (v\<lparr>srcObject := Some x, playCalls := Suc (playCalls v)\<rparr>)"
    using assms(2,3) c by (simp add: syncVideo_keeps)
  moreover have "commit st = syncVideo (recordDeps (runEffects True (localChanged st) ?y))"
    using assms(1,5) by (simp add: commit_def Let_def)
  ultimately show ?thesis by simp
qed


subsection \<open>Analysis that cannot start\<close>















text \<open>
  A stream that is supplied when the instance is created: the progress indicator is
  shown, so there is no video element on which the stream effect could start the
  playback, and nothing is pending that could end the loading.
\<close>

lemma waiting_mount: "waiting (mount tracks ok (Some x) r)"
proof -
  let ?f = "fresh tracks ok (Some x) r"
  have "videoRef (syncVideo ?f) = None"
    using videoRef_syncVideo [of ?f] by (simp add: fresh_def)
  then have "streamEffect (runCleanups True True (syncVideo ?f)) = runCleanups True True (syncVideo ?f)"
    by (simp add: streamEffect_def fresh_def)
  moreover have "streamChanged ?f" "localChanged ?f" "mounted ?f"
    by (simp_all add: streamChanged_def localChanged_def fresh_def)
  ultimately have "isLoading (commit ?f) = isLoading ?f" "stream (commit ?f) = stream ?f"
    "pendingGum (commit ?f) = pendingGum ?f" "pendingPlay (commit ?f) = pendingPlay ?f"
    "pendingLocalPlay (commit ?f) = pendingLocalPlay ?f"
    by (simp_all add: commit_def Let_def runEffects_def)
  then show ?thesis
    by (simp add: waiting_def mount_def) (simp add: fresh_def)
qed

lemma waiting_step:
  assumes "waiting st" and "keepsProps e"
  shows "waiting (step e st)"
  using assms
  by (cases e) (simp_all add: waiting_def dispatch_defs presentationState_def unmount_def)

lemma waiting_run:
  assumes "waiting st" and "\<forall>e \<in> set evs. keepsProps e"
  shows "waiting (run evs st)"
  using assms
proof (induction evs arbitrary: st)
  case Nil
  then show ?case by simp
next
  case (Cons e evs)
  then have "waiting (step e st)"
    by (simp add: waiting_step)
  with Cons show ?case by simp
qed

lemma supplied_at_mount_stays_loading:
  assumes "\<forall>e \<in> set evs. keepsProps e"
  shows "presentationState (run evs (mount tracks ok (Some x) r)) = Loading"
  using waiting_run [OF waiting_mount assms] by (simp add: waiting_def presentationState_def)




subsection \<open>Which stream is current\<close>

lemma observers_settled:
  assumes "settled st" and "mounted st"
  shows "observers st = handlersOn (currentStream st)"
proof -
  from settled_deps [OF assms] have "depCurrent st = currentStream st"
    by (simp add: currentStream_def split: option.splits)
  with settled_obs [OF assms] show ?thesis by simp
qed

lemma supplied_attached:
  assumes "settled st" and "mounted st" and "\<not> isLoading st" and "\<not> hasError st"
    and "stream st \<noteq> Some x \<or> isRemote st \<noteq> r'"
  shows "\<exists>v. videoRef (step (SetProps (Some x) r') st) = Some v \<and> srcObject v = Some x"
proof -
  let ?y = "st\<lparr>stream := Some x, isRemote := r'\<rparr>"
  have "streamChanged ?y"
    using settled_deps [OF assms(1,2)] assms(5) by (auto simp: streamChanged_def)
  moreover have "\<not> hasError ?y"
    using assms(4) by (simp add: hasError_def)
  ultimately have "\<exists>v. videoRef (commit ?y) = Some v \<and> srcObject v = Some x"
    using assms(2,3) by (intro videoRef_commit_supplied) simp_all
  then show ?thesis using assms(2) by simp
qed

lemma supplied_analysed:
  assumes "settled st" and "mounted st"
  shows "sessions (step (SetProps (Some x) r') st)
           = sessions st
             @ (if (stream st \<noteq> Some x \<or> isRemote st \<noteq> r')
                   \<and> \<not> r' \<and> analyserOk st \<and> 0 < audioTracks st x
                then [\<lparr>source = x, silenceTimeout = None, lastLoud = None\<rparr>] else [])"
proof -
  let ?y = "st\<lparr>stream := Some x, isRemote := r'\<rparr>"
  note d = settled_deps [OF assms]
  have c: "streamChanged ?y \<longleftrightarrow> stream st \<noteq> Some x \<or> isRemote st \<noteq> r'"
    using d by (auto simp: streamChanged_def)
  have l: "\<not> localChanged ?y"
    using d by (simp add: localChanged_def)
  have a: "audioStart ?y = (if \<not> r' \<and> 0 < audioTracks st x \<and> analyserOk st
       then [\<lparr>source = x, silenceTimeout = None, lastLoud = None\<rparr>] else [])"
    by (simp add: audioStart_def currentStream_def)
  have "sessions (commit ?y) = sessions ?y @ (if streamChanged ?y then audioStart ?y else [])"
    using assms(2) l by (simp add: sessions_commit)
  then show ?thesis
    unfolding c a using assms(2) by auto
qed

lemma acquired_attached:
  assumes "settled st" and "0 < pendingGum st" and "videoRef st = Some v"
  shows "videoRef (step GumResolved st)
           = Some (v\<lparr>srcObject := Some (Own (gumCount st)), playCalls := Suc (playCalls v)\<rparr>)"
proof -
  let ?x = "gumResolved st"
  let ?v = "v\<lparr>srcObject := Some (Own (gumCount st)), playCalls := Suc (playCalls v)\<rparr>"
  have f: "mounted st" "\<not> isLoading st" "\<not> hasError st" "currentStream st \<noteq> None"
    using settled_videoD [OF assms(1)] assms(3) by simp_all
  have x: "videoRef ?x = Some ?v" "mounted ?x" "\<not> isLoading ?x" "error ?x = error st"
    "localStream ?x = Some (Own (gumCount st))" "stream ?x = stream st"
    using assms(3) f(1,2)
    by (simp_all add: gumResolved_def Let_def setLocalStream_def onVideo_def attachAndPlay_def)
  have "deps ?x = Some (stream ?x, isRemote ?x, localStream st)"
    using settled_deps [OF assms(1) f(1)] by (simp add: deps_gumResolved)
  then have "\<not> streamChanged ?x"
    by (simp add: streamChanged_def)
  moreover have "\<not> hasError ?x"
    using f(3) x(4) by (simp add: hasError_def)
  moreover have "currentStream ?x \<noteq> None"
    using x(5) by (simp add: currentStream_def split: option.splits)
  ultimately have "videoRef (commit ?x) = Some ?v"
    using x(1,2,3) by (intro videoRef_commit_kept) simp_all
  then show ?thesis using assms(2) by simp
qed

lemma sessions_gumResolved:
  "sessions (gumResolved st)
     = sessions st @ (if videoRef st = None \<and> analyserOk st
                      then [\<lparr>source = Own (gumCount st), silenceTimeout = None, lastLoud = None\<rparr>]
                      else [])"
  by (simp add: gumResolved_def Let_def setLocalStream_def setupAudioAnalyser_eq)

lemma acquired_analysed:
  assumes "settled st" and "storedAcquired st" and "mounted st" and "0 < pendingGum st"
    and "stream st = Some x"
  shows "sessions (step GumResolved st)
           = sessions st
             @ (if videoRef st = None \<and> analyserOk st
                then [\<lparr>source = Own (gumCount st), silenceTimeout = None, lastLoud = None\<rparr>]
                else [])
             @ (if \<not> isRemote st \<and> analyserOk st \<and> (x = Own (gumCount st) \<or> 0 < audioTracks st x)
                then [\<lparr>source = x, silenceTimeout = None, lastLoud = None\<rparr>] else [])"
proof -
  let ?x = "gumResolved st"
  have d: "deps ?x = Some (stream st, isRemote st, localStream st)"
    using settled_deps [OF assms(1,3)] by (simp add: deps_gumResolved)
  have "localStream st \<noteq> Some (Own (gumCount st))"
    using assms(2) by (auto simp: storedAcquired_def)
  then have c: "localChanged ?x"
    using d assms(3) by (simp add: localChanged_def localStream_gumResolved)
  have f: "stream ?x = Some x" "isRemote ?x = isRemote st" "analyserOk ?x = analyserOk st"
    "audioTracks ?x = (audioTracks st)(Own (gumCount st) := 1)" "mounted ?x"
    using assms(3,5) by (simp_all add: gumResolved_def Let_def)
  have a: "audioStart ?x
      = (if \<not> isRemote st \<and> analyserOk st \<and> (x = Own (gumCount st) \<or> 0 < audioTracks st x)
         then [\<lparr>source = x, silenceTimeout = None, lastLoud = None\<rparr>] else [])"
    using f by (auto simp: audioStart_def currentStream_def)
  show ?thesis
    using assms(4) c f(5) a by (simp add: sessions_commit sessions_gumResolved)
qed

lemma acquired_analysed_later:
  assumes "settled st" and "i < length (pendingLocalPlay st)"
  shows "sessions (step (LocalPlaySettled i b) st)
           = sessions st
             @ (if analyserOk st \<and> 0 < audioTracks st (pendingLocalPlay st ! i)
                then [\<lparr>source = pendingLocalPlay st ! i, silenceTimeout = None, lastLoud = None\<rparr>]
                else [])"
proof -
  let ?y = "st\<lparr>pendingLocalPlay := dropAt i (pendingLocalPlay st)\<rparr>"
  let ?x = "localPlaySettled (pendingLocalPlay st ! i) ?y"
  have s: "sessions ?x
      = sessions st
        @ (if analyserOk st \<and> 0 < audioTracks st (pendingLocalPlay st ! i)
           then [\<lparr>source = pendingLocalPlay st ! i, silenceTimeout = None, lastLoud = None\<rparr>]
           else [])"
    by (simp add: localPlaySettled_def setupAudioAnalyser_eq)
  have "sessions (commit ?x) = sessions ?x"
  proof (cases "mounted st")
    case True
    have "deps ?x = Some (stream ?x, isRemote ?x, localStream ?x)"
      using settled_deps [OF assms(1) True] by simp
    then show ?thesis by (rule sessions_commit_same)
  next
    case False
    then show ?thesis by (simp add: commit_def)
  qed
  with s assms(2) show ?thesis by simp
qed

text \<open>
  C10 (as amended). When a stream is supplied it is the current stream, and the
  self-acquired stream is current only when none is supplied. While the component is
  mounted the track handlers sit on the current stream, so the track changes of the
  supplied stream are the ones logged. When the parent supplies a stream, or changes
  \<^verbatim>\<open>isRemote\<close>, the stream effect attaches the supplied stream to the video element, if
  one is mounted (the instance is past loading and shows no error), and the audio effect
  starts an analysis of the supplied stream and of no other (on a local instance, when
  the stream has an audio track and the analyser can be built). No event ever removes an
  analysis that was started, or changes the stream it samples. And an acquisition that
  completes while a stream is supplied attaches the acquired stream to the video element,
  if one is mounted, and starts an analysis of the acquired stream, at once when no video
  element is mounted and otherwise when the playback start settles; the audio effect then
  runs again and starts one more analysis of the supplied stream.
\<close>

theorem supplied_stream_takes_precedence:
  assumes "st = run evs (mount tracks ok s r)"
  shows "(stream st = Some x \<longrightarrow> currentStream st = Some x)
         \<and> (stream st = None \<longrightarrow> currentStream st = localStream st)
         \<and> (mounted st \<longrightarrow> observers st = handlersOn (currentStream st))
         \<and> (mounted st \<and> stream st = Some x \<longrightarrow>
              trackLogs (step (TrackChange y n) st) = trackLogs st + (if y = x then 1 else 0))
         \<and> (mounted st \<and> \<not> isLoading st \<and> \<not> hasError st
              \<and> (stream st \<noteq> Some x \<or> isRemote st \<noteq> r') \<longrightarrow>
              (\<exists>v. videoRef (step (SetProps (Some x) r') st) = Some v \<and> srcObject v = Some x))
         \<and> (mounted st \<longrightarrow>
              sessions (step (SetProps (Some x) r') st)
                = sessions st
                  @ (if (stream st \<noteq> Some x \<or> isRemote st \<noteq> r')
                        \<and> \<not> r' \<and> analyserOk st \<and> 0 < audioTracks st x
                     then [\<lparr>source = x, silenceTimeout = None, lastLoud = None\<rparr>] else []))
         \<and> (\<exists>new. map source (sessions (step e st)) = map source (sessions st) @ new)
         \<and> (0 < pendingGum st \<and> videoRef st = Some v \<longrightarrow>
              videoRef (step GumResolved st)
                = Some (v\<lparr>srcObject := Some (Own (gumCount st)), playCalls := Suc (playCalls v)\<rparr>))
         \<and> (mounted st \<and> 0 < pendingGum st \<and> stream st = Some x \<longrightarrow>
              sessions (step GumResolved st)
                = sessions st
                  @ (if videoRef st = None \<and> analyserOk st
                     then [\<lparr>source = Own (gumCount st), silenceTimeout = None, lastLoud = None\<rparr>]
                     else [])
                  @ (if \<not> isRemote st \<and> analyserOk st
                        \<and> (x = Own (gumCount st) \<or> 0 < audioTracks st x)
                     then [\<lparr>source = x, silenceTimeout = None, lastLoud = None\<rparr>] else []))
         \<and> (i < length (pendingLocalPlay st) \<longrightarrow>
              sessions (step (LocalPlaySettled i b) st)
                = sessions st
                  @ (if analyserOk st \<and> 0 < audioTracks st (pendingLocalPlay st ! i)
                     then [\<lparr>source = pendingLocalPlay st ! i, silenceTimeout = None,
                             lastLoud = None\<rparr>]
                     else []))"
proof -
  have st: "settled st"
    unfolding assms by (rule settled_run)
  have sa: "storedAcquired st"
    unfolding assms using noLeak_run by blast
  have 1: "stream st = Some x \<longrightarrow> currentStream st = Some x"
    by (simp add: currentStream_def)
  have 2: "stream st = None \<longrightarrow> currentStream st = localStream st"
    by (simp add: currentStream_def)
  have 3: "mounted st \<longrightarrow> observers st = handlersOn (currentStream st)"
    using observers_settled [OF st] by blast
  have 4: "mounted st \<and> stream st = Some x \<longrightarrow>
              trackLogs (step (TrackChange y n) st) = trackLogs st + (if y = x then 1 else 0)"
    using 1 3 by (simp add: trackChange_def Let_def)
  have 5: "mounted st \<and> \<not> isLoading st \<and> \<not> hasError st
              \<and> (stream st \<noteq> Some x \<or> isRemote st \<noteq> r') \<longrightarrow>
              (\<exists>v. videoRef (step (SetProps (Some x) r') st) = Some v \<and> srcObject v = Some x)"
    using supplied_attached [OF st] by blast
  have 6: "mounted st \<longrightarrow>
              sessions (step (SetProps (Some x) r') st)
                = sessions st
                  @ (if (stream st \<noteq> Some x \<or> isRemote st \<noteq> r')
                        \<and> \<not> r' \<and> analyserOk st \<and> 0 < audioTracks st x
                     then [\<lparr>source = x, silenceTimeout = None, lastLoud = None\<rparr>] else [])"
    using supplied_analysed [OF st] by blast
  have 7: "\<exists>new. map source (sessions (step e st)) = map source (sessions st) @ new"
    by (rule sources_step)
  have 8: "0 < pendingGum st \<and> videoRef st = Some v \<longrightarrow>
              videoRef (step GumResolved st)
                = Some (v\<lparr>srcObject := Some (Own (gumCount st)), playCalls := Suc (playCalls v)\<rparr>)"
    using acquired_attached [OF st] by blast
  have 9: "mounted st \<and> 0 < pendingGum st \<and> stream st = Some x \<longrightarrow>
              sessions (step GumResolved st)
                = sessions st
                  @ (if videoRef st = None \<and> analyserOk st
                     then [\<lparr>source = Own (gumCount st), silenceTimeout = None, lastLoud = None\<rparr>]
                     else [])
                  @ (if \<not> isRemote st \<and> analyserOk st
                        \<and> (x = Own (gumCount st) \<or> 0 < audioTracks st x)
                     then [\<lparr>source = x, silenceTimeout = None, lastLoud = None\<rparr>] else [])"
    using acquired_analysed [OF st sa] by blast
  have 10: "i < length (pendingLocalPlay st) \<longrightarrow>
              sessions (step (LocalPlaySettled i b) st)
                = sessions st
                  @ (if analyserOk st \<and> 0 < audioTracks st (pendingLocalPlay st ! i)
                     then [\<lparr>source = pendingLocalPlay st ! i, silenceTimeout = None,
                             lastLoud = None\<rparr>]
                     else [])"
    using acquired_analysed_later [OF st] by blast
  from 1 2 3 4 5 6 7 8 9 10 show ?thesis by (intro conjI)
qed

theorem supplied_stream_takes_precedence_witness:
  "currentStream (run [GumResolved, TrackChange (Ext 0) 1, SetProps (Some (Ext 0)) False]
      (mount noTracks True None False)) = Some (Ext 0)
   \<and> currentStream (run [GumResolved] (mount noTracks True None False)) = Some (Own 0)
   \<and> observers (run [GumResolved, TrackChange (Ext 0) 1, SetProps (Some (Ext 0)) False]
      (mount noTracks True None False)) = [Ext 0]
   \<and> trackLogs (step (TrackChange (Own 0) 2)
        (run [GumResolved, TrackChange (Ext 0) 1, SetProps (Some (Ext 0)) False]
           (mount noTracks True None False))) = 0
   \<and> (\<exists>v. videoRef (step (SetProps (Some (Ext 0)) False)
          (run [GumResolved, TrackChange (Ext 0) 1] (mount noTracks True None False))) = Some v
        \<and> srcObject v = Some (Ext 0))
   \<and> map source (sessions (step (SetProps (Some (Ext 0)) False)
        (run [GumResolved, TrackChange (Ext 0) 1] (mount noTracks True None False))))
       = [Own 0, Own 0, Ext 0]
   \<and> videoRef (step GumResolved
        (run [SetProps None True, SetProps (Some (Ext 0)) True] (mount noTracks True None False)))
       = Some \<lparr>srcObject = Some (Own 0), muted = False, volume = 1, playCalls = 2\<rparr>
   \<and> map source (sessions (step GumResolved
        (run [TrackChange (Ext 0) 1, SetProps (Some (Ext 0)) False]
           (mount noTracks True None False))))
       = [Ext 0, Own 0, Ext 0]
   \<and> map source (sessions (step (LocalPlaySettled 0 True)
        (run [SetProps None True, SetProps (Some (Ext 0)) True, GumResolved]
           (mount noTracks True None False))))
       = [Own 0]"
proof -
  let ?a = "run [GumResolved, TrackChange (Ext 0) 1, SetProps (Some (Ext 0)) False]
              (mount noTracks True None False)"
  let ?b = "run [GumResolved] (mount noTracks True None False)"
  let ?c = "run [GumResolved, TrackChange (Ext 0) 1] (mount noTracks True None False)"
  let ?d = "run [SetProps None True, SetProps (Some (Ext 0)) True] (mount noTracks True None False)"
  let ?e = "run [TrackChange (Ext 0) 1, SetProps (Some (Ext 0)) False]
              (mount noTracks True None False)"
  let ?f = "run [SetProps None True, SetProps (Some (Ext 0)) True, GumResolved]
              (mount noTracks True None False)"
  have a: "stream ?a = Some (Ext 0)" "mounted ?a" "trackLogs ?a = 0"
    by (simp_all add: model_defs)
  have b: "stream ?b = None" "localStream ?b = Some (Own 0)"
    by (simp_all add: model_defs)
  have c: "mounted ?c \<and> \<not> isLoading ?c \<and> \<not> hasError ?c
      \<and> (stream ?c \<noteq> Some (Ext 0) \<or> isRemote ?c \<noteq> False)"
    by (simp add: model_defs)
  have c': "mounted ?c" "stream ?c = None" "analyserOk ?c" "audioTracks ?c (Ext 0) = 1"
    "map source (sessions ?c) = [Own 0, Own 0]"
    by (simp_all add: model_defs)
  have d: "0 < pendingGum ?d
      \<and> videoRef ?d = Some \<lparr>srcObject = Some (Ext 0), muted = False, volume = 1, playCalls = 1\<rparr>"
    by (simp add: model_defs)
  have d': "gumCount ?d = 0"
    by (simp add: model_defs)
  have e: "mounted ?e \<and> 0 < pendingGum ?e \<and> stream ?e = Some (Ext 0)"
    by (simp add: model_defs)
  have e': "videoRef ?e = None" "analyserOk ?e" "\<not> isRemote ?e" "audioTracks ?e (Ext 0) = 1"
    "gumCount ?e = 0" "map source (sessions ?e) = [Ext 0]"
    by (simp_all add: model_defs)
  have f: "0 < length (pendingLocalPlay ?f)"
    by (simp add: model_defs)
  have f': "pendingLocalPlay ?f = [Own 0]" "analyserOk ?f" "audioTracks ?f (Own 0) = 1"
    "sessions ?f = []"
    by (simp_all add: model_defs)
  note A = supplied_stream_takes_precedence
    [of ?a _ noTracks True None False "Ext 0" "Own 0" 2, OF refl]
  from A a
  have 1: "currentStream ?a = Some (Ext 0)" "observers ?a = [Ext 0]"
    "trackLogs (step (TrackChange (Own 0) 2) ?a) = 0"
    by simp_all
  from supplied_stream_takes_precedence [of ?b _ noTracks True None False, OF refl,
      THEN conjunct2, THEN conjunct1, THEN mp, OF b(1)] b(2)
  have 2: "currentStream ?b = Some (Own 0)"
    by simp
  note C = supplied_stream_takes_precedence
    [of ?c _ noTracks True None False "Ext 0" _ _ False, OF refl]
  from C [THEN conjunct2, THEN conjunct2, THEN conjunct2, THEN conjunct2, THEN conjunct1,
      THEN mp, OF c]
  have 3: "\<exists>v. videoRef (step (SetProps (Some (Ext 0)) False) ?c) = Some v
      \<and> srcObject v = Some (Ext 0)" .
  from C [THEN conjunct2, THEN conjunct2, THEN conjunct2, THEN conjunct2, THEN conjunct2,
      THEN conjunct1, THEN mp, OF c'(1)]
  have "map source (sessions (step (SetProps (Some (Ext 0)) False) ?c))
      = map source (sessions ?c
          @ (if (stream ?c \<noteq> Some (Ext 0) \<or> isRemote ?c \<noteq> False)
                \<and> \<not> False \<and> analyserOk ?c \<and> 0 < audioTracks ?c (Ext 0)
             then [\<lparr>source = Ext 0, silenceTimeout = None, lastLoud = None\<rparr>] else []))"
    by (rule arg_cong)
  with c' have 4: "map source (sessions (step (SetProps (Some (Ext 0)) False) ?c))
      = [Own 0, Own 0, Ext 0]"
    by simp
  from supplied_stream_takes_precedence [of ?d _ noTracks True None False, OF refl,
      THEN conjunct2, THEN conjunct2, THEN conjunct2, THEN conjunct2, THEN conjunct2,
      THEN conjunct2, THEN conjunct2, THEN conjunct1, THEN mp, OF d] d'
  have 5: "videoRef (step GumResolved ?d)
       = Some \<lparr>srcObject = Some (Own 0), muted = False, volume = 1, playCalls = 2\<rparr>"
    by simp
  from supplied_stream_takes_precedence [of ?e _ noTracks True None False "Ext 0", OF refl,
      THEN conjunct2, THEN conjunct2, THEN conjunct2, THEN conjunct2, THEN conjunct2,
      THEN conjunct2, THEN conjunct2, THEN conjunct2, THEN conjunct1, THEN mp, OF e]
  have "map source (sessions (step GumResolved ?e))
      = map source (sessions ?e
          @ (if videoRef ?e = None \<and> analyserOk ?e
             then [\<lparr>source = Own (gumCount ?e), silenceTimeout = None, lastLoud = None\<rparr>]
             else [])
          @ (if \<not> isRemote ?e \<and> analyserOk ?e
                \<and> (Ext 0 = Own (gumCount ?e) \<or> 0 < audioTracks ?e (Ext 0))
             then [\<lparr>source = Ext 0, silenceTimeout = None, lastLoud = None\<rparr>] else []))"
    by (rule arg_cong)
  with e' have 6: "map source (sessions (step GumResolved ?e)) = [Ext 0, Own 0, Ext 0]"
    by simp
  from supplied_stream_takes_precedence [of ?f _ noTracks True None False _ _ _ _ _ _ 0 True,
      OF refl, THEN conjunct2, THEN conjunct2, THEN conjunct2, THEN conjunct2, THEN conjunct2,
      THEN conjunct2, THEN conjunct2, THEN conjunct2, THEN conjunct2, THEN mp, OF f]
  have "map source (sessions (step (LocalPlaySettled 0 True) ?f))
      = map source (sessions ?f
          @ (if analyserOk ?f \<and> 0 < audioTracks ?f (pendingLocalPlay ?f ! 0)
             then [\<lparr>source = pendingLocalPlay ?f ! 0, silenceTimeout = None, lastLoud = None\<rparr>]
             else []))"
    by (rule arg_cong)
  with f' have 7: "map source (sessions (step (LocalPlaySettled 0 True) ?f)) = [Own 0]"
    by simp
  from 1(1) 2 1(2,3) 3 4 5 6 7 show ?thesis by (intro conjI)
qed

text \<open>
  C10 as stated fails. A local instance acquires its camera and is then given a stream
  by the parent: the two analysers of the acquired stream keep running and a loud
  reading of theirs sets \<^verbatim>\<open>isSpeaking\<close>, although a stream is supplied. And when an
  acquisition completes while a supplied stream is shown, line 100 attaches the acquired
  stream to the video element in its place.
\<close>

theorem acquired_stream_still_used_counterexample:
  "stream (run [GumResolved, TrackChange (Ext 0) 1, SetProps (Some (Ext 0)) False]
      (mount noTracks True None False)) = Some (Ext 0)
   \<and> map source (sessions (run [GumResolved, TrackChange (Ext 0) 1, SetProps (Some (Ext 0)) False]
      (mount noTracks True None False))) = [Own 0, Own 0, Ext 0]
   \<and> isSpeaking (run [GumResolved, TrackChange (Ext 0) 1, SetProps (Some (Ext 0)) False,
                      Tick 0 (replicate 256 25)]
      (mount noTracks True None False))
   \<and> stream (run [SetProps None True, SetProps (Some (Ext 0)) True, GumResolved]
      (mount noTracks True None False)) = Some (Ext 0)
   \<and> videoRef (run [SetProps None True, SetProps (Some (Ext 0)) True, GumResolved]
      (mount noTracks True None False))
       = Some \<lparr>srcObject = Some (Own 0), muted = False, volume = 1, playCalls = 2\<rparr>"
  by (simp add: model_defs average_replicate frequencyBinCount_def fftSize_def)


subsection \<open>The sampling tick and the silence timer\<close>

lemma detectVolume_loud:
  assumes "20 < average d"
  shows "timers (detectVolume i d st)
           = (case silenceTimeout (sessions st ! i) of
                Some t \<Rightarrow> if t \<noteq> 0 then (timers st)(t := None) else timers st
              | None \<Rightarrow> timers st)(nextTimer st \<mapsto> now st + 800)"
    and "nextTimer (detectVolume i d st) = Suc (nextTimer st)"
    and "sessions (detectVolume i d st)
           = (sessions st)[i := (sessions st ! i)\<lparr>silenceTimeout := Some (nextTimer st),
                                                 lastLoud := Some (now st)\<rparr>]"
    and "isSpeaking (detectVolume i d st) = (mounted st \<or> isSpeaking st)"
  using assms
  by (simp_all add: detectVolume_def Let_def setSession_def setTimeout_def clearTimeout_def
      setIsSpeaking_def split: option.splits)

lemma timersOk_detectVolume:
  assumes ok: "timersOk st" and i: "i < length (sessions st)" and loud: "20 < average d"
  shows "timersOk (detectVolume i d st)"
proof -
  let ?s = "sessions st ! i"
  let ?n = "nextTimer st"
  let ?s' = "?s\<lparr>silenceTimeout := Some ?n, lastLoud := Some (now st)\<rparr>"
  let ?T = "case silenceTimeout ?s of
              Some t \<Rightarrow> if t \<noteq> 0 then (timers st)(t := None) else timers st
            | None \<Rightarrow> timers st"
  let ?st' = "detectVolume i d st"
  note dv = detectVolume_loud [OF loud, of i st]
  have n: "0 < ?n"
    using ok by (simp add: timersOk_def)
  have old_pos: "0 < t \<and> t < ?n" if "silenceTimeout ?s = Some t" for t
    using ok i that unfolding timersOk_def by blast
  have T_old: "timers st t = Some dl \<and> silenceTimeout ?s \<noteq> Some t" if "?T t = Some dl" for t dl
  proof (cases "silenceTimeout ?s")
    case None
    with that show ?thesis by simp
  next
    case (Some t0)
    with old_pos [of t0] have "t0 \<noteq> 0" by simp
    with Some that show ?thesis by (simp split: if_splits)
  qed
  have len: "length (sessions ?st') = length (sessions st)"
    by (simp add: dv(3))
  have nth_i: "sessions ?st' ! i = ?s'"
    using i by (simp add: dv(3))
  have nth_other: "sessions ?st' ! j = sessions st ! j" if "j \<noteq> i" for j
    using that by (simp add: dv(3))
  have 1: "0 < nextTimer ?st'"
    by (simp add: dv(2))
  have 2: "0 < t \<and> t < nextTimer ?st'
           \<and> (\<exists>j u. j < length (sessions ?st') \<and> silenceTimeout (sessions ?st' ! j) = Some t
                 \<and> lastLoud (sessions ?st' ! j) = Some u \<and> dl = u + 800 \<and> u \<le> now ?st')"
    if t: "timers ?st' t = Some dl" for t dl
  proof (cases "t = ?n")
    case True
    with t have "dl = now st + 800"
      by (simp add: dv(1))
    with True n i nth_i show ?thesis
      by (auto simp: dv(2) len)
  next
    case False
    with t have "?T t = Some dl"
      by (simp add: dv(1))
    from T_old [OF this] have tm: "timers st t = Some dl" and ne: "silenceTimeout ?s \<noteq> Some t"
      by simp_all
    from ok tm obtain j u where j: "j < length (sessions st)"
      "silenceTimeout (sessions st ! j) = Some t" "lastLoud (sessions st ! j) = Some u"
      "dl = u + 800" "u \<le> now st" and tb: "0 < t" "t < ?n"
      unfolding timersOk_def by blast
    from j(2) ne have "j \<noteq> i" by auto
    with j nth_other [of j] have "j < length (sessions ?st') \<and> silenceTimeout (sessions ?st' ! j) = Some t
                 \<and> lastLoud (sessions ?st' ! j) = Some u \<and> dl = u + 800 \<and> u \<le> now ?st'"
      by (simp add: len)
    with tb show ?thesis
      by (auto simp: dv(2))
  qed
  have 3: "0 < t \<and> t < nextTimer ?st'"
    if "j < length (sessions ?st') \<and> silenceTimeout (sessions ?st' ! j) = Some t" for j t
  proof (cases "j = i")
    case True
    with that nth_i n show ?thesis
      by (simp add: dv(2))
  next
    case False
    with that nth_other [of j] len have "j < length (sessions st)"
      "silenceTimeout (sessions st ! j) = Some t"
      by simp_all
    with ok have "0 < t \<and> t < ?n"
      unfolding timersOk_def by blast
    then show ?thesis by (simp add: dv(2))
  qed
  show ?thesis
    unfolding timersOk_def using 1 2 3 by blast
qed

lemma timersOk_appended:
  assumes ok: "timersOk st" and app: "appended st st'"
    and same: "timers st' = timers st" "nextTimer st' = nextTimer st" "now st' = now st"
  shows "timersOk st'"
proof -
  from app obtain new where new: "sessions st' = sessions st @ new"
    "\<forall>x \<in> set new. silenceTimeout x = None \<and> lastLoud x = None"
    unfolding appended_def by blast
  have old: "sessions st' ! j = sessions st ! j" if "j < length (sessions st)" for j
    using that by (simp add: new(1) nth_append)
  have 2: "0 < t \<and> t < nextTimer st'
           \<and> (\<exists>j u. j < length (sessions st') \<and> silenceTimeout (sessions st' ! j) = Some t
                 \<and> lastLoud (sessions st' ! j) = Some u \<and> dl = u + 800 \<and> u \<le> now st')"
    if "timers st' t = Some dl" for t dl
  proof -
    from that ok same obtain j u where j: "j < length (sessions st)"
      "silenceTimeout (sessions st ! j) = Some t" "lastLoud (sessions st ! j) = Some u"
      "dl = u + 800" "u \<le> now st" and tb: "0 < t" "t < nextTimer st"
      unfolding timersOk_def by metis
    from j old [of j] have "j < length (sessions st') \<and> silenceTimeout (sessions st' ! j) = Some t
                 \<and> lastLoud (sessions st' ! j) = Some u \<and> dl = u + 800 \<and> u \<le> now st'"
      by (simp add: new(1) same)
    with tb show ?thesis by (auto simp: same)
  qed
  have 3: "0 < t \<and> t < nextTimer st'"
    if j: "j < length (sessions st') \<and> silenceTimeout (sessions st' ! j) = Some t" for j t
  proof (cases "j < length (sessions st)")
    case True
    with j old [of j] ok show ?thesis
      unfolding timersOk_def same by metis
  next
    case False
    with j have "j - length (sessions st) < length new"
      by (auto simp: new(1))
    then have "new ! (j - length (sessions st)) \<in> set new"
      by (rule nth_mem)
    with new(2) have "silenceTimeout (new ! (j - length (sessions st))) = None"
      by blast
    with j False show ?thesis
      by (simp add: new(1) nth_append)
  qed
  have "0 < nextTimer st'"
    using ok by (simp add: timersOk_def same)
  with 2 3 show ?thesis
    unfolding timersOk_def by blast
qed

lemma timersOk_sub:
  assumes ok: "timersOk st" and same: "sessions st' = sessions st" "nextTimer st' = nextTimer st"
    and later: "now st \<le> now st'"
    and sub: "\<And>t d. timers st' t = Some d \<Longrightarrow> timers st t = Some d"
  shows "timersOk st'"
proof -
  have 2: "0 < t \<and> t < nextTimer st'
           \<and> (\<exists>j u. j < length (sessions st') \<and> silenceTimeout (sessions st' ! j) = Some t
                 \<and> lastLoud (sessions st' ! j) = Some u \<and> dl = u + 800 \<and> u \<le> now st')"
    if "timers st' t = Some dl" for t dl
  proof -
    from sub [OF that] ok obtain j u where j: "j < length (sessions st)"
      "silenceTimeout (sessions st ! j) = Some t" "lastLoud (sessions st ! j) = Some u"
      "dl = u + 800" "u \<le> now st" and tb: "0 < t" "t < nextTimer st"
      unfolding timersOk_def by blast
    from j later have "j < length (sessions st') \<and> silenceTimeout (sessions st' ! j) = Some t
                 \<and> lastLoud (sessions st' ! j) = Some u \<and> dl = u + 800 \<and> u \<le> now st'"
      by (simp add: same)
    with tb show ?thesis by (auto simp: same)
  qed
  have 3: "0 < t \<and> t < nextTimer st'"
    if "j < length (sessions st') \<and> silenceTimeout (sessions st' ! j) = Some t" for j t
    using that ok unfolding timersOk_def same by blast
  have "0 < nextTimer st'"
    using ok by (simp add: timersOk_def same)
  with 2 3 show ?thesis
    unfolding timersOk_def by blast
qed

lemma appended_step:
  assumes "\<And>i d. e \<noteq> Tick i d"
  shows "appended st (step e st)"
proof -
  have comm: "\<And>st'. sessions st' = sessions st \<Longrightarrow> appended st (commit st')"
    using appended_commit appended_same appended_trans by blast
  show ?thesis
  proof (cases e)
    case GumResolved
    then show ?thesis
      using appended_trans [OF appended_gumResolved appended_commit] by (simp add: appended_refl)
  next
    case (LocalPlaySettled i ok)
    then show ?thesis
      using appended_trans [OF appended_localPlaySettled appended_commit] by (simp add: appended_refl)
  next
    case (Tick i d)
    with assms show ?thesis by blast
  next
    case Retry
    have "appended st (commit (getLocalCamera st))"
      by (rule comm) simp
    then have "appended st (dispatchClick (commit (getLocalCamera st)))"
      by (simp add: appended_def dispatchClick_def)
    with Retry show ?thesis by (simp add: appended_refl)
  qed (simp_all add: comm appended_refl appended_same dispatch_defs)
qed

lemma step_keeps_timers:
  assumes "\<And>i d. e \<noteq> Tick i d" and "\<And>t. e \<noteq> TimerFire t" and "\<And>n. e \<noteq> Elapse n"
  shows "timers (step e st) = timers st" and "nextTimer (step e st) = nextTimer st"
    and "now (step e st) = now st"
  using assms by (cases e; simp add: dispatch_defs)+

lemma timersOk_step:
  assumes "timersOk st"
  shows "timersOk (step e st)"
proof -
  consider (tick) i d where "e = Tick i d" | (elapse) n where "e = Elapse n"
    | (fire) t where "e = TimerFire t"
    | (other) "\<And>i d. e \<noteq> Tick i d" "\<And>t. e \<noteq> TimerFire t" "\<And>n. e \<noteq> Elapse n"
    by (cases e) simp_all
  then show ?thesis
  proof cases
    case tick
    show ?thesis
    proof (cases "i < length (sessions st) \<and> length d = frequencyBinCount \<and> 20 < average d")
      case True
      with tick assms show ?thesis by (simp add: timersOk_detectVolume)
    next
      case False
      with tick assms show ?thesis by (auto simp: detectVolume_quiet)
    qed
  next
    case elapse
    from assms show ?thesis
      unfolding elapse by (rule timersOk_sub) simp_all
  next
    case fire
    have f: "timers (timerFire t st) t' = Some dl \<Longrightarrow> timers st t' = Some dl" for t' dl
      by (simp add: timerFire_def setIsSpeaking_def split: option.splits if_splits)
    from assms show ?thesis
      unfolding fire by (rule timersOk_sub) (simp_all add: f)
  next
    case other
    from assms appended_step [OF other(1)] step_keeps_timers [OF other]
    show ?thesis by (rule timersOk_appended)
  qed
qed

lemma timersOk_mount: "timersOk (mount tracks ok s r)"
proof -
  have "timersOk (fresh tracks ok s r)"
    by (simp add: timersOk_def fresh_def)
  then show ?thesis
    unfolding mount_def by (rule timersOk_appended) (simp_all add: appended_commit)
qed

lemma timersOk_run: "timersOk (run evs (mount tracks ok s r))"
  by (rule run_invariant) (simp_all add: timersOk_mount timersOk_step)

lemma isSpeaking_step_other:
  assumes "\<And>i d. e \<noteq> Tick i d" and "\<And>t. e \<noteq> TimerFire t"
  shows "isSpeaking (step e st) = isSpeaking st"
  using assms by (cases e; simp add: dispatch_defs)

lemma speaking_cleared_step:
  assumes "isSpeaking st" and "\<not> isSpeaking (step e st)"
  shows "\<exists>t dl. e = TimerFire t \<and> timers st t = Some dl \<and> dl \<le> now st"
proof -
  consider (tick) i d where "e = Tick i d" | (fire) t where "e = TimerFire t"
    | (other) "\<And>i d. e \<noteq> Tick i d" "\<And>t. e \<noteq> TimerFire t"
    by (cases e) simp_all
  then show ?thesis
  proof cases
    case tick
    have "isSpeaking (detectVolume i d st)"
      using assms(1) by (cases "20 < average d") (simp_all add: detectVolume_loud detectVolume_quiet)
    with tick assms show ?thesis
      by (simp split: if_splits)
  next
    case fire
    with assms show ?thesis
      by (auto simp: timerFire_def setIsSpeaking_def split: option.splits if_splits)
  next
    case other
    from isSpeaking_step_other [OF other] assms show ?thesis by simp
  qed
qed

lemma timers_detectVolume_other:
  assumes "20 < average d" and "t \<noteq> nextTimer st" and "silenceTimeout (sessions st ! i) \<noteq> Some t"
  shows "timers (detectVolume i d st) t = timers st t"
  using assms(2,3) by (simp add: detectVolume_loud(1) [OF assms(1)] split: option.splits)

lemma timerFire_due:
  assumes "timers st t = Some dl" and "dl \<le> now st"
  shows "mounted st \<longrightarrow> \<not> isSpeaking (step (TimerFire t) st)"
    and "timers (step (TimerFire t) st) t = None"
  using assms by (simp_all add: timerFire_def setIsSpeaking_def)

lemma timerFire_early:
  assumes "timers st t = Some dl" and "now st < dl"
  shows "step (TimerFire t) st = st"
  using assms by (simp add: timerFire_def)

text \<open>
  C1 (as amended). In each sampling loop, a tick whose mean magnitude is at most 20
  changes nothing: it does not touch \<^verbatim>\<open>isSpeaking\<close> and arms no timer. A tick whose mean
  magnitude is above 20 sets \<^verbatim>\<open>isSpeaking\<close> of the mounted component to true in that tick,
  clears the timer that this loop armed before and no other timer, and arms a new one,
  due 800 ms later. \<^verbatim>\<open>isSpeaking\<close> goes from true to false only when a silence timer
  fires; a timer that is due and fires clears \<^verbatim>\<open>isSpeaking\<close>, and no timer fires before
  it is due. A pending timer is always the one armed at the last reading above 20 of its
  own loop, due 800 ms after that reading: it fires only after 800 ms in which that loop
  had no further reading above the threshold, whatever the other loops have read.
\<close>

theorem sampling_tick_hysteresis:
  assumes "st = run evs (mount tracks ok s r)"
  shows "(i < length (sessions st) \<and> length d = frequencyBinCount \<longrightarrow>
            (average d \<le> 20 \<longrightarrow> step (Tick i d) st = st)
            \<and> (20 < average d \<longrightarrow>
                 (mounted st \<longrightarrow> isSpeaking (step (Tick i d) st))
                 \<and> timers (step (Tick i d) st) (nextTimer st) = Some (now st + 800)
                 \<and> silenceTimeout (sessions (step (Tick i d) st) ! i) = Some (nextTimer st)
                 \<and> lastLoud (sessions (step (Tick i d) st) ! i) = Some (now st)
                 \<and> (\<forall>t. silenceTimeout (sessions st ! i) = Some t \<longrightarrow>
                       timers (step (Tick i d) st) t = None)
                 \<and> (\<forall>t. t \<noteq> nextTimer st \<and> silenceTimeout (sessions st ! i) \<noteq> Some t \<longrightarrow>
                       timers (step (Tick i d) st) t = timers st t)))
         \<and> (isSpeaking st \<and> \<not> isSpeaking (step e st) \<longrightarrow>
              (\<exists>t dl. e = TimerFire t \<and> timers st t = Some dl \<and> dl \<le> now st))
         \<and> (\<forall>t dl. timers st t = Some dl \<longrightarrow>
              (\<exists>j u. j < length (sessions st) \<and> silenceTimeout (sessions st ! j) = Some t
                    \<and> lastLoud (sessions st ! j) = Some u \<and> dl = u + 800 \<and> u \<le> now st))
         \<and> (\<forall>t dl. timers st t = Some dl \<longrightarrow>
              (dl \<le> now st \<longrightarrow>
                 (mounted st \<longrightarrow> \<not> isSpeaking (step (TimerFire t) st))
                 \<and> timers (step (TimerFire t) st) t = None)
              \<and> (now st < dl \<longrightarrow> step (TimerFire t) st = st))"
proof -
  have ok: "timersOk st"
    unfolding assms by (rule timersOk_run)
  have 1: "i < length (sessions st) \<and> length d = frequencyBinCount \<longrightarrow>
            (average d \<le> 20 \<longrightarrow> step (Tick i d) st = st)
            \<and> (20 < average d \<longrightarrow>
                 (mounted st \<longrightarrow> isSpeaking (step (Tick i d) st))
                 \<and> timers (step (Tick i d) st) (nextTimer st) = Some (now st + 800)
                 \<and> silenceTimeout (sessions (step (Tick i d) st) ! i) = Some (nextTimer st)
                 \<and> lastLoud (sessions (step (Tick i d) st) ! i) = Some (now st)
                 \<and> (\<forall>t. silenceTimeout (sessions st ! i) = Some t \<longrightarrow>
                       timers (step (Tick i d) st) t = None)
                 \<and> (\<forall>t. t \<noteq> nextTimer st \<and> silenceTimeout (sessions st ! i) \<noteq> Some t \<longrightarrow>
                       timers (step (Tick i d) st) t = timers st t))"
  proof (intro impI conjI allI)
    assume "i < length (sessions st) \<and> length d = frequencyBinCount" and "average d \<le> 20"
    then show "step (Tick i d) st = st"
      by (simp add: detectVolume_quiet)
  next
    assume a: "i < length (sessions st) \<and> length d = frequencyBinCount" and "20 < average d"
      and "mounted st"
    then show "isSpeaking (step (Tick i d) st)"
      by (simp add: detectVolume_loud)
  next
    assume a: "i < length (sessions st) \<and> length d = frequencyBinCount" and "20 < average d"
    then show "timers (step (Tick i d) st) (nextTimer st) = Some (now st + 800)"
      by (simp add: detectVolume_loud)
  next
    assume a: "i < length (sessions st) \<and> length d = frequencyBinCount" and "20 < average d"
    then show "silenceTimeout (sessions (step (Tick i d) st) ! i) = Some (nextTimer st)"
      by (simp add: detectVolume_loud)
  next
    assume a: "i < length (sessions st) \<and> length d = frequencyBinCount" and "20 < average d"
    then show "lastLoud (sessions (step (Tick i d) st) ! i) = Some (now st)"
      by (simp add: detectVolume_loud)
  next
    fix t
    assume a: "i < length (sessions st) \<and> length d = frequencyBinCount" and l: "20 < average d"
      and t: "silenceTimeout (sessions st ! i) = Some t"
    with ok have "0 < t \<and> t < nextTimer st"
      unfolding timersOk_def by blast
    with a t show "timers (step (Tick i d) st) t = None"
      by (simp add: detectVolume_loud [OF l])
  next
    fix t
    assume a: "i < length (sessions st) \<and> length d = frequencyBinCount" and l: "20 < average d"
      and t: "t \<noteq> nextTimer st \<and> silenceTimeout (sessions st ! i) \<noteq> Some t"
    then show "timers (step (Tick i d) st) t = timers st t"
      by (simp add: timers_detectVolume_other)
  qed
  have 2: "isSpeaking st \<and> \<not> isSpeaking (step e st) \<longrightarrow>
              (\<exists>t dl. e = TimerFire t \<and> timers st t = Some dl \<and> dl \<le> now st)"
    using speaking_cleared_step by blast
  have 3: "\<forall>t dl. timers st t = Some dl \<longrightarrow>
              (\<exists>j u. j < length (sessions st) \<and> silenceTimeout (sessions st ! j) = Some t
                    \<and> lastLoud (sessions st ! j) = Some u \<and> dl = u + 800 \<and> u \<le> now st)"
    using ok unfolding timersOk_def by blast
  have 4: "\<forall>t dl. timers st t = Some dl \<longrightarrow>
              (dl \<le> now st \<longrightarrow>
                 (mounted st \<longrightarrow> \<not> isSpeaking (step (TimerFire t) st))
                 \<and> timers (step (TimerFire t) st) t = None)
              \<and> (now st < dl \<longrightarrow> step (TimerFire t) st = st)"
    using timerFire_due timerFire_early by blast
  from 1 2 3 4 show ?thesis by (intro conjI)
qed

theorem sampling_tick_hysteresis_witness:
  "step (Tick 0 (replicate 256 5)) (run [GumResolved] (mount noTracks True None False))
     = run [GumResolved] (mount noTracks True None False)
   \<and> isSpeaking (step (Tick 0 (replicate 256 25)) (run [GumResolved] (mount noTracks True None False)))
   \<and> timers (step (Tick 0 (replicate 256 25)) (run [GumResolved] (mount noTracks True None False))) 1
       = Some 800
   \<and> silenceTimeout (sessions (step (Tick 0 (replicate 256 25))
        (run [GumResolved] (mount noTracks True None False))) ! 0) = Some 1
   \<and> timers (step (Tick 0 (replicate 256 25))
        (run [GumResolved, Tick 0 (replicate 256 25), Elapse 100] (mount noTracks True None False))) 1
       = None
   \<and> timers (step (Tick 0 (replicate 256 25))
        (run [GumResolved, Tick 0 (replicate 256 25), Elapse 100] (mount noTracks True None False))) 2
       = Some 900
   \<and> timers (step (Tick 1 (replicate 256 25))
        (run [GumResolved, Tick 0 (replicate 256 25), Elapse 100] (mount noTracks True None False))) 1
       = Some 800
   \<and> step (TimerFire 1)
        (run [GumResolved, Tick 0 (replicate 256 25), Elapse 100] (mount noTracks True None False))
       = run [GumResolved, Tick 0 (replicate 256 25), Elapse 100] (mount noTracks True None False)
   \<and> \<not> isSpeaking (step (TimerFire 1)
        (run [GumResolved, Tick 0 (replicate 256 25), Elapse 800] (mount noTracks True None False)))
   \<and> timers (step (TimerFire 1)
        (run [GumResolved, Tick 0 (replicate 256 25), Elapse 800] (mount noTracks True None False))) 1
       = None
   \<and> (\<exists>t dl. TimerFire 1 = TimerFire t
        \<and> timers (run [GumResolved, Tick 0 (replicate 256 25), Elapse 800]
             (mount noTracks True None False)) t = Some dl
        \<and> dl \<le> now (run [GumResolved, Tick 0 (replicate 256 25), Elapse 800]
             (mount noTracks True None False)))
   \<and> (\<exists>j u. j < length (sessions (run [GumResolved, Tick 0 (replicate 256 25), Elapse 800]
             (mount noTracks True None False)))
        \<and> silenceTimeout (sessions (run [GumResolved, Tick 0 (replicate 256 25), Elapse 800]
             (mount noTracks True None False)) ! j) = Some 1
        \<and> lastLoud (sessions (run [GumResolved, Tick 0 (replicate 256 25), Elapse 800]
             (mount noTracks True None False)) ! j) = Some u
        \<and> 800 = u + 800
        \<and> u \<le> now (run [GumResolved, Tick 0 (replicate 256 25), Elapse 800]
             (mount noTracks True None False)))"
proof -
  let ?w = "run [GumResolved] (mount noTracks True None False)"
  let ?w3 = "run [GumResolved, Tick 0 (replicate 256 25), Elapse 100] (mount noTracks True None False)"
  let ?w2 = "run [GumResolved, Tick 0 (replicate 256 25), Elapse 800] (mount noTracks True None False)"
  have quiet: "average (replicate 256 5) \<le> 20" and loud: "20 < average (replicate 256 25)"
    by (simp_all add: average_replicate)
  have len: "length (replicate 256 (5 :: 8 word)) = frequencyBinCount"
    "length (replicate 256 (25 :: 8 word)) = frequencyBinCount"
    by (simp_all add: frequencyBinCount_def fftSize_def)
  have w: "0 < length (sessions ?w)" "mounted ?w" "nextTimer ?w = 1" "now ?w = 0"
    by (simp_all add: model_defs)
  have w3: "0 < length (sessions ?w3)" "silenceTimeout (sessions ?w3 ! 0) = Some 1"
    "nextTimer ?w3 = 2" "now ?w3 = 100" "1 < length (sessions ?w3)"
    "silenceTimeout (sessions ?w3 ! 1) = None" "timers ?w3 1 = Some 800"
    using loud by (simp_all add: model_defs frequencyBinCount_def fftSize_def)
  have w2: "isSpeaking ?w2 \<and> \<not> isSpeaking (step (TimerFire 1) ?w2)" "timers ?w2 1 = Some 800"
    "mounted ?w2" "now ?w2 = 800"
    using loud by (simp_all add: model_defs frequencyBinCount_def fftSize_def)
  note Q = sampling_tick_hysteresis [of ?w _ noTracks True None False 0 "replicate 256 5", OF refl]
  from Q [THEN conjunct1] w(1) len(1) quiet
  have 1: "step (Tick 0 (replicate 256 5)) ?w = ?w"
    by (simp only: simp_thms)
  note L = sampling_tick_hysteresis [of ?w _ noTracks True None False 0 "replicate 256 25", OF refl]
  have pre0: "0 < length (sessions ?w) \<and> length (replicate 256 (25 :: 8 word)) = frequencyBinCount"
    using w(1) len(2) by (intro conjI)
  note L1 = L [THEN conjunct1, THEN mp, OF pre0, THEN conjunct2, THEN mp, OF loud]
  from L1 [THEN conjunct1, THEN mp, OF w(2)]
  have 2: "isSpeaking (step (Tick 0 (replicate 256 25)) ?w)" .
  from L1 [THEN conjunct2, THEN conjunct1]
  have t1: "timers (step (Tick 0 (replicate 256 25)) ?w) 1 = Some 800"
    by (simp only: w(3,4)) simp
  from L1 [THEN conjunct2, THEN conjunct2, THEN conjunct1]
  have t2: "silenceTimeout (sessions (step (Tick 0 (replicate 256 25)) ?w) ! 0) = Some 1"
    by (simp only: w(3))
  note R = sampling_tick_hysteresis [of ?w3 _ noTracks True None False 0 "replicate 256 25", OF refl]
  have pre: "0 < length (sessions ?w3) \<and> length (replicate 256 (25 :: 8 word)) = frequencyBinCount"
    using w3(1) len(2) by (intro conjI)
  note R1 = R [THEN conjunct1, THEN mp, OF pre, THEN conjunct2, THEN mp, OF loud]
  note r = R1 [THEN conjunct2, THEN conjunct1]
  from R1 [THEN conjunct2, THEN conjunct2, THEN conjunct2, THEN conjunct2, THEN conjunct1,
      THEN spec, THEN mp, OF w3(2)]
  have 3: "timers (step (Tick 0 (replicate 256 25)) ?w3) 1 = None" .
  from r have 4: "timers (step (Tick 0 (replicate 256 25)) ?w3) 2 = Some 900"
    by (simp only: w3(3,4)) simp
  note S = sampling_tick_hysteresis [of ?w3 _ noTracks True None False 1 "replicate 256 25", OF refl]
  have pre1: "1 < length (sessions ?w3) \<and> length (replicate 256 (25 :: 8 word)) = frequencyBinCount"
    using w3(5) len(2) by (intro conjI)
  have other: "1 \<noteq> nextTimer ?w3 \<and> silenceTimeout (sessions ?w3 ! 1) \<noteq> Some 1"
    using w3(3,6) by simp
  from S [THEN conjunct1, THEN mp, OF pre1, THEN conjunct2, THEN mp, OF loud,
      THEN conjunct2, THEN conjunct2, THEN conjunct2, THEN conjunct2, THEN conjunct2,
      THEN spec, THEN mp, OF other] w3(7)
  have 5: "timers (step (Tick 1 (replicate 256 25)) ?w3) 1 = Some 800"
    by simp
  have early: "now ?w3 < 800"
    using w3(4) by simp
  from R [THEN conjunct2, THEN conjunct2, THEN conjunct2, THEN spec, THEN spec, THEN mp,
      OF w3(7), THEN conjunct2, THEN mp, OF early]
  have 6: "step (TimerFire 1) ?w3 = ?w3" .
  note F = sampling_tick_hysteresis [of ?w2 _ noTracks True None False _ _ "TimerFire 1", OF refl]
  have due: "800 \<le> now ?w2"
    using w2(4) by simp
  note F1 = F [THEN conjunct2, THEN conjunct2, THEN conjunct2, THEN spec, THEN spec, THEN mp,
      OF w2(2), THEN conjunct1, THEN mp, OF due]
  from F1 [THEN conjunct1, THEN mp, OF w2(3)]
  have 7: "\<not> isSpeaking (step (TimerFire 1) ?w2)" .
  from F1 [THEN conjunct2]
  have 8: "timers (step (TimerFire 1) ?w2) 1 = None" .
  from F [THEN conjunct2, THEN conjunct1, THEN mp, OF w2(1)]
  have 9: "\<exists>t dl. TimerFire 1 = TimerFire t \<and> timers ?w2 t = Some dl \<and> dl \<le> now ?w2" .
  from F [THEN conjunct2, THEN conjunct2, THEN conjunct1, THEN spec, THEN spec, THEN mp, OF w2(2)]
  have 10: "\<exists>j u. j < length (sessions ?w2) \<and> silenceTimeout (sessions ?w2 ! j) = Some 1
        \<and> lastLoud (sessions ?w2 ! j) = Some u \<and> 800 = u + 800 \<and> u \<le> now ?w2" .
  from 1 2 t1 t2 3 4 5 6 7 8 9 10 show ?thesis by (intro conjI)
qed

text \<open>
  C1 as stated fails. The silence timer is kept per loop, \<^verbatim>\<open>isSpeaking\<close> is one for the
  component, and several loops run at a time. Here a local instance was given a stream
  with an audio track and then another one, so that two loops run. The first loop reads
  above the threshold at time 0 and arms timer 1; the second loop reads above the
  threshold at time 700 and arms timer 2, which cancels nothing; at time 800 timer 1 is
  still pending and fires, and \<^verbatim>\<open>isSpeaking\<close> becomes false 100 ms after a reading
  above the threshold.
\<close>

theorem silence_timer_of_another_loop_counterexample:
  "map source (sessions
      (run [TrackChange (Ext 0) 1, SetProps (Some (Ext 0)) False, TrackChange (Ext 1) 1,
            SetProps (Some (Ext 1)) False, Tick 0 (replicate 256 25), Elapse 700,
            Tick 1 (replicate 256 25), Elapse 100]
         (mount noTracks True None False))) = [Ext 0, Ext 1]
   \<and> isSpeaking
      (run [TrackChange (Ext 0) 1, SetProps (Some (Ext 0)) False, TrackChange (Ext 1) 1,
            SetProps (Some (Ext 1)) False, Tick 0 (replicate 256 25), Elapse 700,
            Tick 1 (replicate 256 25), Elapse 100]
         (mount noTracks True None False))
   \<and> now
      (run [TrackChange (Ext 0) 1, SetProps (Some (Ext 0)) False, TrackChange (Ext 1) 1,
            SetProps (Some (Ext 1)) False, Tick 0 (replicate 256 25), Elapse 700,
            Tick 1 (replicate 256 25), Elapse 100]
         (mount noTracks True None False)) = 800
   \<and> lastLoud (sessions
      (run [TrackChange (Ext 0) 1, SetProps (Some (Ext 0)) False, TrackChange (Ext 1) 1,
            SetProps (Some (Ext 1)) False, Tick 0 (replicate 256 25), Elapse 700,
            Tick 1 (replicate 256 25), Elapse 100]
         (mount noTracks True None False)) ! 1) = Some 700
   \<and> timers
      (run [TrackChange (Ext 0) 1, SetProps (Some (Ext 0)) False, TrackChange (Ext 1) 1,
            SetProps (Some (Ext 1)) False, Tick 0 (replicate 256 25), Elapse 700,
            Tick 1 (replicate 256 25), Elapse 100]
         (mount noTracks True None False)) 1 = Some 800
   \<and> timers
      (run [TrackChange (Ext 0) 1, SetProps (Some (Ext 0)) False, TrackChange (Ext 1) 1,
            SetProps (Some (Ext 1)) False, Tick 0 (replicate 256 25), Elapse 700,
            Tick 1 (replicate 256 25), Elapse 100]
         (mount noTracks True None False)) 2 = Some 1500
   \<and> \<not> isSpeaking
      (run [TrackChange (Ext 0) 1, SetProps (Some (Ext 0)) False, TrackChange (Ext 1) 1,
            SetProps (Some (Ext 1)) False, Tick 0 (replicate 256 25), Elapse 700,
            Tick 1 (replicate 256 25), Elapse 100, TimerFire 1]
         (mount noTracks True None False))"
  by (simp add: model_defs average_replicate frequencyBinCount_def fftSize_def)


end
